theory Spec2Isabelle
  imports Main
begin

section \<open>Reversible residual blocks with custom gradients (tefla/core/special_fn.py)\<close>

text \<open>
  Tensor values are taken from an arbitrary abelian group \<open>'a\<close>: elementwise addition and
  subtraction of tensors of one fixed shape under exact arithmetic. A gradient that the
  differentiation engine reports as absent is Python's \<open>None\<close>, here \<open>None :: 'a option\<close>.
\<close>

subsection \<open>Errors\<close>

text \<open>
  The exceptions the modelled code can raise. \<open>NoneOperandError\<close> is the exception of the
  engine when a tensor is added to \<open>None\<close>. \<open>ConfigurationError\<close> is the error class the
  specification names, carrying the offending identity; no statement of the source raises it.
\<close>

datatype error =
    AssertionError
  | AttributeError
  | ValueError
  | IndexError
  | TypeError
  | NoneOperandError
  | ConfigurationError string

subsection \<open>Tensors of the graph\<close>

text \<open>
  A tensor as the graph-level code sees it: the type of the op that produces it, its name
  (unique in a graph, so that Python's identity comparison of tensors is equality here), the
  inputs of that op, the value it evaluates to, and its static shape (\<open>None\<close> when the
  shape is not statically known).
\<close>

datatype 'a tensor =
  Tensor (op_type: string) (name: string) (op_inputs: "'a tensor list") (tval: 'a)
         (static_shape: "nat list option")

subsection \<open>Sub-functions f and g\<close>

text \<open>
  A sub-function is called as \<open>f(x)\<close> or as \<open>f(x, side_input)\<close> under an ambient variable
  scope (made explicit as a string); \<open>call\<close> receives \<open>None\<close> for the one-argument form.
  The three remaining fields are what \<open>tf.gradients\<close> returns for the tensor produced by
  that call: with respect to the stopped input, to a parameter, and to the k-th stopped
  side input, each seeded with the last argument. \<open>makes_vars\<close> lists the trainable
  variables the function creates when it is first called under a scope.
\<close>

record 'a subfn =
  call :: "string \<Rightarrow> 'a \<Rightarrow> 'a list option \<Rightarrow> 'a"
  d_input :: "string \<Rightarrow> 'a \<Rightarrow> 'a list option \<Rightarrow> 'a \<Rightarrow> 'a option"
  d_var :: "string \<Rightarrow> 'a \<Rightarrow> 'a list option \<Rightarrow> 'a tensor \<Rightarrow> 'a \<Rightarrow> 'a option"
  d_side :: "string \<Rightarrow> 'a \<Rightarrow> 'a list option \<Rightarrow> nat \<Rightarrow> 'a \<Rightarrow> 'a option"
  makes_vars :: "string \<Rightarrow> 'a tensor list"

text \<open>The conditional expression \<open>f(x, side) if side else f(x)\<close>: an empty list is falsy.\<close>

definition side_arg :: "'a list \<Rightarrow> 'a list option" where
  "side_arg side = (if side \<noteq> [] then Some side else None)"

subsection \<open>\<open>_acc_grads\<close>\<close>

text \<open>\<open>zip(*lists)\<close>: no argument gives the empty list; otherwise it stops at the shortest.\<close>

function zip_star :: "'b list list \<Rightarrow> 'b list list" where
  "zip_star ls = (if ls = [] \<or> [] \<in> set ls then [] else map hd ls # zip_star (map tl ls))"
  by pat_completeness auto
termination
proof (relation "measure (\<lambda>ls. length (hd ls))")
  show "wf (measure (\<lambda>ls::'b list list. length (hd ls)))" by simp
next
  fix ls :: "'b list list"
  assume a: "\<not> (ls = [] \<or> [] \<in> set ls)"
  then obtain l rest where ls: "ls = l # rest" by (cases ls) auto
  with a have "l \<noteq> []" by auto
  with ls show "(map tl ls, ls) \<in> measure (\<lambda>ls. length (hd ls))" by simp
qed

declare zip_star.simps [simp del]

definition acc_one :: "('a::ab_group_add) option list \<Rightarrow> 'a option" where
  "acc_one grads =
     (let present = map the (filter (\<lambda>g. g \<noteq> None) grads)
      in if present \<noteq> [] then Some (sum_list present) else None)"

definition acc_grads :: "('a::ab_group_add) option list list \<Rightarrow> 'a option list" where
  "acc_grads lists_of_grads = map acc_one (zip_star lists_of_grads)"

subsection \<open>One reversible layer\<close>

definition rev_layer_forward ::
  "string \<Rightarrow> ('a::ab_group_add) \<times> 'a \<Rightarrow> 'a subfn \<Rightarrow> 'a subfn \<Rightarrow> 'a list \<Rightarrow> 'a list \<Rightarrow> bool \<Rightarrow> 'a \<times> 'a" where
  "rev_layer_forward scope xs f g f_side_input g_side_input gate_outputs =
     (let x1 = fst xs; x2 = snd xs;
          y1 = x1 + call f (scope @ ''/f'') x2 (side_arg f_side_input);
          y2 = x2 + call g (scope @ ''/g'') y1 (side_arg g_side_input)
      in if gate_outputs then (y1, y2) else (y1, y2))"

text \<open>\<open>tf.gradients(out, vars + side_input, seed)\<close>: one entry for each target, in order.\<close>

definition gradients_wrt ::
  "'a subfn \<Rightarrow> string \<Rightarrow> 'a \<Rightarrow> 'a list option \<Rightarrow> 'a tensor list \<Rightarrow> 'a list \<Rightarrow> 'a \<Rightarrow> 'a option list" where
  "gradients_wrt fn scope x side vars side_input seed =
     map (\<lambda>v. d_var fn scope x side v seed) vars @
     map (\<lambda>k. d_side fn scope x side k seed) [0 ..< length side_input]"

definition slice :: "nat \<Rightarrow> nat \<Rightarrow> 'b list \<Rightarrow> 'b list" where
  "slice a b xs = take (b - a) (drop a xs)"

record 'a layer_grads =
  xs_rec :: "'a \<times> 'a"
  grad_xs :: "'a \<times> 'a"
  f_ret :: "'a option list \<times> 'a option list"
  g_ret :: "'a option list \<times> 'a option list"

text \<open>
  A gradient of \<open>g\<close> or \<open>f\<close> with respect to its stopped input that is \<open>None\<close> makes the
  additions of lines 611 to 613 raise (\<open>NoneOperandError\<close>). \<open>tf.tuple\<close> is the identity on
  values; the slices of its result are taken as the source takes them.
\<close>

definition rev_layer_backward ::
  "string \<Rightarrow> ('a::ab_group_add) list \<Rightarrow> 'a list \<Rightarrow> 'a subfn \<Rightarrow> 'a subfn \<Rightarrow>
     'a tensor list \<Rightarrow> 'a list \<Rightarrow> 'a tensor list \<Rightarrow> 'a list \<Rightarrow> error + 'a layer_grads" where
  "rev_layer_backward scope ys grad_ys f g f_vars f_side_input g_vars g_side_input =
     (case ys of
        [y1, y2] \<Rightarrow>
          (case grad_ys of
             [grad_y1, grad_y2] \<Rightarrow>
               (let gs = side_arg g_side_input;
                    gy1 = call g (scope @ ''/g'') y1 gs;
                    x2 = y2 - gy1;
                    fs = side_arg f_side_input;
                    fx2 = call f (scope @ ''/f'') x2 fs;
                    x1 = y1 - fx2
                in case d_input g (scope @ ''/g'') y1 gs grad_y2 of
                     None \<Rightarrow> Inl NoneOperandError
                   | Some grad_gy1_y2 \<Rightarrow>
                 (case d_input f (scope @ ''/f'') x2 fs grad_y1 of
                     None \<Rightarrow> Inl NoneOperandError
                   | Some d1 \<Rightarrow>
                 (case d_input f (scope @ ''/f'') x2 fs grad_gy1_y2 of
                     None \<Rightarrow> Inl NoneOperandError
                   | Some d2 \<Rightarrow>
                 (let grad_x1 = grad_y1 + grad_gy1_y2;
                      grad_x2 = d1 + grad_y2 + d2;
                      grads1 = gradients_wrt g (scope @ ''/g'') y1 gs g_vars g_side_input grad_y2;
                      grad_g_vars = take (length g_vars) grads1;
                      grad_g_side = drop (length g_vars) grads1;
                      grads2 = gradients_wrt f (scope @ ''/f'') x2 fs f_vars f_side_input grad_y1;
                      grad_f_y1 = take (length f_vars) grads2;
                      grad_f_side1 = drop (length f_vars) grads2;
                      grads3 = gradients_wrt f (scope @ ''/f'') x2 fs f_vars f_side_input grad_gy1_y2;
                      grad_f_y2 = take (length f_vars) grads3;
                      grad_f_side2 = drop (length f_vars) grads3;
                      grad_f_vars = acc_grads [grad_f_y1, grad_f_y2];
                      grad_f_side = acc_grads [grad_f_side1, grad_f_side2];
                      outs = [Some x1, Some x2, Some grad_x1, Some grad_x2] @ grad_f_vars @
                             grad_g_vars @ grad_f_side @ grad_g_side;
                      grad_f_vars_end = 4 + length grad_f_vars;
                      grad_g_vars_end = grad_f_vars_end + length grad_g_vars;
                      grad_f_side_end = grad_g_vars_end + length grad_f_side
                  in Inr \<lparr> xs_rec = (x1, x2), grad_xs = (grad_x1, grad_x2),
                           f_ret = (slice 4 grad_f_vars_end outs,
                                    slice grad_g_vars_end grad_f_side_end outs),
                           g_ret = (slice grad_f_vars_end grad_g_vars_end outs,
                                    drop grad_f_side_end outs) \<rparr>))))
           | _ \<Rightarrow> Inl ValueError)
      | _ \<Rightarrow> Inl ValueError)"

text \<open>
  Lines 589 to 606 of \<open>_rev_layer_backward\<close>: the reconstruction of the inputs
  \<open>(x1, x2)\<close> of a layer from its outputs, before any gradient is taken.
\<close>

definition rev_layer_reconstruct ::
  "string \<Rightarrow> ('a::ab_group_add) list \<Rightarrow> 'a subfn \<Rightarrow> 'a subfn \<Rightarrow> 'a list \<Rightarrow> 'a list \<Rightarrow>
     error + 'a \<times> 'a" where
  "rev_layer_reconstruct scope ys f g f_side_input g_side_input =
     (case ys of
        [y1, y2] \<Rightarrow>
          (let gy1 = call g (scope @ ''/g'') y1 (side_arg g_side_input);
               x2 = y2 - gy1;
               fx2 = call f (scope @ ''/f'') x2 (side_arg f_side_input);
               x1 = y1 - fx2
           in Inr (x1, x2))
      | _ \<Rightarrow> Inl ValueError)"

subsection \<open>Names: \<open>variable_ref\<close> and \<open>LAYER_RE\<close>\<close>

definition is_digit :: "char \<Rightarrow> bool" where
  "is_digit c = (c \<in> set ''0123456789'')"

definition digit_val :: "char \<Rightarrow> nat" where
  "digit_val c = of_char c - 48"

text \<open>\<open>int(s)\<close> on a non-empty string of ASCII digits.\<close>

definition int_of_digits :: "string \<Rightarrow> nat" where
  "int_of_digits s = foldl (\<lambda>n c. 10 * n + digit_val c) 0 s"

text \<open>\<open>"%d" % i\<close> for a non-negative \<open>i\<close>.\<close>

function show_nat :: "nat \<Rightarrow> string" where
  "show_nat n = (if n < 10 then [char_of (48 + n)]
                 else show_nat (n div 10) @ [char_of (48 + n mod 10)])"
  by pat_completeness auto
termination
  by (relation "measure id") auto

declare show_nat.simps [simp del]

text \<open>\<open>sub in s\<close> on strings.\<close>

fun contains :: "string \<Rightarrow> string \<Rightarrow> bool" where
  "contains sub [] = (sub = [])"
| "contains sub (c # cs) = (take (length sub) (c # cs) = sub \<or> contains sub cs)"

text \<open>
  \<open>variable_ref\<close>: follow Identity ops to their first input; the result is the tensor
  reached when its op type contains \<open>Variable\<close>, else \<open>None\<close>.
\<close>

fun variable_ref :: "'a tensor \<Rightarrow> error + 'a tensor option" where
  "variable_ref (Tensor ty nm ins v sh) =
     (if ty = ''Identity'' then
        (case ins of [] \<Rightarrow> Inl IndexError | t # _ \<Rightarrow> variable_ref t)
      else if contains ''Variable'' ty then Inr (Some (Tensor ty nm ins v sh))
      else Inr None)"

text \<open>
  \<open>LAYER_RE = re.compile(".*revlayer_([0-9]*)/([fg])/.*")\<close> applied with \<open>match\<close>.
  \<open>layer_re_here\<close> matches \<open>revlayer_([0-9]*)/([fg])/\<close> at the start of the string and
  returns the two groups; \<open>LAYER_RE_match\<close> is the greedy \<open>.*\<close> in front of it, which
  consumes any character but a newline and backtracks from the longest prefix.
\<close>

definition layer_re_here :: "string \<Rightarrow> (string \<times> char) option" where
  "layer_re_here s =
     (if take 9 s = ''revlayer_'' then
        (let rest = drop 9 s;
             digits = takeWhile is_digit rest
         in case dropWhile is_digit rest of
              c1 # c2 # c3 # _ \<Rightarrow>
                if c1 = CHR ''/'' \<and> (c2 = CHR ''f'' \<or> c2 = CHR ''g'') \<and> c3 = CHR ''/''
                then Some (digits, c2) else None
            | _ \<Rightarrow> None)
      else None)"

fun LAYER_RE_match :: "string \<Rightarrow> (string \<times> char) option" where
  "LAYER_RE_match [] = layer_re_here []"
| "LAYER_RE_match (c # cs) =
     (case (if c = CHR 0x0A then None else LAYER_RE_match cs) of
        Some r \<Rightarrow> Some r
      | None \<Rightarrow> layer_re_here (c # cs))"

subsection \<open>The state shared by the closures of \<open>rev_block\<close>\<close>

text \<open>
  \<open>layer_scopes\<close> is the list that \<open>forward\<close> fills and \<open>custom_grad_fn\<close> reverses.
  The lists \<open>f\<close> and \<open>g\<close> are Python list objects that a caller may also hold, and that
  may be one and the same object: \<open>fn_lists\<close> is the store of list objects, by address.
\<close>

record 'a block_state =
  layer_scopes :: "string list"
  fn_lists :: "nat \<Rightarrow> 'a subfn list"

text \<open>What the closures capture and never rebind.\<close>

record 'a block_closure =
  cl_f :: nat
  cl_g :: nat
  cl_f_side_input :: "'a tensor list"
  cl_g_side_input :: "'a tensor list"
  cl_num_layers :: int

subsection \<open>\<open>rev_block.custom_grad_fn\<close>\<close>

text \<open>\<open>xs.index(t)\<close> for a \<open>t\<close> that is in \<open>xs\<close>.\<close>

fun index_of :: "'b list \<Rightarrow> 'b \<Rightarrow> nat" where
  "index_of [] t = 0"
| "index_of (x # xs) t = (if x = t then 0 else Suc (index_of xs t))"

text \<open>\<open>xs[i]\<close> for \<open>i \<ge> 0\<close>.\<close>

definition nth_checked :: "'b list \<Rightarrow> nat \<Rightarrow> error + 'b" where
  "nth_checked xs i = (if i < length xs then Inr (xs ! i) else Inl IndexError)"

text \<open>Lines 748 to 754.\<close>

fun side_idxs_loop ::
  "'b list \<Rightarrow> 'b list \<Rightarrow> (nat \<times> 'b) list \<Rightarrow> nat option list \<Rightarrow> nat option list \<Rightarrow>
     error + nat option list \<times> nat option list" where
  "side_idxs_loop fsi gsi [] f_side_idxs g_side_idxs = Inr (f_side_idxs, g_side_idxs)"
| "side_idxs_loop fsi gsi ((i, t) # rest) f_side_idxs g_side_idxs =
     (if t \<in> set fsi then
        side_idxs_loop fsi gsi rest (f_side_idxs[index_of fsi t := Some i]) g_side_idxs
      else if t \<in> set gsi then
        side_idxs_loop fsi gsi rest f_side_idxs (g_side_idxs[index_of gsi t := Some i])
      else Inl AssertionError)"

record 'a var_groups =
  f_vars :: "'a tensor list list"
  g_vars :: "'a tensor list list"
  f_vars_idxs :: "nat list list"
  g_vars_idxs :: "nat list list"

text \<open>\<open>ls[k].append(v)\<close>.\<close>

definition append_at :: "'b list list \<Rightarrow> nat \<Rightarrow> 'b \<Rightarrow> 'b list list" where
  "append_at ls k v = ls[k := ls ! k @ [v]]"

text \<open>
  Lines 761 to 774. \<open>ref.name\<close> on \<open>None\<close> and \<open>regex.group\<close> on a failed match raise
  AttributeError, \<open>int\<close> of the empty string raises ValueError, a layer number beyond the
  lists IndexError.
\<close>

fun vars_loop :: "(nat \<times> 'a tensor) list \<Rightarrow> 'a var_groups \<Rightarrow> error + 'a var_groups" where
  "vars_loop [] grp = Inr grp"
| "vars_loop ((i, t) # rest) grp =
     (case variable_ref t of
        Inl e \<Rightarrow> Inl e
      | Inr None \<Rightarrow> Inl AttributeError
      | Inr (Some ref) \<Rightarrow>
          (case LAYER_RE_match (name ref) of
             None \<Rightarrow> Inl AttributeError
           | Some (digits, fn_name) \<Rightarrow>
               if digits = [] then Inl ValueError
               else (let layer_no = int_of_digits digits
                     in if fn_name = CHR ''f'' then
                          (if layer_no < length (f_vars grp) then
                             vars_loop rest
                               (grp\<lparr>f_vars := append_at (f_vars grp) layer_no ref,
                                    f_vars_idxs := append_at (f_vars_idxs grp) layer_no i\<rparr>)
                           else Inl IndexError)
                        else if fn_name = CHR ''g'' then
                          (if layer_no < length (g_vars grp) then
                             vars_loop rest
                               (grp\<lparr>g_vars := append_at (g_vars grp) layer_no ref,
                                    g_vars_idxs := append_at (g_vars_idxs grp) layer_no i\<rparr>)
                           else Inl IndexError)
                        else Inl AssertionError)))"

record 'a loop_acc =
  acc_ys :: "'a list"
  acc_grad_ys :: "'a list"
  f_var_grads :: "'a option list list"
  g_var_grads :: "'a option list list"
  f_side_grads :: "'a option list list"
  g_side_grads :: "'a option list list"

text \<open>
  Lines 788 to 800, over the reversed containers. The variable scope entered for layer
  \<open>i\<close> is \<open>layer_scopes[i]\<close>; the side inputs reach the layer as values.
\<close>

fun layers_loop ::
  "nat list \<Rightarrow> string list \<Rightarrow> 'a subfn list \<Rightarrow> 'a subfn list \<Rightarrow> 'a tensor list list \<Rightarrow>
     'a tensor list list \<Rightarrow> 'a list \<Rightarrow> 'a list \<Rightarrow> ('a::ab_group_add) loop_acc \<Rightarrow> error + 'a loop_acc" where
  "layers_loop [] scopes fl gl fv gv fsi gsi acc = Inr acc"
| "layers_loop (i # rest) scopes fl gl fv gv fsi gsi acc =
     (case nth_checked scopes i of Inl e \<Rightarrow> Inl e | Inr scope \<Rightarrow>
     (case nth_checked fl i of Inl e \<Rightarrow> Inl e | Inr f \<Rightarrow>
     (case nth_checked gl i of Inl e \<Rightarrow> Inl e | Inr g \<Rightarrow>
     (case nth_checked fv i of Inl e \<Rightarrow> Inl e | Inr f_vars_i \<Rightarrow>
     (case nth_checked gv i of Inl e \<Rightarrow> Inl e | Inr g_vars_i \<Rightarrow>
     (case rev_layer_backward scope (acc_ys acc) (acc_grad_ys acc) f g f_vars_i fsi g_vars_i gsi of
        Inl e \<Rightarrow> Inl e
      | Inr r \<Rightarrow>
          layers_loop rest scopes fl gl fv gv fsi gsi
            \<lparr> acc_ys = [fst (xs_rec r), snd (xs_rec r)],
              acc_grad_ys = [fst (grad_xs r), snd (grad_xs r)],
              f_var_grads = f_var_grads acc @ [fst (f_ret r)],
              g_var_grads = g_var_grads acc @ [fst (g_ret r)],
              f_side_grads = f_side_grads acc @ [snd (f_ret r)],
              g_side_grads = g_side_grads acc @ [snd (g_ret r)] \<rparr>))))))"

text \<open>
  \<open>out[i] = v\<close> for each pair in turn: an index \<open>None\<close> raises TypeError, an index beyond
  the list IndexError.
\<close>

fun scatter :: "(nat option \<times> 'b) list \<Rightarrow> 'b list \<Rightarrow> error + 'b list" where
  "scatter [] out = Inr out"
| "scatter ((None, v) # rest) out = Inl TypeError"
| "scatter ((Some i, v) # rest) out =
     (if i < length out then scatter rest (out[i := v]) else Inl IndexError)"

text \<open>Lines 814 to 817: the pairs \<open>(i, grad)\<close> in the order the nested loops visit them.\<close>

definition var_grad_pairs ::
  "nat list list \<Rightarrow> 'b list list \<Rightarrow> nat list list \<Rightarrow> 'b list list \<Rightarrow> (nat option \<times> 'b) list" where
  "var_grad_pairs fi fg gi gg =
     concat (map (\<lambda>(idxs, grads). zip (map Some idxs) grads) (zip fi fg @ zip gi gg))"

text \<open>Lines 788 to 825: what follows the reversal of the containers.\<close>

definition backward_and_route ::
  "nat \<Rightarrow> string list \<Rightarrow> 'a subfn list \<Rightarrow> 'a subfn list \<Rightarrow> 'a var_groups \<Rightarrow>
     'a tensor list \<Rightarrow> 'a tensor list \<Rightarrow> nat option list \<Rightarrow> nat option list \<Rightarrow> nat \<Rightarrow> nat \<Rightarrow>
     ('a::ab_group_add) list \<Rightarrow> 'a list \<Rightarrow> error + 'a option list \<times> 'a option list" where
  "backward_and_route n scopes fl gl grp fsi gsi f_side_idxs g_side_idxs n_side n_vars ys grad_ys =
     (case layers_loop [0 ..< n] scopes fl gl (rev (f_vars grp)) (rev (g_vars grp))
             (map tval fsi) (map tval gsi)
             \<lparr> acc_ys = ys, acc_grad_ys = grad_ys, f_var_grads = [], g_var_grads = [],
               f_side_grads = [], g_side_grads = [] \<rparr> of
        Inl e \<Rightarrow> Inl e
      | Inr acc \<Rightarrow>
          (let acc_f_side_grads = acc_grads (f_side_grads acc);
               acc_g_side_grads = acc_grads (g_side_grads acc)
           in case scatter (var_grad_pairs (f_vars_idxs grp) (rev (f_var_grads acc))
                              (g_vars_idxs grp) (rev (g_var_grads acc)))
                     (replicate n_vars None) of
                Inl e \<Rightarrow> Inl e
              | Inr variable_grads \<Rightarrow>
            (case scatter (zip f_side_idxs acc_f_side_grads) (replicate n_side None) of
                Inl e \<Rightarrow> Inl e
              | Inr side1 \<Rightarrow>
            (case scatter (zip g_side_idxs acc_g_side_grads) side1 of
                Inl e \<Rightarrow> Inl e
              | Inr side_input_grads \<Rightarrow>
            (case acc_grad_ys acc of
                [grad_x1, grad_x2] \<Rightarrow>
                  Inr ([Some grad_x1, Some grad_x2] @ side_input_grads, variable_grads)
              | _ \<Rightarrow> Inl ValueError)))))"

text \<open>\<open>f.reverse(); g.reverse()\<close> on the store of list objects.\<close>

definition reverse_at :: "nat \<Rightarrow> (nat \<Rightarrow> 'b list) \<Rightarrow> (nat \<Rightarrow> 'b list)" where
  "reverse_at r store = store(r := rev (store r))"

definition custom_grad_fn ::
  "'a block_closure \<Rightarrow> 'a tensor list \<Rightarrow> 'a tensor list \<Rightarrow> ('a::ab_group_add) list \<Rightarrow> 'a list \<Rightarrow>
     'a block_state \<Rightarrow> 'a block_state \<times> (error + 'a option list \<times> 'a option list)" where
  "custom_grad_fn cl inputs variables ys grad_ys st =
     (let side_inputs = drop 2 inputs;
          n = nat (cl_num_layers cl)
      in if length side_inputs \<noteq> length (cl_f_side_input cl) + length (cl_g_side_input cl)
         then (st, Inl AssertionError)
         else
           (case side_idxs_loop (cl_f_side_input cl) (cl_g_side_input cl) (enumerate 0 side_inputs)
                   (replicate (length (cl_f_side_input cl)) None)
                   (replicate (length (cl_g_side_input cl)) None) of
              Inl e \<Rightarrow> (st, Inl e)
            | Inr (f_side_idxs, g_side_idxs) \<Rightarrow>
           (case vars_loop (enumerate 0 variables)
                   \<lparr> f_vars = replicate n [], g_vars = replicate n [],
                     f_vars_idxs = replicate n [], g_vars_idxs = replicate n [] \<rparr> of
              Inl e \<Rightarrow> (st, Inl e)
            | Inr grp \<Rightarrow>
                (let st' = st\<lparr> layer_scopes := rev (layer_scopes st),
                               fn_lists := reverse_at (cl_g cl) (reverse_at (cl_f cl) (fn_lists st)) \<rparr>
                 in (st', backward_and_route n (layer_scopes st') (fn_lists st' (cl_f cl))
                            (fn_lists st' (cl_g cl)) grp (cl_f_side_input cl) (cl_g_side_input cl)
                            f_side_idxs g_side_idxs (length side_inputs) (length variables)
                            ys grad_ys)))))"

subsection \<open>\<open>_rev_block_forward\<close>\<close>

text \<open>
  \<open>block_scope\<close> is the name the engine gives to the variable scope of the block; layer
  \<open>i\<close> runs under \<open>block_scope/revlayer_i\<close>, which is appended to \<open>layer_scopes\<close>.
\<close>

fun forward_loop ::
  "nat list \<Rightarrow> string \<Rightarrow> 'a subfn list \<Rightarrow> 'a subfn list \<Rightarrow> 'a list \<Rightarrow> 'a list \<Rightarrow> bool \<Rightarrow>
     string list \<times> ('a::ab_group_add) \<times> 'a \<Rightarrow> error + string list \<times> 'a \<times> 'a" where
  "forward_loop [] block_scope fl gl fsi gsi gate_outputs (scopes, out) = Inr (scopes, out)"
| "forward_loop (i # rest) block_scope fl gl fsi gsi gate_outputs (scopes, out) =
     (let layer_vs = block_scope @ ''/revlayer_'' @ show_nat i
      in case nth_checked fl i of Inl e \<Rightarrow> Inl e | Inr f \<Rightarrow>
        (case nth_checked gl i of Inl e \<Rightarrow> Inl e | Inr g \<Rightarrow>
           forward_loop rest block_scope fl gl fsi gsi gate_outputs
             (scopes @ [layer_vs], rev_layer_forward layer_vs out f g fsi gsi gate_outputs)))"

definition rev_block_forward ::
  "('a::ab_group_add) \<Rightarrow> 'a \<Rightarrow> 'a subfn list \<Rightarrow> 'a subfn list \<Rightarrow> int \<Rightarrow> 'a list \<Rightarrow> 'a list \<Rightarrow>
     string list \<Rightarrow> bool \<Rightarrow> string \<Rightarrow> error + string list \<times> 'a \<times> 'a" where
  "rev_block_forward x1 x2 fl gl num_layers fsi gsi scopes gate_outputs block_scope =
     forward_loop [0 ..< nat num_layers] block_scope fl gl fsi gsi gate_outputs (scopes, (x1, x2))"

subsection \<open>\<open>_fn_with_custom_grad\<close>\<close>

text \<open>
  What a Python function returns: \<open>None\<close>, one tensor, or a tuple or list of tensors.
  Running a forward function also yields the variables created in its scope.
\<close>

datatype 'a py_value = PyNone | Single "'a tensor" | Seq "'a tensor list"

record 'a fn_result =
  fn_outputs :: "'a py_value"
  global_variables :: "'a tensor list"
  trainable_variables :: "'a tensor list"

type_synonym ('a, 's) forward_fn = "'a tensor list \<Rightarrow> 's \<Rightarrow> 's \<times> (error + 'a fn_result)"

type_synonym ('a, 's) grad_fn =
  "'a tensor list \<Rightarrow> 'a tensor list \<Rightarrow> 'a tensor list \<Rightarrow> 'a list \<Rightarrow> 's \<Rightarrow>
     's \<times> (error + 'a option list \<times> 'a option list)"

text \<open>
  The identity Defun that is registered: its name, the inputs it is called on, its outputs
  (the value of each declared output, with the shape \<open>shape_func\<close> gives it) and its Python
  gradient function, which receives \<open>op.inputs\<close> and the output gradients.
\<close>

record ('a, 's) defun_op =
  func_name :: string
  op_args :: "'a tensor list"
  op_outputs :: "'a tensor list"
  python_grad_func :: "'a tensor list \<Rightarrow> 'a list \<Rightarrow> 's \<Rightarrow> 's \<times> (error + 'a option list)"

datatype ('a, 's) wrapped = Direct "'a py_value" | ViaIdentity "('a, 's) defun_op"

text \<open>Lines 72 to 84, the inner \<open>custom_grad_fn\<close> of \<open>_fn_with_custom_grad\<close>.\<close>

definition fn_custom_grad_fn ::
  "nat \<Rightarrow> nat \<Rightarrow> nat \<Rightarrow> ('a, 's) grad_fn \<Rightarrow> 'a tensor list \<Rightarrow> 'a list \<Rightarrow> 's \<Rightarrow>
     's \<times> (error + 'a option list)" where
  "fn_custom_grad_fn n_inputs n_train_vars n_outputs grad_fn op_ins dys st =
     (let fn_inputs = take n_inputs op_ins;
          fn_vars = slice n_inputs (n_inputs + n_train_vars) op_ins;
          fn_outs = drop (n_inputs + n_train_vars) op_ins
      in if length fn_outs \<noteq> n_outputs then (st, Inl AssertionError)
         else if length fn_outs \<noteq> length dys then (st, Inl AssertionError)
         else (case grad_fn fn_inputs fn_vars fn_outs dys st of
                 (st', Inl e) \<Rightarrow> (st', Inl e)
               | (st', Inr (grad_inputs, grad_vars)) \<Rightarrow>
                   (st', Inr (grad_inputs @ grad_vars @ replicate (length fn_outs) None))))"

text \<open>
  The outputs of the identity op: \<open>tf.identity\<close> of each declared output, with the static
  shape of that output, whatever it is.
\<close>

definition identity_outputs :: "string \<Rightarrow> 'a tensor list \<Rightarrow> 'a tensor list \<Rightarrow> 'a tensor list" where
  "identity_outputs nm op_ins outs =
     map (\<lambda>(k, t). Tensor nm (nm @ '':'' @ show_nat k) op_ins (tval t) (static_shape t))
         (enumerate 0 outs)"

text \<open>
  \<open>rnd\<close> is the number \<open>random.randint\<close> returns. The element types of the signature are
  read from tensors, so a forward function that returned \<open>None\<close> fails on \<open>t.dtype\<close>.
\<close>

definition fn_with_custom_grad_impl ::
  "('a, 's) forward_fn \<Rightarrow> 'a tensor list \<Rightarrow> ('a, 's) grad_fn option \<Rightarrow> bool \<Rightarrow> nat \<Rightarrow> 's \<Rightarrow>
     's \<times> (error + ('a, 's) wrapped)" where
  "fn_with_custom_grad_impl fn inputs grad_fn use_global_vars rnd st =
     (case fn inputs st of
        (st', Inl e) \<Rightarrow> (st', Inl e)
      | (st', Inr res) \<Rightarrow>
          (let outputs = fn_outputs res;
               train_vars = (if use_global_vars then global_variables res
                             else trainable_variables res)
           in case grad_fn of
                None \<Rightarrow> (st', Inr (Direct outputs))
              | Some gf \<Rightarrow>
                  (case outputs of
                     PyNone \<Rightarrow> (st', Inl AttributeError)
                   | Single t \<Rightarrow>
                       (let nm = ''identity_custom_grad'' @ show_nat rnd;
                            op_ins = inputs @ train_vars @ [t]
                        in (st', Inr (ViaIdentity
                              \<lparr> func_name = nm, op_args = op_ins,
                                op_outputs = identity_outputs nm op_ins [t],
                                python_grad_func =
                                  fn_custom_grad_fn (length inputs) (length train_vars) 1 gf \<rparr>)))
                   | Seq outs \<Rightarrow>
                       (let nm = ''identity_custom_grad'' @ show_nat rnd;
                            op_ins = inputs @ train_vars @ outs
                        in (st', Inr (ViaIdentity
                              \<lparr> func_name = nm, op_args = op_ins,
                                op_outputs = identity_outputs nm op_ins outs,
                                python_grad_func =
                                  fn_custom_grad_fn (length inputs) (length train_vars)
                                    (length outs) gf \<rparr>))))))"

subsection \<open>\<open>rev_block\<close>\<close>

text \<open>The argument \<open>f\<close> (or \<open>g\<close>): one function, or a list object given by its address.\<close>

datatype 'a fn_arg = OneFn "'a subfn" | FnList nat

text \<open>
  Lines 729 to 736 for one of the two arguments. \<open>[f] * num_layers\<close> is a new list object,
  stored at the first free address \<open>free\<close>.
\<close>

definition normalize_fn ::
  "'a fn_arg \<Rightarrow> int \<Rightarrow> (nat \<Rightarrow> 'a subfn list) \<Rightarrow> nat \<Rightarrow>
     error + nat \<times> (nat \<Rightarrow> 'a subfn list) \<times> nat" where
  "normalize_fn f num_layers store free =
     (case f of
        FnList r \<Rightarrow>
          if int (length (store r)) = num_layers then Inr (r, store, free)
          else Inl AssertionError
      | OneFn fn \<Rightarrow> Inr (free, store(free := replicate (nat num_layers) fn), Suc free))"

text \<open>The variables created under the layer scopes by the functions of the two lists.\<close>

definition block_variables :: "string list \<Rightarrow> 'a subfn list \<Rightarrow> 'a subfn list \<Rightarrow> 'a tensor list" where
  "block_variables scopes fl gl =
     concat (map (\<lambda>(sc, f, g). makes_vars f (sc @ ''/f'') @ makes_vars g (sc @ ''/g''))
                 (zip scopes (zip fl gl)))"

text \<open>
  Lines 829 to 841. \<open>out_node\<close> is the graph node the engine creates for an output value.
  A call with fewer than two positional arguments is a TypeError.
\<close>

definition forward ::
  "'a block_closure \<Rightarrow> bool \<Rightarrow> string \<Rightarrow> ('a \<Rightarrow> 'a tensor) \<Rightarrow>
     (('a::ab_group_add), 'a block_state) forward_fn" where
  "forward cl is_training block_scope out_node args st =
     (case args of
        x1 # x2 # side_inputs \<Rightarrow>
          (let f_side = take (length (cl_f_side_input cl)) side_inputs;
               g_side = drop (length (cl_f_side_input cl)) side_inputs
           in case rev_block_forward (tval x1) (tval x2) (fn_lists st (cl_f cl))
                     (fn_lists st (cl_g cl)) (cl_num_layers cl) (map tval f_side)
                     (map tval g_side) (layer_scopes st) is_training block_scope of
                Inl e \<Rightarrow> (st, Inl e)
              | Inr (scopes, y1, y2) \<Rightarrow>
                  (let vars = block_variables (drop (length (layer_scopes st)) scopes)
                                (fn_lists st (cl_f cl)) (fn_lists st (cl_g cl))
                   in (st\<lparr>layer_scopes := scopes\<rparr>,
                       Inr \<lparr> fn_outputs = Seq [out_node y1, out_node y2],
                             global_variables = vars, trainable_variables = vars \<rparr>)))
      | _ \<Rightarrow> (st, Inl TypeError))"

record 'a block_result =
  br_result :: "('a, 'a block_state) wrapped"
  br_state :: "'a block_state"
  br_closure :: "'a block_closure"

text \<open>
  \<open>rev_block\<close>. \<open>store\<close> holds the list objects that exist at the call and \<open>free\<close> is the
  first unused address. The result carries what the call returns, the state the closures
  share afterwards, and the values they captured.
\<close>

definition rev_block ::
  "'a tensor \<Rightarrow> 'a tensor \<Rightarrow> 'a fn_arg \<Rightarrow> 'a fn_arg \<Rightarrow> int \<Rightarrow> 'a tensor list option \<Rightarrow>
     'a tensor list option \<Rightarrow> bool \<Rightarrow> string \<Rightarrow> ('a \<Rightarrow> 'a tensor) \<Rightarrow> nat \<Rightarrow>
     (nat \<Rightarrow> 'a subfn list) \<Rightarrow> nat \<Rightarrow> error + ('a::ab_group_add) block_result" where
  "rev_block x1 x2 f g num_layers f_side_input g_side_input is_training block_scope out_node rnd
     store free =
     (let fsi = (case f_side_input of None \<Rightarrow> [] | Some l \<Rightarrow> l);
          gsi = (case g_side_input of None \<Rightarrow> [] | Some l \<Rightarrow> l)
      in case normalize_fn f num_layers store free of
           Inl e \<Rightarrow> Inl e
         | Inr (fr, store1, free1) \<Rightarrow>
        (case normalize_fn g num_layers store1 free1 of
           Inl e \<Rightarrow> Inl e
         | Inr (gr, store2, free2) \<Rightarrow>
             (let cl = \<lparr> cl_f = fr, cl_g = gr, cl_f_side_input = fsi, cl_g_side_input = gsi,
                         cl_num_layers = num_layers \<rparr>;
                  st0 = \<lparr> layer_scopes = [], fn_lists = store2 \<rparr>
              in case fn_with_custom_grad_impl (forward cl is_training block_scope out_node)
                        ([x1, x2] @ fsi @ gsi)
                        (if is_training
                         then Some (\<lambda>inputs variables ys grad_ys.
                                      custom_grad_fn cl inputs variables (map tval ys) grad_ys)
                         else None)
                        False rnd st0 of
                   (st1, Inl e) \<Rightarrow> Inl e
                 | (st1, Inr w) \<Rightarrow>
                     Inr \<lparr> br_result = w, br_state = st1, br_closure = cl \<rparr>)))"

subsection \<open>\<open>recompute_grad\<close>\<close>

text \<open>
  What a Python function that builds graph nodes does depends on the variable scope that is
  current when it is called: the variables it creates are named after that scope. The
  scope is the first argument of such a function here.
\<close>

type_synonym ('a, 's) scoped_fn = "string \<Rightarrow> ('a, 's) forward_fn"

text \<open>
  \<open>tf_gradients ys xs grad_ys\<close> is the structural differentiation of the engine.
  \<open>list(fn(*inputs))\<close> needs an iterable: a single tensor or \<open>None\<close> is a TypeError.
  \<open>grad_scope\<close> is the variable scope that is current when the engine runs the gradient
  function: line 872 calls \<open>fn\<close> there, without entering any scope.
\<close>

definition recompute_grad_fn ::
  "('a, 's) scoped_fn \<Rightarrow> ('a tensor list \<Rightarrow> 'a tensor list \<Rightarrow> 'a list \<Rightarrow> 'a option list) \<Rightarrow>
     string \<Rightarrow> ('a, 's) grad_fn" where
  "recompute_grad_fn fn tf_gradients grad_scope inputs variables outputs output_grads st =
     (case fn grad_scope inputs st of
        (st', Inl e) \<Rightarrow> (st', Inl e)
      | (st', Inr res) \<Rightarrow>
          (case fn_outputs res of
             Seq outs \<Rightarrow>
               (let grads = tf_gradients outs (inputs @ variables) output_grads;
                    grad_inputs = take (length inputs) grads;
                    grad_vars = drop (length inputs) grads
                in (st', Inr (grad_inputs, grad_vars)))
           | _ \<Rightarrow> (st', Inl TypeError)))"

text \<open>
  \<open>_recompute_grad\<close>. The forward call of \<open>fn\<close> runs inside the variable scope that
  line 53 opens for it; \<open>vs\<close> is the name the engine gives to that scope, which is a new
  one at every call (\<open>default_name\<close>).
\<close>

definition recompute_grad_impl ::
  "('a, 's) scoped_fn \<Rightarrow> 'a tensor list \<Rightarrow>
     ('a tensor list \<Rightarrow> 'a tensor list \<Rightarrow> 'a list \<Rightarrow> 'a option list) \<Rightarrow> string \<Rightarrow> string \<Rightarrow>
     nat \<Rightarrow> 's \<Rightarrow> 's \<times> (error + ('a, 's) wrapped)" where
  "recompute_grad_impl fn args tf_gradients vs grad_scope rnd st =
     fn_with_custom_grad_impl (fn vs) args
       (Some (recompute_grad_fn fn tf_gradients grad_scope)) False rnd st"

text \<open>
  The gradients of the specification's reference: standard structural differentiation of
  the outputs of one direct call to \<open>fn\<close>, made under the scope \<open>sc\<close>, with respect to
  the inputs followed by the parameters that call created.
\<close>

definition direct_gradients ::
  "('a, 's) scoped_fn \<Rightarrow> ('a tensor list \<Rightarrow> 'a tensor list \<Rightarrow> 'a list \<Rightarrow> 'a option list) \<Rightarrow>
     string \<Rightarrow> 'a tensor list \<Rightarrow> 'a list \<Rightarrow> 's \<Rightarrow> 'a option list" where
  "direct_gradients fn tf_gradients sc args seeds st =
     (case snd (fn sc args st) of
        Inr res \<Rightarrow>
          (case fn_outputs res of
             Seq outs \<Rightarrow> tf_gradients outs (args @ trainable_variables res) seeds
           | Single t \<Rightarrow> tf_gradients [t] (args @ trainable_variables res) seeds
           | PyNone \<Rightarrow> [])
      | Inl e \<Rightarrow> [])"

subsection \<open>Predicates and sample sub-functions used in the statements\<close>

text \<open>The engine reports a gradient tensor, never \<open>None\<close>, for the input of the function.\<close>

definition differentiable :: "'a subfn \<Rightarrow> bool" where
  "differentiable fn = (\<forall>sc x s seed. d_input fn sc x s seed \<noteq> None)"

text \<open>\<open>x \<mapsto> 2 x\<close>, without parameters.\<close>

definition double_fn :: "int subfn" where
  "double_fn = \<lparr> call = (\<lambda>sc x s. 2 * x), d_input = (\<lambda>sc x s seed. Some (2 * seed)),
                 d_var = (\<lambda>sc x s v seed. None), d_side = (\<lambda>sc x s k seed. None),
                 makes_vars = (\<lambda>sc. []) \<rparr>"

text \<open>
  The constant zero function in two realisations: connected to its input (\<open>0 * x\<close>), for
  which the engine reports a zero gradient, and not connected to it (a constant), for which
  the engine reports \<open>None\<close>.
\<close>

definition zero_times_input :: "int subfn" where
  "zero_times_input = \<lparr> call = (\<lambda>sc x s. 0), d_input = (\<lambda>sc x s seed. Some 0),
                        d_var = (\<lambda>sc x s v seed. None), d_side = (\<lambda>sc x s k seed. None),
                        makes_vars = (\<lambda>sc. []) \<rparr>"

definition zero_constant :: "int subfn" where
  "zero_constant = \<lparr> call = (\<lambda>sc x s. 0), d_input = (\<lambda>sc x s seed. None),
                     d_var = (\<lambda>sc x s v seed. None), d_side = (\<lambda>sc x s k seed. None),
                     makes_vars = (\<lambda>sc. []) \<rparr>"

text \<open>Sample forward and gradient functions for the wrapper, without state.\<close>

definition no_output_fn :: "(int, unit) forward_fn" where
  "no_output_fn args st =
     (st, Inr \<lparr> fn_outputs = Seq [], global_variables = [], trainable_variables = [] \<rparr>)"

definition unknown_shape_fn :: "(int, unit) forward_fn" where
  "unknown_shape_fn args st =
     (st, Inr \<lparr> fn_outputs = Single (Tensor ''Placeholder'' ''p'' [] 0 None),
                global_variables = [], trainable_variables = [] \<rparr>)"

definition no_grads :: "(int, unit) grad_fn" where
  "no_grads inputs variables outputs output_grads st =
     (st, Inr (map (\<lambda>t. None) inputs, map (\<lambda>t. None) variables))"

definition sample_input :: "int tensor" where
  "sample_input = Tensor ''Placeholder'' ''x'' [] 3 None"

text \<open>The name of \<open>nm\<close> under the variable scope \<open>sc\<close>; the root scope has the empty name.\<close>

definition scoped_name :: "string \<Rightarrow> string \<Rightarrow> string" where
  "scoped_name sc nm = (if sc = [] then nm else sc @ ''/'' @ nm)"

text \<open>
  A sample pure forward function with one parameter: it creates the variable \<open>w\<close>, of
  value 4, under the scope it is called in, and multiplies each input by it. A sample
  pure forward function without parameters: it multiplies each input by the input itself.
\<close>

definition weighted_fn :: "(int, unit) scoped_fn" where
  "weighted_fn sc args st =
     (let w = Tensor ''VariableV2'' (scoped_name sc ''w'') [] 4 None
      in (st, Inr \<lparr> fn_outputs =
                       Seq (map (\<lambda>t. Tensor ''Mul'' (scoped_name sc (''mul/'' @ name t)) [t, w]
                                       (tval t * tval w) (static_shape t)) args),
                     global_variables = [w], trainable_variables = [w] \<rparr>))"

definition squaring_fn :: "(int, unit) scoped_fn" where
  "squaring_fn sc args st =
     (st, Inr \<lparr> fn_outputs =
                  Seq (map (\<lambda>t. Tensor ''Mul'' (scoped_name sc (''mul/'' @ name t)) [t, t]
                                  (tval t * tval t) (static_shape t)) args),
                global_variables = [], trainable_variables = [] \<rparr>)"

text \<open>
  A sample differentiation engine for outputs that are one multiplication each: the
  gradient with respect to a target is the sum, over the outputs that have the target as a
  factor, of the seed times the derivative of the product, and \<open>None\<close> when no output
  has it as a factor.
\<close>

definition mul_gradients ::
  "int tensor list \<Rightarrow> int tensor list \<Rightarrow> int list \<Rightarrow> int option list" where
  "mul_gradients ys xs seeds =
     map (\<lambda>x. acc_one
                 (map (\<lambda>(y, seed).
                         case op_inputs y of
                           [a, b] \<Rightarrow>
                             if x = a \<and> x = b then Some (seed * (tval a + tval b))
                             else if x = a then Some (seed * tval b)
                             else if x = b then Some (seed * tval a)
                             else None
                         | _ \<Rightarrow> None)
                      (zip ys seeds)))
         xs"

text \<open>
  Sample data for \<open>rev_block\<close>: a store with two list objects of two functions each, and
  the node the engine makes for an output value.
\<close>

definition sample_store :: "nat \<Rightarrow> int subfn list" where
  "sample_store = (\<lambda>r. [])(0 := [double_fn, zero_times_input],
                            1 := [zero_times_input, double_fn])"

definition sample_out_node :: "int \<Rightarrow> int tensor" where
  "sample_out_node v = Tensor ''Identity'' ''tuple/control_dependency'' [] v None"

text \<open>
  Sample data for \<open>custom_grad_fn\<close>: the closure and the state that \<open>rev_block\<close> leaves
  for two layers over the sample store, and a variable whose name has no layer part.
\<close>

definition sample_closure :: "int block_closure" where
  "sample_closure = \<lparr> cl_f = 0, cl_g = 1, cl_f_side_input = [], cl_g_side_input = [],
                       cl_num_layers = 2 \<rparr>"

definition sample_state :: "int block_state" where
  "sample_state = \<lparr> layer_scopes = [''revblock/revlayer_0'', ''revblock/revlayer_1''],
                     fn_lists = sample_store \<rparr>"

definition stray_var :: "int tensor" where
  "stray_var = Tensor ''VariableV2'' ''dense/kernel'' [] 0 None"


text \<open>
  Lines 762 to 767 for one parameter: the variable it refers to, the layer number and the
  role letter that its name gives; \<open>None\<close> where those lines raise.
\<close>

definition var_owner :: "'a tensor \<Rightarrow> ('a tensor \<times> nat \<times> char) option" where
  "var_owner t =
     (case variable_ref t of
        Inr (Some ref) \<Rightarrow>
          (case LAYER_RE_match (name ref) of
             Some (digits, fn_name) \<Rightarrow>
               if digits = [] then None else Some (ref, int_of_digits digits, fn_name)
           | None \<Rightarrow> None)
      | _ \<Rightarrow> None)"

text \<open>The parameters of role \<open>c\<close> in layer \<open>k\<close>, each with its position, in the order given.\<close>

definition members :: "char \<Rightarrow> nat \<Rightarrow> (nat \<times> 'a tensor) list \<Rightarrow> (nat \<times> 'a tensor) list" where
  "members c k ps =
     concat (map (\<lambda>(i, t). case var_owner t of
                               Some (ref, L, c') \<Rightarrow> if L = k \<and> c' = c then [(i, ref)] else []
                             | None \<Rightarrow> []) ps)"

text \<open>
  \<open>v\<close> is a gradient with respect to the variable \<open>ref\<close>, taken from the function of role
  \<open>c\<close> of layer \<open>L\<close> under that layer's scope: for \<open>f\<close> the accumulation of the two
  differentiations of lines 618 to 622, for \<open>g\<close> the one of line 616.
\<close>

definition param_grad_of ::
  "'a subfn list \<Rightarrow> 'a subfn list \<Rightarrow> string list \<Rightarrow> 'a list \<Rightarrow> 'a list \<Rightarrow> nat \<Rightarrow> char \<Rightarrow>
     'a tensor \<Rightarrow> ('a::ab_group_add) option \<Rightarrow> bool" where
  "param_grad_of fl gl scopes fsi gsi L c ref v =
     (if c = CHR ''f'' then
        (\<exists>x s1 s2. v = acc_one [d_var (fl ! L) (scopes ! L @ ''/f'') x (side_arg fsi) ref s1,
                                d_var (fl ! L) (scopes ! L @ ''/f'') x (side_arg fsi) ref s2])
      else (\<exists>y s. v = d_var (gl ! L) (scopes ! L @ ''/g'') y (side_arg gsi) ref s))"

text \<open>The contribution of layer \<open>L\<close> to the gradient of the \<open>k\<close>-th side input of a role.\<close>

definition f_side_contrib ::
  "'a subfn list \<Rightarrow> string list \<Rightarrow> 'a list \<Rightarrow> nat \<Rightarrow> nat \<Rightarrow> ('a::ab_group_add) option \<Rightarrow> bool" where
  "f_side_contrib fl scopes fsi k L v =
     (\<exists>x s1 s2. v = acc_one [d_side (fl ! L) (scopes ! L @ ''/f'') x (side_arg fsi) k s1,
                             d_side (fl ! L) (scopes ! L @ ''/f'') x (side_arg fsi) k s2])"

definition g_side_contrib ::
  "'a subfn list \<Rightarrow> string list \<Rightarrow> 'a list \<Rightarrow> nat \<Rightarrow> nat \<Rightarrow> 'a option \<Rightarrow> bool" where
  "g_side_contrib gl scopes gsi k L v =
     (\<exists>y s. v = d_side (gl ! L) (scopes ! L @ ''/g'') y (side_arg gsi) k s)"

text \<open>
  What one layer hands back (lines 616 to 624): gradients with respect to its own \<open>f\<close>
  variables and \<open>f\<close> side inputs, accumulated over the two differentiations of \<open>f\<close>, and
  gradients with respect to its \<open>g\<close> variables and \<open>g\<close> side inputs.
\<close>

definition f_var_grads_of ::
  "'a subfn \<Rightarrow> string \<Rightarrow> 'a list \<Rightarrow> 'a tensor list \<Rightarrow> ('a::ab_group_add) option list \<Rightarrow> bool" where
  "f_var_grads_of fn sc fsi vars grads =
     (\<exists>x s1 s2. grads = map (\<lambda>v. acc_one [d_var fn sc x (side_arg fsi) v s1,
                                          d_var fn sc x (side_arg fsi) v s2]) vars)"

definition f_side_grads_of ::
  "'a subfn \<Rightarrow> string \<Rightarrow> 'a list \<Rightarrow> ('a::ab_group_add) option list \<Rightarrow> bool" where
  "f_side_grads_of fn sc fsi grads =
     (\<exists>x s1 s2. grads = map (\<lambda>k. acc_one [d_side fn sc x (side_arg fsi) k s1,
                                          d_side fn sc x (side_arg fsi) k s2])
                            [0 ..< length fsi])"

definition g_var_grads_of ::
  "'a subfn \<Rightarrow> string \<Rightarrow> 'a list \<Rightarrow> 'a tensor list \<Rightarrow> 'a option list \<Rightarrow> bool" where
  "g_var_grads_of fn sc gsi vars grads =
     (\<exists>y s. grads = map (\<lambda>v. d_var fn sc y (side_arg gsi) v s) vars)"

definition g_side_grads_of :: "'a subfn \<Rightarrow> string \<Rightarrow> 'a list \<Rightarrow> 'a option list \<Rightarrow> bool" where
  "g_side_grads_of fn sc gsi grads =
     (\<exists>y s. grads = map (\<lambda>k. d_side fn sc y (side_arg gsi) k s) [0 ..< length gsi])"

text \<open>
  The call of \<open>custom_grad_fn\<close> that the engine makes for a block built by \<open>rev_block\<close>
  with at least one layer: the inputs are \<open>x1\<close>, \<open>x2\<close> and the side inputs of the closure,
  which are distinct tensors; every parameter resolves to a layer of the block; the layer
  scopes and the two function lists (distinct list objects) have \<open>num_layers\<close> entries; the
  engine reports input gradients for every function; there are two outputs and two output
  gradients.
\<close>

definition well_formed_call ::
  "'a block_closure \<Rightarrow> 'a block_state \<Rightarrow> 'a tensor list \<Rightarrow> 'a tensor list \<Rightarrow> 'a list \<Rightarrow>
     'a list \<Rightarrow> bool" where
  "well_formed_call cl st inputs variables ys grad_ys =
     (1 \<le> cl_num_layers cl
      \<and> 2 \<le> length inputs
      \<and> drop 2 inputs = cl_f_side_input cl @ cl_g_side_input cl
      \<and> distinct (cl_f_side_input cl @ cl_g_side_input cl)
      \<and> (\<forall>t\<in>set variables. case var_owner t of
                                 Some (ref, L, c) \<Rightarrow> L < nat (cl_num_layers cl)
                               | None \<Rightarrow> False)
      \<and> length (layer_scopes st) = nat (cl_num_layers cl)
      \<and> length (fn_lists st (cl_f cl)) = nat (cl_num_layers cl)
      \<and> length (fn_lists st (cl_g cl)) = nat (cl_num_layers cl)
      \<and> cl_f cl \<noteq> cl_g cl
      \<and> (\<forall>fn\<in>set (fn_lists st (cl_f cl)) \<union> set (fn_lists st (cl_g cl)). differentiable fn)
      \<and> length ys = 2 \<and> length grad_ys = 2)"

text \<open>
  The output gradient \<open>grad_y2\<close> that the backward pass of each layer receives, in the order
  in which the layers are processed (the seeds of the differentiations of \<open>g\<close>).
\<close>

fun layer_seeds ::
  "nat list \<Rightarrow> string list \<Rightarrow> 'a subfn list \<Rightarrow> 'a subfn list \<Rightarrow> 'a list \<Rightarrow> 'a list \<Rightarrow>
     ('a::ab_group_add) list \<Rightarrow> 'a list \<Rightarrow> 'a list" where
  "layer_seeds [] scopes fl gl fsi gsi ys grad_ys = []"
| "layer_seeds (i # rest) scopes fl gl fsi gsi ys grad_ys =
     (case rev_layer_backward (scopes ! i) ys grad_ys (fl ! i) (gl ! i) [] fsi [] gsi of
        Inl e \<Rightarrow> []
      | Inr r \<Rightarrow>
          grad_ys ! 1 #
          layer_seeds rest scopes fl gl fsi gsi [fst (xs_rec r), snd (xs_rec r)]
            [fst (grad_xs r), snd (grad_xs r)])"


definition side_b :: "int tensor" where
  "side_b = Tensor ''Placeholder'' ''side_b'' [] 20 None"

definition var_w0 :: "int tensor" where
  "var_w0 = Tensor ''VariableV2'' ''revblock/revlayer_0/f/w'' [] 1 None"

definition var_b1 :: "int tensor" where
  "var_b1 = Tensor ''VariableV2'' ''revblock/revlayer_1/g/b'' [] 2 None"

definition var_b1_read :: "int tensor" where
  "var_b1_read = Tensor ''Identity'' ''revblock/revlayer_1/g/b/read'' [var_b1] 2 None"



definition wf_variables :: "int tensor list" where
  "wf_variables = [var_w0, var_b1_read]"

text \<open>
  \<open>g(y1, s) = s\<close> in two realisations: connected to \<open>y1\<close> (\<open>s + 0 * y1\<close>), for which the
  engine reports a zero gradient with respect to \<open>y1\<close>, and not connected to it, for which
  the engine reports \<open>None\<close>. Three layers share the one \<open>g\<close> side input \<open>side_b\<close>.
\<close>

definition side_passthrough_connected :: "int subfn" where
  "side_passthrough_connected =
     \<lparr> call = (\<lambda>sc y s. case s of Some (v # vs) \<Rightarrow> v | _ \<Rightarrow> 0),
       d_input = (\<lambda>sc y s seed. Some 0),
       d_var = (\<lambda>sc y s v seed. None), d_side = (\<lambda>sc y s k seed. Some seed),
       makes_vars = (\<lambda>sc. []) \<rparr>"

definition side_passthrough :: "int subfn" where
  "side_passthrough =
     \<lparr> call = (\<lambda>sc y s. case s of Some (v # vs) \<Rightarrow> v | _ \<Rightarrow> 0),
       d_input = (\<lambda>sc y s seed. None),
       d_var = (\<lambda>sc y s v seed. None), d_side = (\<lambda>sc y s k seed. Some seed),
       makes_vars = (\<lambda>sc. []) \<rparr>"

definition three_layer_closure :: "int block_closure" where
  "three_layer_closure = \<lparr> cl_f = 0, cl_g = 1, cl_f_side_input = [],
                            cl_g_side_input = [side_b], cl_num_layers = 3 \<rparr>"

definition three_layer_state :: "int subfn \<Rightarrow> int block_state" where
  "three_layer_state g =
     \<lparr> layer_scopes = [''revblock/revlayer_0'', ''revblock/revlayer_1'', ''revblock/revlayer_2''],
       fn_lists = (\<lambda>r. [])(0 := [double_fn, double_fn, double_fn], 1 := [g, g, g]) \<rparr>"

definition three_layer_inputs :: "int tensor list" where
  "three_layer_inputs = [sample_input, sample_input, side_b]"

subsection \<open>What the gradient function of a block owes\<close>

text \<open>
  The backward algebra of one layer as the specification gives it (4.2, steps 1 to 4). A
  layer state is the pair of outputs \<open>(y1, y2)\<close> and the pair of output gradients
  \<open>(gy1, gy2)\<close> that enter the backward pass of a layer; the step gives the reconstructed
  inputs and the gradients with respect to them, and \<open>None\<close> when the engine reports no
  gradient of \<open>g\<close> or \<open>f\<close> with respect to its input.
\<close>

type_synonym 'a layer_state = "('a \<times> 'a) \<times> ('a \<times> 'a)"

definition layer_backward_step ::
  "string \<Rightarrow> 'a subfn \<Rightarrow> 'a subfn \<Rightarrow> 'a list \<Rightarrow> 'a list \<Rightarrow> ('a::ab_group_add) layer_state \<Rightarrow>
     'a layer_state option" where
  "layer_backward_step sc f g fsv gsv s =
     (let y1 = fst (fst s); y2 = snd (fst s); gy1 = fst (snd s); gy2 = snd (snd s);
          x2 = y2 - call g (sc @ ''/g'') y1 (side_arg gsv);
          x1 = y1 - call f (sc @ ''/f'') x2 (side_arg fsv)
      in case d_input g (sc @ ''/g'') y1 (side_arg gsv) gy2 of
           None \<Rightarrow> None
         | Some via_g \<Rightarrow>
             (case d_input f (sc @ ''/f'') x2 (side_arg fsv) gy1 of
                None \<Rightarrow> None
              | Some direct \<Rightarrow>
                  (case d_input f (sc @ ''/f'') x2 (side_arg fsv) via_g of
                     None \<Rightarrow> None
                   | Some indirect \<Rightarrow>
                       Some ((x1, x2), (gy1 + via_g, direct + gy2 + indirect)))))"

text \<open>
  The layer state that enters step \<open>k\<close> of a backward pass over the scopes \<open>S\<close> and the
  functions \<open>F\<close>, \<open>G\<close>, listed in the order in which the steps use them.
\<close>

primrec state_at ::
  "nat \<Rightarrow> string list \<Rightarrow> 'a subfn list \<Rightarrow> 'a subfn list \<Rightarrow> 'a list \<Rightarrow> 'a list \<Rightarrow>
     ('a::ab_group_add) layer_state \<Rightarrow> 'a layer_state option" where
  "state_at 0 S F G fsv gsv s = Some s"
| "state_at (Suc k) S F G fsv gsv s =
     (case state_at k S F G fsv gsv s of
        None \<Rightarrow> None
      | Some s' \<Rightarrow> layer_backward_step (S ! k) (F ! k) (G ! k) fsv gsv s')"

text \<open>
  The gradients one layer owes for a parameter and for a side input, at the layer state \<open>s\<close>
  that enters it (specification 4.2, steps 5 and 6): those of \<open>g\<close> are seeded with \<open>gy2\<close>
  at \<open>y1\<close>; those of \<open>f\<close> are taken at the reconstructed \<open>x2\<close>, once seeded with \<open>gy1\<close>
  and once with the gradient that came through \<open>g\<close>, and accumulated.
\<close>

definition g_grad_wrt_var ::
  "string \<Rightarrow> 'a subfn \<Rightarrow> 'a list \<Rightarrow> 'a layer_state \<Rightarrow> 'a tensor \<Rightarrow> 'a option" where
  "g_grad_wrt_var sc g gsv s ref =
     d_var g (sc @ ''/g'') (fst (fst s)) (side_arg gsv) ref (snd (snd s))"

definition g_grad_wrt_side ::
  "string \<Rightarrow> 'a subfn \<Rightarrow> 'a list \<Rightarrow> 'a layer_state \<Rightarrow> nat \<Rightarrow> 'a option" where
  "g_grad_wrt_side sc g gsv s j =
     d_side g (sc @ ''/g'') (fst (fst s)) (side_arg gsv) j (snd (snd s))"

definition f_grad_wrt_var ::
  "string \<Rightarrow> 'a subfn \<Rightarrow> 'a subfn \<Rightarrow> 'a list \<Rightarrow> 'a list \<Rightarrow> ('a::ab_group_add) layer_state \<Rightarrow>
     'a tensor \<Rightarrow> 'a option" where
  "f_grad_wrt_var sc f g fsv gsv s ref =
     (let y1 = fst (fst s); y2 = snd (fst s); gy1 = fst (snd s); gy2 = snd (snd s);
          x2 = y2 - call g (sc @ ''/g'') y1 (side_arg gsv)
      in case d_input g (sc @ ''/g'') y1 (side_arg gsv) gy2 of
           None \<Rightarrow> None
         | Some via_g \<Rightarrow>
             acc_one [d_var f (sc @ ''/f'') x2 (side_arg fsv) ref gy1,
                      d_var f (sc @ ''/f'') x2 (side_arg fsv) ref via_g])"

definition f_grad_wrt_side ::
  "string \<Rightarrow> 'a subfn \<Rightarrow> 'a subfn \<Rightarrow> 'a list \<Rightarrow> 'a list \<Rightarrow> ('a::ab_group_add) layer_state \<Rightarrow>
     nat \<Rightarrow> 'a option" where
  "f_grad_wrt_side sc f g fsv gsv s j =
     (let y1 = fst (fst s); y2 = snd (fst s); gy1 = fst (snd s); gy2 = snd (snd s);
          x2 = y2 - call g (sc @ ''/g'') y1 (side_arg gsv)
      in case d_input g (sc @ ''/g'') y1 (side_arg gsv) gy2 of
           None \<Rightarrow> None
         | Some via_g \<Rightarrow>
             acc_one [d_side f (sc @ ''/f'') x2 (side_arg fsv) j gy1,
                      d_side f (sc @ ''/f'') x2 (side_arg fsv) j via_g])"

text \<open>
  What the block owes, for a backward pass of \<open>n\<close> steps that starts in the layer state
  \<open>s0\<close>. A parameter whose name gives layer \<open>L\<close> is owed the gradient of step
  \<open>n - 1 - L\<close>, the step that undoes layer \<open>L\<close>, with respect to the variable it refers
  to; the \<open>j\<close>-th side input of a role is owed the accumulation of what the \<open>n\<close> steps
  give for it (specification 4.3, steps 4 and 5).
\<close>

definition owed_param_grad ::
  "nat \<Rightarrow> string list \<Rightarrow> 'a subfn list \<Rightarrow> 'a subfn list \<Rightarrow> 'a list \<Rightarrow> 'a list \<Rightarrow>
     ('a::ab_group_add) layer_state \<Rightarrow> 'a tensor \<Rightarrow> 'a option" where
  "owed_param_grad n S F G fsv gsv s0 t =
     (case var_owner t of
        None \<Rightarrow> None
      | Some (ref, L, c) \<Rightarrow>
          (let k = n - 1 - L
           in case state_at k S F G fsv gsv s0 of
                None \<Rightarrow> None
              | Some s \<Rightarrow>
                  if c = CHR ''f'' then f_grad_wrt_var (S ! k) (F ! k) (G ! k) fsv gsv s ref
                  else g_grad_wrt_var (S ! k) (G ! k) gsv s ref))"

definition owed_f_side_grad ::
  "nat \<Rightarrow> string list \<Rightarrow> 'a subfn list \<Rightarrow> 'a subfn list \<Rightarrow> 'a list \<Rightarrow> 'a list \<Rightarrow>
     ('a::ab_group_add) layer_state \<Rightarrow> nat \<Rightarrow> 'a option" where
  "owed_f_side_grad n S F G fsv gsv s0 j =
     acc_one (map (\<lambda>k. case state_at k S F G fsv gsv s0 of
                          None \<Rightarrow> None
                        | Some s \<Rightarrow> f_grad_wrt_side (S ! k) (F ! k) (G ! k) fsv gsv s j)
                  [0 ..< n])"

definition owed_g_side_grad ::
  "nat \<Rightarrow> string list \<Rightarrow> 'a subfn list \<Rightarrow> 'a subfn list \<Rightarrow> 'a list \<Rightarrow> 'a list \<Rightarrow>
     ('a::ab_group_add) layer_state \<Rightarrow> nat \<Rightarrow> 'a option" where
  "owed_g_side_grad n S F G fsv gsv s0 j =
     acc_one (map (\<lambda>k. case state_at k S F G fsv gsv s0 of
                          None \<Rightarrow> None
                        | Some s \<Rightarrow> g_grad_wrt_side (S ! k) (G ! k) gsv s j)
                  [0 ..< n])"

text \<open>The accumulators of the layer loop (lines 797 to 800) after \<open>k\<close> steps.\<close>

definition loop_acc_at ::
  "nat \<Rightarrow> string list \<Rightarrow> 'a subfn list \<Rightarrow> 'a subfn list \<Rightarrow> 'a tensor list list \<Rightarrow>
     'a tensor list list \<Rightarrow> 'a list \<Rightarrow> 'a list \<Rightarrow> ('a::ab_group_add) layer_state \<Rightarrow>
     'a layer_state \<Rightarrow> 'a loop_acc" where
  "loop_acc_at k S F G fv gv fsv gsv s0 sk =
     \<lparr> acc_ys = [fst (fst sk), snd (fst sk)],
       acc_grad_ys = [fst (snd sk), snd (snd sk)],
       f_var_grads =
         map (\<lambda>i. case state_at i S F G fsv gsv s0 of
                    None \<Rightarrow> []
                  | Some s \<Rightarrow> map (f_grad_wrt_var (S ! i) (F ! i) (G ! i) fsv gsv s) (fv ! i))
             [0 ..< k],
       g_var_grads =
         map (\<lambda>i. case state_at i S F G fsv gsv s0 of
                    None \<Rightarrow> []
                  | Some s \<Rightarrow> map (g_grad_wrt_var (S ! i) (G ! i) gsv s) (gv ! i))
             [0 ..< k],
       f_side_grads =
         map (\<lambda>i. case state_at i S F G fsv gsv s0 of
                    None \<Rightarrow> []
                  | Some s \<Rightarrow> map (f_grad_wrt_side (S ! i) (F ! i) (G ! i) fsv gsv s)
                               [0 ..< length fsv])
             [0 ..< k],
       g_side_grads =
         map (\<lambda>i. case state_at i S F G fsv gsv s0 of
                    None \<Rightarrow> []
                  | Some s \<Rightarrow> map (g_grad_wrt_side (S ! i) (G ! i) gsv s) [0 ..< length gsv])
             [0 ..< k] \<rparr>"

text \<open>
  The state of the closures after lines 782 to 786: the scopes reversed, the list object
  bound to \<open>f\<close> reversed and then the one bound to \<open>g\<close>.
\<close>

definition after_reversal :: "'a block_closure \<Rightarrow> 'a block_state \<Rightarrow> 'a block_state" where
  "after_reversal cl st =
     st\<lparr> layer_scopes := rev (layer_scopes st),
         fn_lists := reverse_at (cl_g cl) (reverse_at (cl_f cl) (fn_lists st)) \<rparr>"

text \<open>
  A call of \<open>custom_grad_fn\<close> whose inputs and parameters can be attributed: at least one
  layer; the inputs are \<open>x1\<close>, \<open>x2\<close> and the side inputs of the closure, which are distinct
  tensors; every parameter resolves to a layer of the block; the layer scopes and the two
  function lists have \<open>num_layers\<close> entries.
\<close>

definition attributable_call ::
  "'a block_closure \<Rightarrow> 'a block_state \<Rightarrow> 'a tensor list \<Rightarrow> 'a tensor list \<Rightarrow> bool" where
  "attributable_call cl st inputs variables =
     (1 \<le> cl_num_layers cl
      \<and> 2 \<le> length inputs
      \<and> drop 2 inputs = cl_f_side_input cl @ cl_g_side_input cl
      \<and> distinct (cl_f_side_input cl @ cl_g_side_input cl)
      \<and> (\<forall>t\<in>set variables. case var_owner t of
                                 Some (ref, L, c) \<Rightarrow> L < nat (cl_num_layers cl)
                               | None \<Rightarrow> False)
      \<and> length (layer_scopes st) = nat (cl_num_layers cl)
      \<and> length (fn_lists st (cl_f cl)) = nat (cl_num_layers cl)
      \<and> length (fn_lists st (cl_g cl)) = nat (cl_num_layers cl))"

text \<open>
  Sample sub-functions with parameters: \<open>f(x, [a]) = w x + a\<close> with the weight \<open>w = 2\<close>
  kept in the variable \<open>w\<close> of its scope, and \<open>g(y, [b]) = y + c\<close> with the bias
  \<open>c = 1\<close> kept in the variable \<open>b\<close> of its scope, which ignores its side input. The
  engine reports the gradients of calculus for them, and \<open>None\<close> for what a function does
  not depend on.
\<close>

definition scale_fn :: "int subfn" where
  "scale_fn =
     \<lparr> call = (\<lambda>sc x s. 2 * x + (case s of Some (a # as) \<Rightarrow> a | _ \<Rightarrow> 0)),
       d_input = (\<lambda>sc x s seed. Some (2 * seed)),
       d_var = (\<lambda>sc x s v seed. if name v = sc @ ''/w'' then Some (x * seed) else None),
       d_side = (\<lambda>sc x s k seed. if k = 0 then Some seed else None),
       makes_vars = (\<lambda>sc. [Tensor ''VariableV2'' (sc @ ''/w'') [] 2 None]) \<rparr>"

definition shift_fn :: "int subfn" where
  "shift_fn =
     \<lparr> call = (\<lambda>sc y s. y + 1),
       d_input = (\<lambda>sc y s seed. Some seed),
       d_var = (\<lambda>sc y s v seed. if name v = sc @ ''/b'' then Some seed else None),
       d_side = (\<lambda>sc y s k seed. None),
       makes_vars = (\<lambda>sc. [Tensor ''VariableV2'' (sc @ ''/b'') [] 1 None]) \<rparr>"




text \<open>
  A block of one layer without side inputs and without parameters, both of whose functions
  are \<open>fn\<close>: the closure and the state that the forward pass leaves.
\<close>

definition one_layer_closure :: "int block_closure" where
  "one_layer_closure = \<lparr> cl_f = 0, cl_g = 1, cl_f_side_input = [], cl_g_side_input = [],
                          cl_num_layers = 1 \<rparr>"

definition one_layer_state :: "int subfn \<Rightarrow> int block_state" where
  "one_layer_state fn = \<lparr> layer_scopes = [''revblock/revlayer_0''],
                           fn_lists = (\<lambda>r. [])(0 := [fn], 1 := [fn]) \<rparr>"

text \<open>
  What the gradient function installed by a call \<open>r\<close> of \<open>rev_block\<close> returns when the
  engine runs it on the inputs of the identity op with the output gradients \<open>dys\<close>;
  \<open>None\<close> when the call failed or installed no gradient function.
\<close>

definition installed_gradients ::
  "error + ('a::ab_group_add) block_result \<Rightarrow> 'a list \<Rightarrow> (error + 'a option list) option" where
  "installed_gradients r dys =
     (case r of
        Inr res \<Rightarrow>
          (case br_result res of
             ViaIdentity op \<Rightarrow> Some (snd (python_grad_func op (op_args op) dys (br_state res)))
           | Direct v \<Rightarrow> None)
      | Inl e \<Rightarrow> None)"

section \<open>Properties\<close>

subsection \<open>One layer\<close>

lemma show_nat_0: "show_nat 0 = ''0''"
  by code_simp


lemma show_nat_2: "show_nat 2 = ''2''"
  by code_simp

lemma differentiableD:
  "differentiable fn \<Longrightarrow> \<exists>d. d_input fn sc x s seed = Some d"
  unfolding differentiable_def by (meson option.exhaust)

subsection \<open>The custom-gradient wrapper\<close>

text \<open>
  C5. Without a gradient function the wrapper returns what the forward function returns
  (its value, or its exception, and the state it leaves), as a direct value: no identity
  op is created and no gradient function is registered.
\<close>

theorem no_grad_fn_returns_forward_outputs:
  "fn_with_custom_grad_impl fn inputs None use_global_vars rnd st =
     (fst (fn inputs st), map_sum id (\<lambda>res. Direct (fn_outputs res)) (snd (fn inputs st)))"
  by (simp add: fn_with_custom_grad_impl_def split: prod.splits sum.splits)

lemma identity_outputs_tval:
  "map tval (identity_outputs nm ins outs) = map tval outs"
proof -
  have "map tval (identity_outputs nm ins outs) =
          map (tval \<circ> snd) (zip [0 ..< length outs] outs)"
    unfolding identity_outputs_def enumerate_eq_zip by (simp add: case_prod_unfold comp_def)
  also have "\<dots> = map tval (map snd (zip [0 ..< length outs] outs))"
    by (simp only: map_map)
  also have "map snd (zip [0 ..< length outs] outs) = outs"
    by (rule map_snd_zip) simp
  finally show ?thesis .
qed

lemma identity_outputs_shape:
  "map static_shape (identity_outputs nm ins outs) = map static_shape outs"
proof -
  have "map static_shape (identity_outputs nm ins outs) =
          map (static_shape \<circ> snd) (zip [0 ..< length outs] outs)"
    unfolding identity_outputs_def enumerate_eq_zip by (simp add: case_prod_unfold comp_def)
  also have "\<dots> = map static_shape (map snd (zip [0 ..< length outs] outs))"
    by (simp only: map_map)
  also have "map snd (zip [0 ..< length outs] outs) = outs"
    by (rule map_snd_zip) simp
  finally show ?thesis .
qed

lemma identity_outputs_length:
  "length (identity_outputs nm ins outs) = length outs"
  by (simp add: identity_outputs_def)

text \<open>
  C9, as the code has it. With a gradient function, a forward function that returns a
  tuple or list of any length, the empty one included, and of any static shapes, unknown
  ones included, gives an identity op with as many outputs, of the same values and the
  same (possibly unknown) shapes: the wrapper checks neither the count nor the shapes.
\<close>

theorem wrapper_checks_no_count_no_shape:
  assumes "fn inputs st = (st', Inr res)" and "fn_outputs res = Seq outs"
  shows "\<exists>op. fn_with_custom_grad_impl fn inputs (Some gf) use_global_vars rnd st =
                 (st', Inr (ViaIdentity op))
             \<and> length (op_outputs op) = length outs
             \<and> map tval (op_outputs op) = map tval outs
             \<and> map static_shape (op_outputs op) = map static_shape outs"
  using assms
  by (simp add: fn_with_custom_grad_impl_def Let_def identity_outputs_tval
      identity_outputs_shape identity_outputs_length)

theorem wrapper_checks_no_count_no_shape_witness:
  "no_output_fn [] () = ((), Inr \<lparr> fn_outputs = Seq [], global_variables = [],
                                    trainable_variables = [] \<rparr>)
   \<and> (\<exists>op. fn_with_custom_grad_impl no_output_fn [] (Some no_grads) False 1 () =
                 ((), Inr (ViaIdentity op))
             \<and> length (op_outputs op) = length ([] :: int tensor list)
             \<and> map tval (op_outputs op) = map tval []
             \<and> map static_shape (op_outputs op) = map static_shape [])"
proof -
  have h: "no_output_fn [] () = ((), Inr \<lparr> fn_outputs = Seq [], global_variables = [],
                                           trainable_variables = [] \<rparr>)"
    by (simp add: no_output_fn_def)
  show ?thesis
    using h wrapper_checks_no_count_no_shape [where fn = no_output_fn and inputs = "[]"
        and st = "()" and st' = "()" and outs = "[]" and gf = no_grads
        and use_global_vars = False and rnd = 1
        and res = "\<lparr> fn_outputs = Seq [], global_variables = [], trainable_variables = [] \<rparr>"]
    by simp
qed

theorem wrapper_zero_outputs_counterexample:
  "(case snd (fn_with_custom_grad_impl no_output_fn [] (Some no_grads) False 1 ()) of
      Inr (ViaIdentity op) \<Rightarrow> op_outputs op = []
    | _ \<Rightarrow> False)
   \<and> (case snd (fn_with_custom_grad_impl unknown_shape_fn [] (Some no_grads) False 1 ()) of
      Inr (ViaIdentity op) \<Rightarrow> map static_shape (op_outputs op) = [None]
    | _ \<Rightarrow> False)"
  by (simp add: fn_with_custom_grad_impl_def no_output_fn_def unknown_shape_fn_def Let_def
      identity_outputs_def enumerate_eq_zip)

subsection \<open>\<open>recompute_grad\<close>\<close>

lemma slice_mid: "slice (length a) (length a + length b) (a @ b @ c) = b"
  by (simp add: slice_def)

text \<open>
  When the call of \<open>fn\<close> under the scope of the gradient function gives what the forward
  call gave, outputs and parameters alike, the gradient function that \<open>recompute_grad\<close>
  registers returns the gradients of one direct call, followed by \<open>None\<close> for each
  output. A function without parameters whose nodes do not depend on the scope is such a
  function.
\<close>

lemma recompute_grad_same_result:
  assumes fw: "\<And>s. fn vs args s = (s, Inr res)"
    and bw: "\<And>s. fn grad_scope args s = (s, Inr res)"
    and outs: "fn_outputs res = Seq outs"
    and len: "length dys = length outs"
  shows "\<exists>op. recompute_grad_impl fn args tf_gradients vs grad_scope rnd st =
                 (st, Inr (ViaIdentity op))
           \<and> python_grad_func op (op_args op) dys st =
               (st, Inr (direct_gradients fn tf_gradients vs args dys st
                         @ replicate (length outs) None))"
  by (simp add: recompute_grad_impl_def fn_with_custom_grad_impl_def fw bw outs len Let_def
        fn_custom_grad_fn_def slice_mid recompute_grad_fn_def direct_gradients_def)

lemma recompute_grad_squaring:
  "(case recompute_grad_impl squaring_fn [sample_input] mul_gradients ''fn_with_custom_grad''
           [] 7 () of
      (st', Inr (ViaIdentity op)) \<Rightarrow> snd (python_grad_func op (op_args op) [5] st')
    | _ \<Rightarrow> Inl ValueError) = Inr [Some 30, None]"
  "direct_gradients squaring_fn mul_gradients [] [sample_input] [5] () = [Some 30]"
  by (simp_all add: recompute_grad_impl_def fn_with_custom_grad_impl_def squaring_fn_def
      Let_def fn_custom_grad_fn_def slice_def recompute_grad_fn_def direct_gradients_def
      mul_gradients_def acc_one_def sample_input_def scoped_name_def)

text \<open>
  C6 does not hold of the code for a function that creates a parameter. The forward call
  runs inside the scope that line 53 opens, so its parameter is named after that scope;
  the call of line 872 runs outside it, creates another variable, and the outputs it
  returns do not depend on the parameter of the forward call. For the sample function,
  the input 3 and the output gradient 5, the gradient function that \<open>recompute_grad\<close>
  registers returns 20 for the input and \<open>None\<close> for the parameter (and \<open>None\<close> for the
  output); standard differentiation of one direct call gives 20 and 15.
\<close>

theorem recompute_grad_loses_parameter_gradient:
  "(case recompute_grad_impl weighted_fn [sample_input] mul_gradients ''fn_with_custom_grad''
           [] 7 () of
      (st', Inr (ViaIdentity op)) \<Rightarrow> snd (python_grad_func op (op_args op) [5] st')
    | _ \<Rightarrow> Inl ValueError) = Inr [Some 20, None, None]
   \<and> direct_gradients weighted_fn mul_gradients [] [sample_input] [5] () = [Some 20, Some 15]
   \<and> direct_gradients weighted_fn mul_gradients ''fn_with_custom_grad'' [sample_input] [5] () =
       [Some 20, Some 15]"
  by (simp add: recompute_grad_impl_def fn_with_custom_grad_impl_def weighted_fn_def
      Let_def fn_custom_grad_fn_def slice_def recompute_grad_fn_def direct_gradients_def
      mul_gradients_def acc_one_def sample_input_def scoped_name_def)

subsection \<open>\<open>rev_block\<close>: the arguments \<open>f\<close> and \<open>g\<close>\<close>

lemma forward_loop_total:
  "\<forall>i\<in>set idxs. i < length fl \<and> i < length gl \<Longrightarrow>
     \<exists>scs out'. forward_loop idxs bs fl gl fsi gsi gate_outputs (scopes, out) = Inr (scs, out')"
proof (induction idxs arbitrary: scopes out)
  case Nil
  then show ?case by simp
next
  case (Cons i rest)
  then show ?case by (simp add: nth_checked_def Let_def)
qed

lemma normalize_fn_length:
  "normalize_fn f n store free = Inr (fr, store1, free1) \<Longrightarrow> length (store1 fr) = nat n"
  by (cases f) (auto simp: normalize_fn_def split: if_splits)

lemma normalize_fn_keeps_length:
  "normalize_fn g n store1 free1 = Inr (gr, store2, free2) \<Longrightarrow> length (store1 fr) = nat n \<Longrightarrow>
     length (store2 fr) = nat n"
  by (cases g) (auto simp: normalize_fn_def split: if_splits)

lemma forward_total:
  assumes "length (fn_lists st (cl_f cl)) = nat (cl_num_layers cl)"
    and "length (fn_lists st (cl_g cl)) = nat (cl_num_layers cl)"
  shows "\<exists>st' res a b. forward cl tr bs on (x1 # x2 # rest) st = (st', Inr res)
            \<and> fn_lists st' = fn_lists st \<and> fn_outputs res = Seq [a, b]"
proof -
  have "\<exists>scs out'. forward_loop [0 ..< nat (cl_num_layers cl)] bs (fn_lists st (cl_f cl))
          (fn_lists st (cl_g cl)) (map tval (take (length (cl_f_side_input cl)) rest))
          (map tval (drop (length (cl_f_side_input cl)) rest)) tr
          (layer_scopes st, (tval x1, tval x2)) = Inr (scs, out')"
    by (rule forward_loop_total) (simp add: assms)
  then show ?thesis
    by (auto simp: forward_def rev_block_forward_def Let_def)
qed

text \<open>What a call of \<open>rev_block\<close> that passes the two length checks returns.\<close>

lemma rev_block_after_normalize:
  assumes nf: "normalize_fn f n store free = Inr (fr, store1, free1)"
    and ng: "normalize_fn g n store1 free1 = Inr (gr, store2, free2)"
  shows "\<exists>res. rev_block x1 x2 f g n fsi gsi tr bs on rnd store free = Inr res
            \<and> br_closure res = \<lparr> cl_f = fr, cl_g = gr,
                 cl_f_side_input = (case fsi of None \<Rightarrow> [] | Some l \<Rightarrow> l),
                 cl_g_side_input = (case gsi of None \<Rightarrow> [] | Some l \<Rightarrow> l),
                 cl_num_layers = n \<rparr>
            \<and> fn_lists (br_state res) = store2
            \<and> (tr \<longrightarrow> (\<exists>op vars outs. br_result res = ViaIdentity op
                  \<and> op_args op = [x1, x2] @ (case fsi of None \<Rightarrow> [] | Some l \<Rightarrow> l)
                       @ (case gsi of None \<Rightarrow> [] | Some l \<Rightarrow> l) @ vars @ outs
                  \<and> length outs = 2
                  \<and> python_grad_func op =
                      fn_custom_grad_fn
                        (length ([x1, x2] @ (case fsi of None \<Rightarrow> [] | Some l \<Rightarrow> l)
                                 @ (case gsi of None \<Rightarrow> [] | Some l \<Rightarrow> l)))
                        (length vars) 2
                        (\<lambda>inputs variables ys grad_ys.
                           custom_grad_fn (br_closure res) inputs variables (map tval ys) grad_ys)))"
proof -
  let ?F = "case fsi of None \<Rightarrow> [] | Some l \<Rightarrow> l"
  let ?G = "case gsi of None \<Rightarrow> [] | Some l \<Rightarrow> l"
  let ?cl = "\<lparr> cl_f = fr, cl_g = gr, cl_f_side_input = ?F, cl_g_side_input = ?G,
                 cl_num_layers = n \<rparr>"
  let ?st0 = "\<lparr> layer_scopes = [], fn_lists = store2 \<rparr>"
  have lf: "length (store2 fr) = nat n"
    using normalize_fn_keeps_length [OF ng normalize_fn_length [OF nf]] .
  have lg: "length (store2 gr) = nat n"
    using normalize_fn_length [OF ng] .
  have "\<exists>st' res a b. forward ?cl tr bs on (x1 # x2 # (?F @ ?G)) ?st0 = (st', Inr res)
          \<and> fn_lists st' = fn_lists ?st0 \<and> fn_outputs res = Seq [a, b]"
    by (rule forward_total) (simp_all add: lf lg)
  then obtain st' res a b
    where fw: "forward ?cl tr bs on (x1 # x2 # (?F @ ?G)) ?st0 = (st', Inr res)"
      and st': "fn_lists st' = store2" and o: "fn_outputs res = Seq [a, b]"
    by auto
  show ?thesis
    using fw st' o nf ng
    apply (clarsimp simp: rev_block_def Let_def fn_with_custom_grad_impl_def)
    apply (rule exI [where x = "trainable_variables res"])
    apply (rule exI [where x = "[a, b]"])
    apply (simp add: numeral_2_eq_2)
    done
qed

text \<open>
  C8, as the code has it. A list \<open>f\<close> whose length differs from \<open>num_layers\<close> makes
  \<open>rev_block\<close> fail at the assertion of line 730, and so does such a list \<open>g\<close> (line
  734), before anything is built: the exception is Python's AssertionError, which carries
  neither length. A list object exists at the call, so its address is below \<open>free\<close>.
  When each of \<open>f\<close> and \<open>g\<close> is a single function or a list of \<open>num_layers\<close>
  functions, the call returns; a single function has been replicated \<open>num_layers\<close> times
  into a new list object, and a list is kept as the object it is.
\<close>

theorem rev_block_list_length_validation:
  "(int (length (store r)) \<noteq> n \<longrightarrow>
      rev_block x1 x2 (FnList r) g n fsi gsi tr bs on rnd store free = Inl AssertionError)
   \<and> (int (length (store r)) \<noteq> n \<and> r < free \<longrightarrow>
      rev_block x1 x2 f (FnList r) n fsi gsi tr bs on rnd store free = Inl AssertionError)
   \<and> ((case f' of FnList a \<Rightarrow> int (length (store a)) = k \<and> a < free | OneFn ff \<Rightarrow> True)
       \<and> (case g' of FnList b \<Rightarrow> int (length (store b)) = k \<and> b < free | OneFn gg \<Rightarrow> True) \<longrightarrow>
      (\<exists>res. rev_block x1 x2 f' g' k fsi gsi tr bs on rnd store free = Inr res
          \<and> cl_num_layers (br_closure res) = k
          \<and> fn_lists (br_state res) (cl_f (br_closure res)) =
              (case f' of OneFn ff \<Rightarrow> replicate (nat k) ff | FnList a \<Rightarrow> store a)
          \<and> fn_lists (br_state res) (cl_g (br_closure res)) =
              (case g' of OneFn gg \<Rightarrow> replicate (nat k) gg | FnList b \<Rightarrow> store b)
          \<and> (case f' of OneFn ff \<Rightarrow> free \<le> cl_f (br_closure res)
                       | FnList a \<Rightarrow> cl_f (br_closure res) = a)
          \<and> (case g' of OneFn gg \<Rightarrow> free \<le> cl_g (br_closure res)
                       | FnList b \<Rightarrow> cl_g (br_closure res) = b)))"
proof (intro conjI impI)
  assume "int (length (store r)) \<noteq> n"
  then show "rev_block x1 x2 (FnList r) g n fsi gsi tr bs on rnd store free = Inl AssertionError"
    by (simp add: rev_block_def normalize_fn_def)
next
  assume a: "int (length (store r)) \<noteq> n \<and> r < free"
  show "rev_block x1 x2 f (FnList r) n fsi gsi tr bs on rnd store free = Inl AssertionError"
  proof (cases f)
    case (OneFn fn)
    with a show ?thesis by (simp add: rev_block_def normalize_fn_def)
  next
    case (FnList r')
    with a show ?thesis by (simp add: rev_block_def normalize_fn_def)
  qed
next
  assume v: "(case f' of FnList a \<Rightarrow> int (length (store a)) = k \<and> a < free | OneFn ff \<Rightarrow> True)
       \<and> (case g' of FnList b \<Rightarrow> int (length (store b)) = k \<and> b < free | OneFn gg \<Rightarrow> True)"
  let ?fr = "case f' of OneFn ff \<Rightarrow> free | FnList a \<Rightarrow> a"
  let ?store1 = "case f' of OneFn ff \<Rightarrow> store(free := replicate (nat k) ff) | FnList a \<Rightarrow> store"
  let ?free1 = "case f' of OneFn ff \<Rightarrow> Suc free | FnList a \<Rightarrow> free"
  let ?gr = "case g' of OneFn gg \<Rightarrow> ?free1 | FnList b \<Rightarrow> b"
  let ?store2 = "case g' of OneFn gg \<Rightarrow> ?store1(?free1 := replicate (nat k) gg)
                          | FnList b \<Rightarrow> ?store1"
  let ?free2 = "case g' of OneFn gg \<Rightarrow> Suc ?free1 | FnList b \<Rightarrow> ?free1"
  have nf: "normalize_fn f' k store free = Inr (?fr, ?store1, ?free1)"
    using v by (cases f') (simp_all add: normalize_fn_def)
  have ng: "normalize_fn g' k ?store1 ?free1 = Inr (?gr, ?store2, ?free2)"
    using v by (cases g'; cases f') (simp_all add: normalize_fn_def)
  from rev_block_after_normalize [OF nf ng, of x1 x2 fsi gsi tr bs on rnd]
  obtain res where res: "rev_block x1 x2 f' g' k fsi gsi tr bs on rnd store free = Inr res"
    and cl: "br_closure res = \<lparr> cl_f = ?fr, cl_g = ?gr,
                 cl_f_side_input = (case fsi of None \<Rightarrow> [] | Some l \<Rightarrow> l),
                 cl_g_side_input = (case gsi of None \<Rightarrow> [] | Some l \<Rightarrow> l),
                 cl_num_layers = k \<rparr>"
    and st: "fn_lists (br_state res) = ?store2"
    by blast
  have "cl_num_layers (br_closure res) = k
          \<and> fn_lists (br_state res) (cl_f (br_closure res)) =
              (case f' of OneFn ff \<Rightarrow> replicate (nat k) ff | FnList a \<Rightarrow> store a)
          \<and> fn_lists (br_state res) (cl_g (br_closure res)) =
              (case g' of OneFn gg \<Rightarrow> replicate (nat k) gg | FnList b \<Rightarrow> store b)
          \<and> (case f' of OneFn ff \<Rightarrow> free \<le> cl_f (br_closure res)
                       | FnList a \<Rightarrow> cl_f (br_closure res) = a)
          \<and> (case g' of OneFn gg \<Rightarrow> free \<le> cl_g (br_closure res)
                       | FnList b \<Rightarrow> cl_g (br_closure res) = b)"
    unfolding cl st using v by (cases f'; cases g') auto
  with res show "\<exists>res. rev_block x1 x2 f' g' k fsi gsi tr bs on rnd store free = Inr res
          \<and> cl_num_layers (br_closure res) = k
          \<and> fn_lists (br_state res) (cl_f (br_closure res)) =
              (case f' of OneFn ff \<Rightarrow> replicate (nat k) ff | FnList a \<Rightarrow> store a)
          \<and> fn_lists (br_state res) (cl_g (br_closure res)) =
              (case g' of OneFn gg \<Rightarrow> replicate (nat k) gg | FnList b \<Rightarrow> store b)
          \<and> (case f' of OneFn ff \<Rightarrow> free \<le> cl_f (br_closure res)
                       | FnList a \<Rightarrow> cl_f (br_closure res) = a)
          \<and> (case g' of OneFn gg \<Rightarrow> free \<le> cl_g (br_closure res)
                       | FnList b \<Rightarrow> cl_g (br_closure res) = b)"
    by blast
qed

theorem rev_block_list_length_validation_witness:
  "int (length (sample_store 0)) \<noteq> 3 \<and> (0::nat) < 2
   \<and> rev_block sample_input sample_input (FnList 0) (OneFn double_fn) 3 None None True
        ''revblock'' sample_out_node 7 sample_store 2 = Inl AssertionError
   \<and> rev_block sample_input sample_input (OneFn double_fn) (FnList 0) 3 None None True
        ''revblock'' sample_out_node 7 sample_store 2 = Inl AssertionError
   \<and> int (length (sample_store 1)) = 2 \<and> (1::nat) < 2
   \<and> (\<exists>res. rev_block sample_input sample_input (OneFn double_fn) (FnList 1) 2
                None None True ''revblock'' sample_out_node 7 sample_store 2 = Inr res
          \<and> cl_num_layers (br_closure res) = 2
          \<and> fn_lists (br_state res) (cl_f (br_closure res)) = replicate (nat 2) double_fn
          \<and> fn_lists (br_state res) (cl_g (br_closure res)) = sample_store 1
          \<and> 2 \<le> cl_f (br_closure res)
          \<and> cl_g (br_closure res) = 1)"
proof -
  have h: "int (length (sample_store 0)) \<noteq> 3" "(0::nat) < 2"
    "int (length (sample_store 1)) = 2" "(1::nat) < 2"
    by (simp_all add: sample_store_def)
  show ?thesis
    using h rev_block_list_length_validation [where store = sample_store and r = 0 and n = 3
        and free = 2 and ?x1.0 = sample_input and ?x2.0 = sample_input and g = "OneFn double_fn"
        and f = "OneFn double_fn" and f' = "OneFn double_fn" and g' = "FnList 1" and k = 2
        and fsi = None and gsi = None and tr = True and bs = "''revblock''"
        and on = sample_out_node and rnd = 7]
    by simp
qed

theorem assertion_not_configuration_error_counterexample:
  "rev_block sample_input sample_input (FnList 0) (OneFn double_fn) 3 None None True
     ''revblock'' sample_out_node 7 sample_store 2 = Inl AssertionError
   \<and> AssertionError \<noteq> ConfigurationError ''len(f) = 2, num_layers = 3''"
  by (simp add: rev_block_def normalize_fn_def sample_store_def)

subsection \<open>\<open>custom_grad_fn\<close>: attribution of parameters\<close>

lemma zip_star_empty: "zip_star [] = []"
  by (simp add: zip_star.simps)

lemma zip_star_has_nil: "[] \<in> set ls \<Longrightarrow> zip_star ls = []"
  by (subst zip_star.simps) simp

lemma zip_star_step:
  "ls \<noteq> [] \<Longrightarrow> [] \<notin> set ls \<Longrightarrow> zip_star ls = map hd ls # zip_star (map tl ls)"
  by (subst zip_star.simps) simp

lemma variable_ref_error: "variable_ref t = Inl e \<Longrightarrow> e = IndexError"
  by (induction t rule: variable_ref.induct) (auto split: if_splits list.splits)

lemma side_idxs_loop_error:
  "side_idxs_loop fsi gsi xs fi gi = Inl e \<Longrightarrow> e = AssertionError"
  by (induction fsi gsi xs fi gi rule: side_idxs_loop.induct) (auto split: if_splits)

lemma vars_loop_unmatched:
  assumes "(i, t) \<in> set xs" "variable_ref t = Inr (Some ref)" "LAYER_RE_match (name ref) = None"
  shows "\<exists>e. vars_loop xs grp = Inl e
           \<and> e \<in> {AssertionError, AttributeError, ValueError, IndexError}"
  using assms
proof (induction xs arbitrary: grp)
  case Nil
  then show ?case by simp
next
  case (Cons p xs)
  obtain j u where p: "p = (j, u)" by (cases p)
  show ?case
  proof (cases "p = (i, t)")
    case True
    with Cons.prems p show ?thesis by simp
  next
    case False
    with Cons.prems have "(i, t) \<in> set xs" by simp
    from Cons.IH [OF this Cons.prems(2,3)]
    have ih: "\<And>grp. \<exists>e. vars_loop xs grp = Inl e
                \<and> e \<in> {AssertionError, AttributeError, ValueError, IndexError}" .
    show ?thesis
      unfolding p
      using ih
      by (auto simp: Let_def split: sum.splits option.splits prod.splits
          dest: variable_ref_error)
  qed
qed


text \<open>
  C7, as the code has it. When a parameter that reaches \<open>custom_grad_fn\<close> resolves to a
  variable whose name \<open>LAYER_RE\<close> does not match, the function returns no gradients: it
  raises one of Python's AssertionError, AttributeError, ValueError or IndexError (the
  unmatched name itself gives AttributeError, from \<open>regex.group\<close> on \<open>None\<close>), before any
  container is reversed and before any layer is differentiated. The exception is not a
  ConfigurationError and does not carry the name.
\<close>

theorem unmatched_parameter_name_raises:
  assumes "t \<in> set variables" "variable_ref t = Inr (Some ref)"
    "LAYER_RE_match (name ref) = None"
  shows "\<exists>e. custom_grad_fn cl inputs variables ys grad_ys st = (st, Inl e)
           \<and> e \<in> {AssertionError, AttributeError, ValueError, IndexError}"
proof -
  from assms(1) obtain i where "i < length variables" "variables ! i = t"
    by (auto simp: in_set_conv_nth)
  then have "(i, t) \<in> set (enumerate 0 variables)"
    by (simp add: in_set_enumerate_eq)
  from vars_loop_unmatched [OF this assms(2,3)]
  have v: "\<And>grp. \<exists>e. vars_loop (enumerate 0 variables) grp = Inl e
              \<and> e \<in> {AssertionError, AttributeError, ValueError, IndexError}" .
  show ?thesis
  proof (cases "length (drop 2 inputs) \<noteq>
                  length (cl_f_side_input cl) + length (cl_g_side_input cl)")
    case True
    then show ?thesis by (simp add: custom_grad_fn_def Let_def)
  next
    case False
    show ?thesis
    proof (cases "side_idxs_loop (cl_f_side_input cl) (cl_g_side_input cl)
                    (enumerate 0 (drop 2 inputs))
                    (replicate (length (cl_f_side_input cl)) None)
                    (replicate (length (cl_g_side_input cl)) None)")
      case (Inl e)
      with False side_idxs_loop_error [OF Inl] show ?thesis
        by (simp add: custom_grad_fn_def Let_def)
    next
      case (Inr p)
      obtain e where "vars_loop (enumerate 0 variables)
                   \<lparr> f_vars = replicate (nat (cl_num_layers cl)) [],
                     g_vars = replicate (nat (cl_num_layers cl)) [],
                     f_vars_idxs = replicate (nat (cl_num_layers cl)) [],
                     g_vars_idxs = replicate (nat (cl_num_layers cl)) [] \<rparr> = Inl e"
          "e \<in> {AssertionError, AttributeError, ValueError, IndexError}"
        using v by blast
      with False Inr show ?thesis
        by (cases p) (simp add: custom_grad_fn_def Let_def)
    qed
  qed
qed

lemma stray_ref: "variable_ref stray_var = Inr (Some stray_var)"
  by (simp add: stray_var_def)

lemma stray_unmatched: "LAYER_RE_match (name stray_var) = None"
  by (simp add: stray_var_def layer_re_here_def)

theorem unmatched_parameter_name_raises_witness:
  "stray_var \<in> set [stray_var] \<and> variable_ref stray_var = Inr (Some stray_var)
   \<and> LAYER_RE_match (name stray_var) = None
   \<and> (\<exists>e. custom_grad_fn sample_closure [sample_input, sample_input] [stray_var] [1, 2] [3, 4]
              sample_state = (sample_state, Inl e)
           \<and> e \<in> {AssertionError, AttributeError, ValueError, IndexError})"
proof -
  have m: "stray_var \<in> set [stray_var]" by simp
  show ?thesis
    using m stray_ref stray_unmatched
      unmatched_parameter_name_raises [OF m stray_ref stray_unmatched, of sample_closure
        "[sample_input, sample_input]" "[1, 2]" "[3, 4]" sample_state]
    by simp
qed

theorem unmatched_parameter_name_counterexample:
  "custom_grad_fn sample_closure [sample_input, sample_input] [stray_var] [1, 2] [3, 4]
     sample_state = (sample_state, Inl AttributeError)
   \<and> AttributeError \<noteq> ConfigurationError (name stray_var)"
  by (simp add: custom_grad_fn_def sample_closure_def enumerate_eq_zip stray_ref stray_unmatched)

subsection \<open>\<open>custom_grad_fn\<close>: the lists \<open>f\<close> and \<open>g\<close> of the caller\<close>












subsection \<open>\<open>custom_grad_fn\<close>: what a well-formed call returns\<close>

lemma scatter_length: "scatter ps out = Inr out' \<Longrightarrow> length out' = length out"
  by (induction ps out rule: scatter.induct) (auto split: if_splits)

lemma scatter_total:
  "\<forall>p\<in>set ps. \<exists>k. fst p = Some k \<and> k < length out \<Longrightarrow> \<exists>out'. scatter ps out = Inr out'"
proof (induction ps arbitrary: out)
  case Nil
  then show ?case by simp
next
  case (Cons p ps)
  obtain i v where p: "p = (i, v)" by (cases p)
  from Cons.prems p obtain k where k: "i = Some k" "k < length out" by auto
  have "\<forall>p\<in>set ps. \<exists>k'. fst p = Some k' \<and> k' < length (out[k := v])"
    using Cons.prems by simp
  from Cons.IH [OF this] show ?case using p k by simp
qed

lemma scatter_nth:
  "scatter ps out = Inr out' \<Longrightarrow> distinct (map fst ps) \<Longrightarrow> k < length out \<Longrightarrow>
     out' ! k = (case map_of ps (Some k) of Some v \<Rightarrow> v | None \<Rightarrow> out ! k)"
proof (induction ps out arbitrary: out' rule: scatter.induct)
  case (1 out)
  then show ?case by simp
next
  case (2 v rest out)
  then show ?case by simp
next
  case (3 i v rest out)
  from "3.prems" have il: "i < length out" and sc: "scatter rest (out[i := v]) = Inr out'"
    by (auto split: if_splits)
  from "3.prems" have d: "distinct (map fst rest)" and ni: "Some i \<notin> fst ` set rest" by auto
  have "out' ! k = (case map_of rest (Some k) of Some v \<Rightarrow> v | None \<Rightarrow> out[i := v] ! k)"
    using "3.IH" [OF il sc d] "3.prems"(3) by simp
  moreover have "i = k \<Longrightarrow> map_of rest (Some k) = None"
    using ni by (simp add: map_of_eq_None_iff)
  ultimately show ?case using il "3.prems"(3) by (auto split: option.splits)
qed

lemma index_of_nth: "distinct xs \<Longrightarrow> j < length xs \<Longrightarrow> index_of xs (xs ! j) = j"
proof (induction xs arbitrary: j)
  case Nil
  then show ?case by simp
next
  case (Cons x xs)
  then show ?case by (cases j) auto
qed

lemma side_idxs_loop_suffix:
  assumes d: "distinct (fsi @ gsi)" and al: "al = fsi @ gsi"
  shows "p \<le> length fsi + length gsi \<Longrightarrow> length fi = length fsi \<Longrightarrow> length gi = length gsi \<Longrightarrow>
     \<exists>fi' gi'. side_idxs_loop fsi gsi (enumerate p (drop p al)) fi gi = Inr (fi', gi')
        \<and> length fi' = length fsi \<and> length gi' = length gsi
        \<and> (\<forall>j<length fsi. fi' ! j = (if p \<le> j then Some j else fi ! j))
        \<and> (\<forall>j<length gsi. gi' ! j = (if p \<le> length fsi + j then Some (length fsi + j) else gi ! j))"
proof (induction "length fsi + length gsi - p" arbitrary: p fi gi)
  case 0
  then have "drop p al = []" by (simp add: al)
  with 0 show ?case by auto
next
  case (Suc m)
  then have pl: "p < length al" by (simp add: al)
  have dr: "drop p al = al ! p # drop (Suc p) al"
    by (rule Cons_nth_drop_Suc [OF pl, symmetric])
  have sp: "Suc p \<le> length fsi + length gsi" using pl al by simp
  let ?t = "al ! p"
  show ?case
  proof (cases "p < length fsi")
    case True
    then have t: "?t = fsi ! p" by (simp add: nth_append al)
    then have tin: "?t \<in> set fsi" using True by simp
    have idx: "index_of fsi ?t = p" using d True t by (simp add: index_of_nth)
    have m: "m = length fsi + length gsi - Suc p" using Suc.hyps(2) by simp
    from Suc.hyps(1) [OF m sp, of "fi[p := Some p]" gi] Suc.prems
    obtain fi' gi' where r:
      "side_idxs_loop fsi gsi (enumerate (Suc p) (drop (Suc p) al)) (fi[p := Some p]) gi = Inr (fi', gi')"
      "length fi' = length fsi" "length gi' = length gsi"
      "\<forall>j<length fsi. fi' ! j = (if Suc p \<le> j then Some j else fi[p := Some p] ! j)"
      "\<forall>j<length gsi. gi' ! j = (if Suc p \<le> length fsi + j then Some (length fsi + j) else gi ! j)"
      by auto
    have "side_idxs_loop fsi gsi (enumerate p (drop p al)) fi gi = Inr (fi', gi')"
      using r(1) tin idx by (simp add: dr)
    moreover have "\<forall>j<length fsi. fi' ! j = (if p \<le> j then Some j else fi ! j)"
      using r(4) Suc.prems True by (auto simp: nth_list_update)
    moreover have "\<forall>j<length gsi. gi' ! j = (if p \<le> length fsi + j then Some (length fsi + j) else gi ! j)"
      using r(5) True by auto
    ultimately show ?thesis using r(2,3) by blast
  next
    case False
    then have t: "?t = gsi ! (p - length fsi)" by (simp add: nth_append al)
    have pg: "p - length fsi < length gsi" using pl False by (simp add: al)
    then have tin: "?t \<in> set gsi" using t by simp
    have tnot: "?t \<notin> set fsi" using d tin by auto
    have dg: "distinct gsi" using d by simp
    have idx: "index_of gsi ?t = p - length fsi" using dg pg t by (simp add: index_of_nth)
    have m: "m = length fsi + length gsi - Suc p" using Suc.hyps(2) by simp
    from Suc.hyps(1) [OF m sp, of fi "gi[p - length fsi := Some p]"] Suc.prems
    obtain fi' gi' where r:
      "side_idxs_loop fsi gsi (enumerate (Suc p) (drop (Suc p) al)) fi (gi[p - length fsi := Some p]) = Inr (fi', gi')"
      "length fi' = length fsi" "length gi' = length gsi"
      "\<forall>j<length fsi. fi' ! j = (if Suc p \<le> j then Some j else fi ! j)"
      "\<forall>j<length gsi. gi' ! j = (if Suc p \<le> length fsi + j then Some (length fsi + j) else gi[p - length fsi := Some p] ! j)"
      by auto
    have "side_idxs_loop fsi gsi (enumerate p (drop p al)) fi gi = Inr (fi', gi')"
      using r(1) tin tnot idx by (simp add: dr)
    moreover have "\<forall>j<length fsi. fi' ! j = (if p \<le> j then Some j else fi ! j)"
      using r(4) False by auto
    moreover have "\<forall>j<length gsi. gi' ! j = (if p \<le> length fsi + j then Some (length fsi + j) else gi ! j)"
      using r(5) Suc.prems False by (auto simp: nth_list_update)
    ultimately show ?thesis using r(2,3) by blast
  qed
qed

lemma side_idxs_loop_result:
  assumes d: "distinct (fsi @ gsi)"
  shows "side_idxs_loop fsi gsi (enumerate 0 (fsi @ gsi)) (replicate (length fsi) None)
           (replicate (length gsi) None) =
         Inr (map Some [0 ..< length fsi], map Some [length fsi ..< length fsi + length gsi])"
proof -
  from side_idxs_loop_suffix [OF d refl, of 0 "replicate (length fsi) None" "replicate (length gsi) None"]
  obtain fi' gi' where r:
    "side_idxs_loop fsi gsi (enumerate 0 (fsi @ gsi)) (replicate (length fsi) None)
           (replicate (length gsi) None) = Inr (fi', gi')"
    "length fi' = length fsi" "length gi' = length gsi"
    "\<forall>j<length fsi. fi' ! j = Some j"
    "\<forall>j<length gsi. gi' ! j = Some (length fsi + j)"
    by auto
  have "fi' = map Some [0 ..< length fsi]"
    using r(2,4) by (intro nth_equalityI) auto
  moreover have "gi' = map Some [length fsi ..< length fsi + length gsi]"
    using r(3,5) by (intro nth_equalityI) auto
  ultimately show ?thesis using r(1) by simp
qed

lemma layer_re_here_role:
  "layer_re_here s = Some (d, c) \<Longrightarrow> c = CHR ''f'' \<or> c = CHR ''g''"
  by (auto simp: layer_re_here_def Let_def split: if_splits list.splits)

lemma LAYER_RE_match_role:
  "LAYER_RE_match s = Some (d, c) \<Longrightarrow> c = CHR ''f'' \<or> c = CHR ''g''"
  by (induction s) (auto split: if_splits option.splits dest: layer_re_here_role)

lemma var_owner_role: "var_owner t = Some (ref, L, c) \<Longrightarrow> c = CHR ''f'' \<or> c = CHR ''g''"
  by (auto simp: var_owner_def split: sum.splits option.splits if_splits
      dest: LAYER_RE_match_role)

lemma members_Cons:
  "members c k ((i, t) # ps) =
     (case var_owner t of
        Some (ref, L, c') \<Rightarrow> if L = k \<and> c' = c then [(i, ref)] else []
      | None \<Rightarrow> []) @ members c k ps"
  by (simp add: members_def)

lemma members_Nil: "members c k [] = []"
  by (simp add: members_def)

lemma vars_loop_step_f:
  assumes "var_owner t = Some (ref, L, CHR ''f'')" "L < length (f_vars grp)"
  shows "vars_loop ((i, t) # rest) grp =
           vars_loop rest (grp\<lparr>f_vars := append_at (f_vars grp) L ref,
                                 f_vars_idxs := append_at (f_vars_idxs grp) L i\<rparr>)"
  using assms
  by (auto simp: var_owner_def Let_def split: sum.splits option.splits if_splits)

lemma vars_loop_step_g:
  assumes "var_owner t = Some (ref, L, CHR ''g'')" "L < length (g_vars grp)"
  shows "vars_loop ((i, t) # rest) grp =
           vars_loop rest (grp\<lparr>g_vars := append_at (g_vars grp) L ref,
                                 g_vars_idxs := append_at (g_vars_idxs grp) L i\<rparr>)"
  using assms
  by (auto simp: var_owner_def Let_def split: sum.splits option.splits if_splits)

lemma vars_loop_groups:
  assumes "\<forall>p\<in>set ps. \<exists>ref L c. var_owner (snd p) = Some (ref, L, c) \<and> L < n"
    and "length (f_vars grp0) = n" "length (g_vars grp0) = n"
    and "length (f_vars_idxs grp0) = n" "length (g_vars_idxs grp0) = n"
  shows "\<exists>grp. vars_loop ps grp0 = Inr grp
      \<and> length (f_vars grp) = n \<and> length (g_vars grp) = n
      \<and> length (f_vars_idxs grp) = n \<and> length (g_vars_idxs grp) = n
      \<and> (\<forall>k<n. f_vars grp ! k = f_vars grp0 ! k @ map snd (members CHR ''f'' k ps)
              \<and> f_vars_idxs grp ! k = f_vars_idxs grp0 ! k @ map fst (members CHR ''f'' k ps)
              \<and> g_vars grp ! k = g_vars grp0 ! k @ map snd (members CHR ''g'' k ps)
              \<and> g_vars_idxs grp ! k = g_vars_idxs grp0 ! k @ map fst (members CHR ''g'' k ps))"
  using assms
proof (induction ps arbitrary: grp0)
  case Nil
  then show ?case by (simp add: members_Nil)
next
  case (Cons p ps)
  obtain i t where p: "p = (i, t)" by (cases p)
  from Cons.prems(1) p obtain ref L c where o: "var_owner t = Some (ref, L, c)" and L: "L < n"
    by auto
  have rest: "\<forall>p\<in>set ps. \<exists>ref L c. var_owner (snd p) = Some (ref, L, c) \<and> L < n"
    using Cons.prems(1) by simp
  from var_owner_role [OF o] show ?case
  proof
    assume c: "c = CHR ''f''"
    let ?g1 = "grp0\<lparr>f_vars := append_at (f_vars grp0) L ref,
                     f_vars_idxs := append_at (f_vars_idxs grp0) L i\<rparr>"
    have step: "vars_loop (p # ps) grp0 = vars_loop ps ?g1"
      unfolding p using o c L Cons.prems(2) by (intro vars_loop_step_f) auto
    from Cons.IH [OF rest, of ?g1] Cons.prems(2-5)
    obtain grp where g: "vars_loop ps ?g1 = Inr grp"
      "length (f_vars grp) = n" "length (g_vars grp) = n"
      "length (f_vars_idxs grp) = n" "length (g_vars_idxs grp) = n"
      "\<forall>k<n. f_vars grp ! k = f_vars ?g1 ! k @ map snd (members CHR ''f'' k ps)
              \<and> f_vars_idxs grp ! k = f_vars_idxs ?g1 ! k @ map fst (members CHR ''f'' k ps)
              \<and> g_vars grp ! k = g_vars ?g1 ! k @ map snd (members CHR ''g'' k ps)
              \<and> g_vars_idxs grp ! k = g_vars_idxs ?g1 ! k @ map fst (members CHR ''g'' k ps)"
      by (auto simp: append_at_def)
    have "\<forall>k<n. f_vars grp ! k = f_vars grp0 ! k @ map snd (members CHR ''f'' k (p # ps))
              \<and> f_vars_idxs grp ! k = f_vars_idxs grp0 ! k @ map fst (members CHR ''f'' k (p # ps))
              \<and> g_vars grp ! k = g_vars grp0 ! k @ map snd (members CHR ''g'' k (p # ps))
              \<and> g_vars_idxs grp ! k = g_vars_idxs grp0 ! k @ map fst (members CHR ''g'' k (p # ps))"
      using g(6) o c L Cons.prems(2-5)
      by (auto simp: p members_Cons append_at_def nth_list_update)
    with g(1-5) step show ?thesis by auto
  next
    assume c: "c = CHR ''g''"
    let ?g1 = "grp0\<lparr>g_vars := append_at (g_vars grp0) L ref,
                     g_vars_idxs := append_at (g_vars_idxs grp0) L i\<rparr>"
    have step: "vars_loop (p # ps) grp0 = vars_loop ps ?g1"
      unfolding p using o c L Cons.prems(3) by (intro vars_loop_step_g) auto
    from Cons.IH [OF rest, of ?g1] Cons.prems(2-5)
    obtain grp where g: "vars_loop ps ?g1 = Inr grp"
      "length (f_vars grp) = n" "length (g_vars grp) = n"
      "length (f_vars_idxs grp) = n" "length (g_vars_idxs grp) = n"
      "\<forall>k<n. f_vars grp ! k = f_vars ?g1 ! k @ map snd (members CHR ''f'' k ps)
              \<and> f_vars_idxs grp ! k = f_vars_idxs ?g1 ! k @ map fst (members CHR ''f'' k ps)
              \<and> g_vars grp ! k = g_vars ?g1 ! k @ map snd (members CHR ''g'' k ps)
              \<and> g_vars_idxs grp ! k = g_vars_idxs ?g1 ! k @ map fst (members CHR ''g'' k ps)"
      by (auto simp: append_at_def)
    have "\<forall>k<n. f_vars grp ! k = f_vars grp0 ! k @ map snd (members CHR ''f'' k (p # ps))
              \<and> f_vars_idxs grp ! k = f_vars_idxs grp0 ! k @ map fst (members CHR ''f'' k (p # ps))
              \<and> g_vars grp ! k = g_vars grp0 ! k @ map snd (members CHR ''g'' k (p # ps))
              \<and> g_vars_idxs grp ! k = g_vars_idxs grp0 ! k @ map fst (members CHR ''g'' k (p # ps))"
      using g(6) o c L Cons.prems(2-5)
      by (auto simp: p members_Cons append_at_def nth_list_update)
    with g(1-5) step show ?thesis by auto
  qed
qed

lemma zip_star_nth:
  "rows \<noteq> [] \<Longrightarrow> \<forall>r\<in>set rows. length r = m \<Longrightarrow>
     length (zip_star rows) = m \<and> (\<forall>j<m. zip_star rows ! j = map (\<lambda>r. r ! j) rows)"
proof (induction m arbitrary: rows)
  case 0
  then have "[] \<in> set rows" by (cases rows) auto
  then show ?case by (simp add: zip_star_has_nil)
next
  case (Suc m)
  then have nn: "[] \<notin> set rows" by auto
  have st: "zip_star rows = map hd rows # zip_star (map tl rows)"
    using Suc.prems(1) nn by (rule zip_star_step)
  have "map tl rows \<noteq> []" "\<forall>r\<in>set (map tl rows). length r = m"
    using Suc.prems by auto
  from Suc.IH [OF this]
  have ih: "length (zip_star (map tl rows)) = m"
    "\<forall>j<m. zip_star (map tl rows) ! j = map (\<lambda>r. r ! j) (map tl rows)" by auto
  have hd0: "map hd rows = map (\<lambda>r. r ! 0) rows"
    using nn by (intro map_cong refl) (metis hd_conv_nth)
  have tlj: "\<And>j. j < m \<Longrightarrow> map (\<lambda>r. r ! j) (map tl rows) = map (\<lambda>r. r ! Suc j) rows"
    using Suc.prems(2) by (auto simp: nth_tl)
  show ?case
  proof (intro conjI allI impI)
    show "length (zip_star rows) = Suc m" using st ih(1) by simp
  next
    fix j assume "j < Suc m"
    then show "zip_star rows ! j = map (\<lambda>r. r ! j) rows"
      using st ih(2) hd0 tlj by (cases j) auto
  qed
qed

lemma acc_grads_nth:
  assumes "rows \<noteq> []" "\<forall>r\<in>set rows. length r = m"
  shows "length (acc_grads rows) = m"
    and "j < m \<Longrightarrow> acc_grads rows ! j = acc_one (map (\<lambda>r. r ! j) rows)"
  using zip_star_nth [OF assms] by (auto simp: acc_grads_def)

lemma acc_grads_pair:
  "acc_grads [map A xs, map B xs] = map (\<lambda>x. acc_one [A x, B x]) xs"
proof (rule nth_equalityI)
  show "length (acc_grads [map A xs, map B xs]) = length (map (\<lambda>x. acc_one [A x, B x]) xs)"
    using acc_grads_nth(1) [of "[map A xs, map B xs]" "length xs"] by simp
next
  fix j assume "j < length (acc_grads [map A xs, map B xs])"
  then have j: "j < length xs"
    using acc_grads_nth(1) [of "[map A xs, map B xs]" "length xs"] by simp
  then show "acc_grads [map A xs, map B xs] ! j = map (\<lambda>x. acc_one [A x, B x]) xs ! j"
    using acc_grads_nth(2) [of "[map A xs, map B xs]" "length xs" j] by simp
qed

lemma outs_prefix:
  assumes "length P = 4"
  shows "na = length A \<Longrightarrow> slice 4 (4 + na) (P @ A @ B @ C @ D) = A"
    and "na = length A \<Longrightarrow> nb = length B \<Longrightarrow>
           slice (4 + na) (4 + na + nb) (P @ A @ B @ C @ D) = B"
    and "na = length A \<Longrightarrow> nb = length B \<Longrightarrow> nc = length C \<Longrightarrow>
           slice (4 + na + nb) (4 + na + nb + nc) (P @ A @ B @ C @ D) = C"
    and "na = length A \<Longrightarrow> nb = length B \<Longrightarrow> nc = length C \<Longrightarrow>
           drop (4 + na + nb + nc) (P @ A @ B @ C @ D) = D"
  using assms by (simp_all add: slice_def)

lemmas outs_slices = outs_prefix [of "[a, b, c, d]", simplified] for a b c d

lemma rev_layer_backward_result:
  assumes f: "differentiable f" and g: "differentiable g"
  shows "\<exists>r x s2. rev_layer_backward sc [y1, y2] [gy1, gy2] f g fvars fsi gvars gsi = Inr r
      \<and> fst (f_ret r) = map (\<lambda>v. acc_one [d_var f (sc @ ''/f'') x (side_arg fsi) v gy1,
                                            d_var f (sc @ ''/f'') x (side_arg fsi) v s2]) fvars
      \<and> snd (f_ret r) = map (\<lambda>k. acc_one [d_side f (sc @ ''/f'') x (side_arg fsi) k gy1,
                                            d_side f (sc @ ''/f'') x (side_arg fsi) k s2])
                              [0 ..< length fsi]
      \<and> fst (g_ret r) = map (\<lambda>v. d_var g (sc @ ''/g'') y1 (side_arg gsi) v gy2) gvars
      \<and> snd (g_ret r) = map (\<lambda>k. d_side g (sc @ ''/g'') y1 (side_arg gsi) k gy2)
                              [0 ..< length gsi]"
proof -
  let ?x2 = "y2 - call g (sc @ ''/g'') y1 (side_arg gsi)"
  obtain gg where gg: "d_input g (sc @ ''/g'') y1 (side_arg gsi) gy2 = Some gg"
    using differentiableD [OF g] by blast
  obtain d1 where d1: "d_input f (sc @ ''/f'') ?x2 (side_arg fsi) gy1 = Some d1"
    using differentiableD [OF f] by blast
  obtain d2 where d2: "d_input f (sc @ ''/f'') ?x2 (side_arg fsi) gg = Some d2"
    using differentiableD [OF f] by blast
  let ?r = "\<lparr> xs_rec = (y1 - call f (sc @ ''/f'') ?x2 (side_arg fsi), ?x2),
              grad_xs = (gy1 + gg, d1 + gy2 + d2),
              f_ret = (map (\<lambda>v. acc_one [d_var f (sc @ ''/f'') ?x2 (side_arg fsi) v gy1,
                                            d_var f (sc @ ''/f'') ?x2 (side_arg fsi) v gg]) fvars,
                       map (\<lambda>k. acc_one [d_side f (sc @ ''/f'') ?x2 (side_arg fsi) k gy1,
                                            d_side f (sc @ ''/f'') ?x2 (side_arg fsi) k gg])
                           [0 ..< length fsi]),
              g_ret = (map (\<lambda>v. d_var g (sc @ ''/g'') y1 (side_arg gsi) v gy2) gvars,
                       map (\<lambda>k. d_side g (sc @ ''/g'') y1 (side_arg gsi) k gy2)
                           [0 ..< length gsi]) \<rparr>"
  have eq: "rev_layer_backward sc [y1, y2] [gy1, gy2] f g fvars fsi gvars gsi = Inr ?r"
    by (simp add: rev_layer_backward_def Let_def gg d1 d2 gradients_wrt_def acc_grads_pair
        outs_slices)
  show ?thesis
    by (rule exI [where x = ?r], rule exI [where x = ?x2], rule exI [where x = gg])
       (simp add: eq)
qed

lemma length_2E: "length xs = 2 \<Longrightarrow> \<exists>a b. xs = [a, b]"
  by (cases xs; cases "tl xs") auto

lemma layers_loop_result:
  assumes "\<forall>i\<in>set idxs. i < length scopes \<and> i < length fl \<and> i < length gl \<and> i < length fv
              \<and> i < length gv \<and> differentiable (fl ! i) \<and> differentiable (gl ! i)"
    and "length (acc_ys acc) = 2" and "length (acc_grad_ys acc) = 2"
  shows "\<exists>acc' FG GG FS GS.
      layers_loop idxs scopes fl gl fv gv fsi gsi acc = Inr acc'
      \<and> length (acc_ys acc') = 2 \<and> length (acc_grad_ys acc') = 2
      \<and> f_var_grads acc' = f_var_grads acc @ FG \<and> g_var_grads acc' = g_var_grads acc @ GG
      \<and> f_side_grads acc' = f_side_grads acc @ FS \<and> g_side_grads acc' = g_side_grads acc @ GS
      \<and> list_all2 (\<lambda>i gr. f_var_grads_of (fl ! i) (scopes ! i @ ''/f'') fsi (fv ! i) gr) idxs FG
      \<and> list_all2 (\<lambda>i gr. g_var_grads_of (gl ! i) (scopes ! i @ ''/g'') gsi (gv ! i) gr) idxs GG
      \<and> list_all2 (\<lambda>i gr. f_side_grads_of (fl ! i) (scopes ! i @ ''/f'') fsi gr) idxs FS
      \<and> list_all2 (\<lambda>i gr. g_side_grads_of (gl ! i) (scopes ! i @ ''/g'') gsi gr) idxs GS"
  using assms
proof (induction idxs arbitrary: acc)
  case Nil
  then show ?case by simp
next
  case (Cons i rest)
  from Cons.prems(2) obtain y1 y2 where ys: "acc_ys acc = [y1, y2]"
    using length_2E by blast
  from Cons.prems(3) obtain gy1 gy2 where gys: "acc_grad_ys acc = [gy1, gy2]"
    using length_2E by blast
  from Cons.prems(1) have i: "i < length scopes" "i < length fl" "i < length gl"
    "i < length fv" "i < length gv" "differentiable (fl ! i)" "differentiable (gl ! i)"
    by auto
  from rev_layer_backward_result [OF i(6,7), of "scopes ! i" y1 y2 gy1 gy2 "fv ! i" fsi "gv ! i" gsi]
  obtain r x s2 where r:
    "rev_layer_backward (scopes ! i) [y1, y2] [gy1, gy2] (fl ! i) (gl ! i) (fv ! i) fsi (gv ! i) gsi = Inr r"
    "fst (f_ret r) = map (\<lambda>v. acc_one [d_var (fl ! i) (scopes ! i @ ''/f'') x (side_arg fsi) v gy1,
                                        d_var (fl ! i) (scopes ! i @ ''/f'') x (side_arg fsi) v s2]) (fv ! i)"
    "snd (f_ret r) = map (\<lambda>k. acc_one [d_side (fl ! i) (scopes ! i @ ''/f'') x (side_arg fsi) k gy1,
                                        d_side (fl ! i) (scopes ! i @ ''/f'') x (side_arg fsi) k s2])
                              [0 ..< length fsi]"
    "fst (g_ret r) = map (\<lambda>v. d_var (gl ! i) (scopes ! i @ ''/g'') y1 (side_arg gsi) v gy2) (gv ! i)"
    "snd (g_ret r) = map (\<lambda>k. d_side (gl ! i) (scopes ! i @ ''/g'') y1 (side_arg gsi) k gy2)
                              [0 ..< length gsi]"
    by blast
  let ?acc1 = "\<lparr> acc_ys = [fst (xs_rec r), snd (xs_rec r)],
              acc_grad_ys = [fst (grad_xs r), snd (grad_xs r)],
              f_var_grads = f_var_grads acc @ [fst (f_ret r)],
              g_var_grads = g_var_grads acc @ [fst (g_ret r)],
              f_side_grads = f_side_grads acc @ [snd (f_ret r)],
              g_side_grads = g_side_grads acc @ [snd (g_ret r)] \<rparr>"
  have step: "layers_loop (i # rest) scopes fl gl fv gv fsi gsi acc =
                layers_loop rest scopes fl gl fv gv fsi gsi ?acc1"
    using i(1-5) r(1) by (simp add: nth_checked_def ys gys)
  have rest: "\<forall>i\<in>set rest. i < length scopes \<and> i < length fl \<and> i < length gl \<and> i < length fv
              \<and> i < length gv \<and> differentiable (fl ! i) \<and> differentiable (gl ! i)"
    using Cons.prems(1) by simp
  from Cons.IH [OF rest, of ?acc1]
  obtain acc' FG GG FS GS where ih:
    "layers_loop rest scopes fl gl fv gv fsi gsi ?acc1 = Inr acc'"
    "length (acc_ys acc') = 2" "length (acc_grad_ys acc') = 2"
    "f_var_grads acc' = f_var_grads ?acc1 @ FG" "g_var_grads acc' = g_var_grads ?acc1 @ GG"
    "f_side_grads acc' = f_side_grads ?acc1 @ FS" "g_side_grads acc' = g_side_grads ?acc1 @ GS"
    "list_all2 (\<lambda>i gr. f_var_grads_of (fl ! i) (scopes ! i @ ''/f'') fsi (fv ! i) gr) rest FG"
    "list_all2 (\<lambda>i gr. g_var_grads_of (gl ! i) (scopes ! i @ ''/g'') gsi (gv ! i) gr) rest GG"
    "list_all2 (\<lambda>i gr. f_side_grads_of (fl ! i) (scopes ! i @ ''/f'') fsi gr) rest FS"
    "list_all2 (\<lambda>i gr. g_side_grads_of (gl ! i) (scopes ! i @ ''/g'') gsi gr) rest GS"
    by auto
  have a: "f_var_grads_of (fl ! i) (scopes ! i @ ''/f'') fsi (fv ! i) (fst (f_ret r))"
    unfolding f_var_grads_of_def using r(2) by blast
  have b: "g_var_grads_of (gl ! i) (scopes ! i @ ''/g'') gsi (gv ! i) (fst (g_ret r))"
    unfolding g_var_grads_of_def using r(4) by blast
  have c: "f_side_grads_of (fl ! i) (scopes ! i @ ''/f'') fsi (snd (f_ret r))"
    unfolding f_side_grads_of_def using r(3) by blast
  have d: "g_side_grads_of (gl ! i) (scopes ! i @ ''/g'') gsi (snd (g_ret r))"
    unfolding g_side_grads_of_def using r(5) by blast
  show ?case
    apply (rule exI [where x = acc'])
    apply (rule exI [where x = "fst (f_ret r) # FG"])
    apply (rule exI [where x = "fst (g_ret r) # GG"])
    apply (rule exI [where x = "snd (f_ret r) # FS"])
    apply (rule exI [where x = "snd (g_ret r) # GS"])
    using step ih a b c d apply simp
    done
qed

lemma scatter_untouched:
  "scatter ps out = Inr out' \<Longrightarrow> Some k \<notin> fst ` set ps \<Longrightarrow> out' ! k = out ! k"
proof (induction ps out arbitrary: out' rule: scatter.induct)
  case (1 out)
  then show ?case by simp
next
  case (2 v rest out)
  then show ?case by simp
next
  case (3 i v rest out)
  from "3.prems" have il: "i < length out" and sc: "scatter rest (out[i := v]) = Inr out'"
    by (auto split: if_splits)
  from "3.prems"(2) have "Some k \<notin> fst ` set rest" "k \<noteq> i" by auto
  with "3.IH" [OF il sc] show ?case by simp
qed

lemma scatter_written:
  "scatter ps out = Inr out' \<Longrightarrow> Some k \<in> fst ` set ps \<Longrightarrow>
     \<exists>v. (Some k, v) \<in> set ps \<and> out' ! k = v"
proof (induction ps out arbitrary: out' rule: scatter.induct)
  case (1 out)
  then show ?case by simp
next
  case (2 v rest out)
  then show ?case by simp
next
  case (3 i v rest out)
  from "3.prems" have il: "i < length out" and sc: "scatter rest (out[i := v]) = Inr out'"
    by (auto split: if_splits)
  show ?case
  proof (cases "Some k \<in> fst ` set rest")
    case True
    from "3.IH" [OF il sc True] show ?thesis by auto
  next
    case False
    with "3.prems"(2) have ki: "k = i" by auto
    from scatter_untouched [OF sc False] have "out' ! k = out[i := v] ! k" .
    with ki il show ?thesis by simp
  qed
qed

lemma scatter_block:
  "length mid = length vs \<Longrightarrow>
     scatter (zip (map Some [length pre ..< length pre + length vs]) vs) (pre @ mid @ post) =
       Inr (pre @ vs @ post)"
proof (induction vs arbitrary: pre mid)
  case Nil
  then show ?case by simp
next
  case (Cons v vs)
  then obtain x mid' where mid: "mid = x # mid'" "length mid' = length vs"
    by (cases mid) auto
  have up: "[length pre ..< length pre + length (v # vs)] =
              length pre # [length (pre @ [v]) ..< length (pre @ [v]) + length vs]"
    by (subst upt_rec) simp
  have "scatter (zip (map Some [length (pre @ [v]) ..< length (pre @ [v]) + length vs]) vs)
          ((pre @ [v]) @ mid' @ post) = Inr ((pre @ [v]) @ vs @ post)"
    by (rule Cons.IH [OF mid(2)])
  then show ?case
    unfolding up mid by (simp add: list_update_append)
qed

lemma members_elem:
  "(i, ref) \<in> set (members c k (enumerate 0 vs)) \<longleftrightarrow>
     i < length vs \<and> var_owner (vs ! i) = Some (ref, k, c)"
proof
  assume "(i, ref) \<in> set (members c k (enumerate 0 vs))"
  then show "i < length vs \<and> var_owner (vs ! i) = Some (ref, k, c)"
    by (auto simp: members_def in_set_enumerate_eq split: option.splits if_splits)
next
  assume a: "i < length vs \<and> var_owner (vs ! i) = Some (ref, k, c)"
  then have "(i, vs ! i) \<in> set (enumerate 0 vs)"
    by (simp add: in_set_enumerate_eq)
  with a show "(i, ref) \<in> set (members c k (enumerate 0 vs))"
    unfolding members_def by (auto intro!: bexI [where x = "(i, vs ! i)"])
qed

lemma var_grad_pairs_elem:
  assumes "(io, v) \<in> set (var_grad_pairs fi fg gi gg)"
  shows "(\<exists>L j. L < length fi \<and> L < length fg \<and> j < length (fi ! L) \<and> j < length (fg ! L)
            \<and> io = Some (fi ! L ! j) \<and> v = fg ! L ! j)
       \<or> (\<exists>L j. L < length gi \<and> L < length gg \<and> j < length (gi ! L) \<and> j < length (gg ! L)
            \<and> io = Some (gi ! L ! j) \<and> v = gg ! L ! j)"
proof -
  from assms obtain idxs grads where m: "(idxs, grads) \<in> set (zip fi fg) \<union> set (zip gi gg)"
      and e: "(io, v) \<in> set (zip (map Some idxs) grads)"
    by (auto simp: var_grad_pairs_def)
  from e obtain j where j: "j < length idxs" "j < length grads" "io = Some (idxs ! j)" "v = grads ! j"
    by (auto simp: in_set_zip)
  from m show ?thesis
  proof
    assume "(idxs, grads) \<in> set (zip fi fg)"
    then obtain L where "L < length fi" "L < length fg" "fi ! L = idxs" "fg ! L = grads"
      by (auto simp: in_set_zip)
    with j show ?thesis by blast
  next
    assume "(idxs, grads) \<in> set (zip gi gg)"
    then obtain L where "L < length gi" "L < length gg" "gi ! L = idxs" "gg ! L = grads"
      by (auto simp: in_set_zip)
    with j show ?thesis by blast
  qed
qed

lemma var_grad_pairs_f_mem:
  assumes "L < length fi" "L < length fg" "j < length (fi ! L)" "j < length (fg ! L)"
  shows "(Some (fi ! L ! j), fg ! L ! j) \<in> set (var_grad_pairs fi fg gi gg)"
proof -
  have "(fi ! L, fg ! L) \<in> set (zip fi fg)"
    using assms(1,2) unfolding in_set_zip by (intro exI [where x = L]) simp
  moreover have "(Some (fi ! L ! j), fg ! L ! j) \<in> set (zip (map Some (fi ! L)) (fg ! L))"
    using assms(3,4) unfolding in_set_zip by (intro exI [where x = j]) simp
  ultimately show ?thesis by (force simp: var_grad_pairs_def)
qed

lemma var_grad_pairs_g_mem:
  assumes "L < length gi" "L < length gg" "j < length (gi ! L)" "j < length (gg ! L)"
  shows "(Some (gi ! L ! j), gg ! L ! j) \<in> set (var_grad_pairs fi fg gi gg)"
proof -
  have "(gi ! L, gg ! L) \<in> set (zip gi gg)"
    using assms(1,2) unfolding in_set_zip by (intro exI [where x = L]) simp
  moreover have "(Some (gi ! L ! j), gg ! L ! j) \<in> set (zip (map Some (gi ! L)) (gg ! L))"
    using assms(3,4) unfolding in_set_zip by (intro exI [where x = j]) simp
  ultimately show ?thesis by (force simp: var_grad_pairs_def)
qed

lemma members_nth:
  assumes "j < length (members c k (enumerate 0 vs))"
  shows "fst (members c k (enumerate 0 vs) ! j) < length vs
       \<and> var_owner (vs ! fst (members c k (enumerate 0 vs) ! j)) =
            Some (snd (members c k (enumerate 0 vs) ! j), k, c)"
proof -
  have "members c k (enumerate 0 vs) ! j \<in> set (members c k (enumerate 0 vs))"
    using assms by simp
  then have "(fst (members c k (enumerate 0 vs) ! j), snd (members c k (enumerate 0 vs) ! j))
               \<in> set (members c k (enumerate 0 vs))" by simp
  then show ?thesis unfolding members_elem .
qed

lemma routed_param_grad:
  fixes gv :: "('a::ab_group_add) option list"
  assumes len: "length fi = n" "length gi = n" "length FGr = n" "length GGr = n"
    and fi: "\<forall>k<n. fi ! k = map fst (members CHR ''f'' k (enumerate 0 vs))"
    and gi: "\<forall>k<n. gi ! k = map fst (members CHR ''g'' k (enumerate 0 vs))"
    and FG: "\<forall>k<n. f_var_grads_of (Fl ! k) (Sc ! k @ ''/f'') fsv
                      (map snd (members CHR ''f'' k (enumerate 0 vs))) (FGr ! k)"
    and GG: "\<forall>k<n. g_var_grads_of (Gl ! k) (Sc ! k @ ''/g'') gsv
                      (map snd (members CHR ''g'' k (enumerate 0 vs))) (GGr ! k)"
    and sc: "scatter (var_grad_pairs fi FGr gi GGr) (replicate (length vs) None) = Inr gv"
    and i: "i < length vs" and o: "var_owner (vs ! i) = Some (ref, L, c)" and L: "L < n"
  shows "param_grad_of Fl Gl Sc fsv gsv L c ref (gv ! i)"
proof -
  let ?ps = "enumerate 0 vs"
  let ?pairs = "var_grad_pairs fi FGr gi GGr"
  have lenF: "\<And>k. k < n \<Longrightarrow> length (FGr ! k) = length (members CHR ''f'' k ?ps)"
    using FG by (auto simp: f_var_grads_of_def)
  have lenG: "\<And>k. k < n \<Longrightarrow> length (GGr ! k) = length (members CHR ''g'' k ?ps)"
    using GG by (auto simp: g_var_grads_of_def)
  have mem: "(i, ref) \<in> set (members c L ?ps)"
    using i o by (simp add: members_elem)
  then obtain j where j: "j < length (members c L ?ps)" "members c L ?ps ! j = (i, ref)"
    by (auto simp: in_set_conv_nth)
  have cfg: "c = CHR ''f'' \<or> c = CHR ''g''" using var_owner_role [OF o] .
  have inpairs: "Some i \<in> fst ` set ?pairs"
  proof -
    from cfg show ?thesis
    proof
      assume c: "c = CHR ''f''"
      have "(Some (fi ! L ! j), FGr ! L ! j) \<in> set ?pairs"
        using len L j(1) fi lenF [OF L] c by (intro var_grad_pairs_f_mem) auto
      moreover have "fi ! L ! j = i" using fi L j c by simp
      ultimately show ?thesis by force
    next
      assume c: "c = CHR ''g''"
      have "(Some (gi ! L ! j), GGr ! L ! j) \<in> set ?pairs"
        using len L j(1) gi lenG [OF L] c by (intro var_grad_pairs_g_mem) auto
      moreover have "gi ! L ! j = i" using gi L j c by simp
      ultimately show ?thesis by force
    qed
  qed
  from scatter_written [OF sc inpairs]
  obtain v where v: "(Some i, v) \<in> set ?pairs" "gv ! i = v" by blast
  from var_grad_pairs_elem [OF v(1)] show ?thesis
  proof
    assume "\<exists>L' j'. L' < length fi \<and> L' < length FGr \<and> j' < length (fi ! L') \<and> j' < length (FGr ! L')
              \<and> Some i = Some (fi ! L' ! j') \<and> v = FGr ! L' ! j'"
    then obtain L' j' where e: "L' < n" "j' < length (fi ! L')" "i = fi ! L' ! j'" "v = FGr ! L' ! j'"
      using len by auto
    have j': "j' < length (members CHR ''f'' L' ?ps)" using e(1,2) fi by simp
    have ie: "i = fst (members CHR ''f'' L' ?ps ! j')" using e(1,3) fi j' by simp
    from members_nth [OF j'] ie
    have "var_owner (vs ! i) = Some (snd (members CHR ''f'' L' ?ps ! j'), L', CHR ''f'')" by simp
    with o have eq: "ref = snd (members CHR ''f'' L' ?ps ! j')" "L' = L" "c = CHR ''f''" by auto
    from FG e(1) have "f_var_grads_of (Fl ! L') (Sc ! L' @ ''/f'') fsv
                      (map snd (members CHR ''f'' L' ?ps)) (FGr ! L')" by blast
    then obtain x s1 s2 where
      "FGr ! L' = map (\<lambda>v. acc_one [d_var (Fl ! L') (Sc ! L' @ ''/f'') x (side_arg fsv) v s1,
                                     d_var (Fl ! L') (Sc ! L' @ ''/f'') x (side_arg fsv) v s2])
                      (map snd (members CHR ''f'' L' ?ps))"
      unfolding f_var_grads_of_def by blast
    then have "v = acc_one [d_var (Fl ! L) (Sc ! L @ ''/f'') x (side_arg fsv) ref s1,
                            d_var (Fl ! L) (Sc ! L @ ''/f'') x (side_arg fsv) ref s2]"
      using e(4) j' eq by simp
    then show ?thesis unfolding param_grad_of_def using eq(3) v(2) by auto
  next
    assume "\<exists>L' j'. L' < length gi \<and> L' < length GGr \<and> j' < length (gi ! L') \<and> j' < length (GGr ! L')
              \<and> Some i = Some (gi ! L' ! j') \<and> v = GGr ! L' ! j'"
    then obtain L' j' where e: "L' < n" "j' < length (gi ! L')" "i = gi ! L' ! j'" "v = GGr ! L' ! j'"
      using len by auto
    have j': "j' < length (members CHR ''g'' L' ?ps)" using e(1,2) gi by simp
    have ie: "i = fst (members CHR ''g'' L' ?ps ! j')" using e(1,3) gi j' by simp
    from members_nth [OF j'] ie
    have "var_owner (vs ! i) = Some (snd (members CHR ''g'' L' ?ps ! j'), L', CHR ''g'')" by simp
    with o have eq: "ref = snd (members CHR ''g'' L' ?ps ! j')" "L' = L" "c = CHR ''g''" by auto
    from GG e(1) have "g_var_grads_of (Gl ! L') (Sc ! L' @ ''/g'') gsv
                      (map snd (members CHR ''g'' L' ?ps)) (GGr ! L')" by blast
    then obtain y s where
      "GGr ! L' = map (\<lambda>v. d_var (Gl ! L') (Sc ! L' @ ''/g'') y (side_arg gsv) v s)
                      (map snd (members CHR ''g'' L' ?ps))"
      unfolding g_var_grads_of_def by blast
    then have "v = d_var (Gl ! L) (Sc ! L @ ''/g'') y (side_arg gsv) ref s"
      using e(4) j' eq by simp
    then show ?thesis unfolding param_grad_of_def using eq(3) v(2) by auto
  qed
qed

lemma var_grad_pairs_in_range:
  assumes len: "length fi = n" "length gi = n"
    and fi: "\<forall>k<n. fi ! k = map fst (members CHR ''f'' k (enumerate 0 vs))"
    and gi: "\<forall>k<n. gi ! k = map fst (members CHR ''g'' k (enumerate 0 vs))"
  shows "\<forall>p\<in>set (var_grad_pairs fi FGr gi GGr). \<exists>k. fst p = Some k \<and> k < length vs"
proof
  fix p assume p: "p \<in> set (var_grad_pairs fi FGr gi GGr)"
  obtain io v where pe: "p = (io, v)" by (cases p)
  from var_grad_pairs_elem [OF p [unfolded pe]]
  show "\<exists>k. fst p = Some k \<and> k < length vs"
  proof
    assume "\<exists>L j. L < length fi \<and> L < length FGr \<and> j < length (fi ! L) \<and> j < length (FGr ! L)
              \<and> io = Some (fi ! L ! j) \<and> v = FGr ! L ! j"
    then obtain L j where e: "L < n" "j < length (fi ! L)" "io = Some (fi ! L ! j)"
      using len by auto
    have j': "j < length (members CHR ''f'' L (enumerate 0 vs))" using e(1,2) fi by simp
    from members_nth [OF j'] e fi j' show ?thesis by (simp add: pe)
  next
    assume "\<exists>L j. L < length gi \<and> L < length GGr \<and> j < length (gi ! L) \<and> j < length (GGr ! L)
              \<and> io = Some (gi ! L ! j) \<and> v = GGr ! L ! j"
    then obtain L j where e: "L < n" "j < length (gi ! L)" "io = Some (gi ! L ! j)"
      using len by auto
    have j': "j < length (members CHR ''g'' L (enumerate 0 vs))" using e(1,2) gi by simp
    from members_nth [OF j'] e gi j' show ?thesis by (simp add: pe)
  qed
qed

lemma rev_nth_flip: "k < length xs \<Longrightarrow> rev xs ! (length xs - Suc k) = xs ! k"
  by (simp add: rev_nth)

lemma list_all2_rev_index:
  assumes "list_all2 (\<lambda>p gr. P (rev xs ! p) gr) [0 ..< length xs] ys"
  shows "list_all2 (\<lambda>L gr. P (xs ! L) gr) (rev [0 ..< length xs]) ys"
proof -
  from assms have l: "length ys = length xs" by (auto dest: list_all2_lengthD)
  show ?thesis
    unfolding list_all2_conv_all_nth
  proof (intro conjI allI impI)
    show "length (rev [0 ..< length xs]) = length ys" using l by simp
  next
    fix p assume "p < length (rev [0 ..< length xs])"
    then have p: "p < length xs" by simp
    from assms p have "P (rev xs ! p) (ys ! p)"
      by (auto simp: list_all2_conv_all_nth)
    moreover have "rev [0 ..< length xs] ! p = length xs - Suc p"
      using p by (simp add: rev_nth)
    moreover have "rev xs ! p = xs ! (length xs - Suc p)"
      using p by (simp add: rev_nth)
    ultimately show "P (xs ! (rev [0 ..< length xs] ! p)) (ys ! p)" by simp
  qed
qed

lemma f_side_grads_of_length: "f_side_grads_of fn sc fsv gr \<Longrightarrow> length gr = length fsv"
  by (auto simp: f_side_grads_of_def)

lemma g_side_grads_of_length: "g_side_grads_of fn sc gsv gr \<Longrightarrow> length gr = length gsv"
  by (auto simp: g_side_grads_of_def)

lemma list_all2_rows:
  assumes "list_all2 P xs rows" and "\<And>x r. P x r \<Longrightarrow> length r = m"
  shows "\<forall>r\<in>set rows. length r = m"
proof
  fix r assume "r \<in> set rows"
  then obtain p where "p < length rows" "rows ! p = r" by (auto simp: in_set_conv_nth)
  with assms(1) have "P (xs ! p) r" by (auto simp: list_all2_conv_all_nth)
  then show "length r = m" by (rule assms(2))
qed

lemma backward_and_route_result:
  fixes ys :: "('a::ab_group_add) list"
  assumes n: "0 < n"
    and glen: "length (f_vars grp) = n" "length (g_vars grp) = n"
              "length (f_vars_idxs grp) = n" "length (g_vars_idxs grp) = n"
    and gcont: "\<forall>k<n. f_vars grp ! k = map snd (members CHR ''f'' k (enumerate 0 vs))
              \<and> f_vars_idxs grp ! k = map fst (members CHR ''f'' k (enumerate 0 vs))
              \<and> g_vars grp ! k = map snd (members CHR ''g'' k (enumerate 0 vs))
              \<and> g_vars_idxs grp ! k = map fst (members CHR ''g'' k (enumerate 0 vs))"
    and lens: "length S = n" "length F = n" "length G = n"
    and diff: "\<forall>fn\<in>set F \<union> set G. differentiable fn"
    and ys: "length ys = 2" "length grad_ys = 2"
  shows "\<exists>gx1 gx2 FS GS gv acc'.
      backward_and_route n (rev S) (rev F) (rev G) grp fsi gsi
         (map Some [0 ..< length fsi]) (map Some [length fsi ..< length fsi + length gsi])
         (length fsi + length gsi) (length vs) ys grad_ys
        = Inr ([Some gx1, Some gx2] @ acc_grads FS @ acc_grads GS, gv)
      \<and> length gv = length vs
      \<and> length (acc_grads FS) = length fsi \<and> length (acc_grads GS) = length gsi
      \<and> length FS = n \<and> length GS = n
      \<and> (\<forall>r\<in>set FS. length r = length fsi) \<and> (\<forall>r\<in>set GS. length r = length gsi)
      \<and> list_all2 (\<lambda>L gr. f_side_grads_of (F ! L) (S ! L @ ''/f'') (map tval fsi) gr)
           (rev [0 ..< n]) FS
      \<and> list_all2 (\<lambda>L gr. g_side_grads_of (G ! L) (S ! L @ ''/g'') (map tval gsi) gr)
           (rev [0 ..< n]) GS
      \<and> (\<forall>i<length vs. \<forall>ref L c. var_owner (vs ! i) = Some (ref, L, c) \<and> L < n \<longrightarrow>
            param_grad_of F G S (map tval fsi) (map tval gsi) L c ref (gv ! i))
      \<and> layers_loop [0 ..< n] (rev S) (rev F) (rev G) (rev (f_vars grp)) (rev (g_vars grp))
            (map tval fsi) (map tval gsi)
            \<lparr> acc_ys = ys, acc_grad_ys = grad_ys, f_var_grads = [], g_var_grads = [],
              f_side_grads = [], g_side_grads = [] \<rparr> = Inr acc'
      \<and> f_side_grads acc' = FS \<and> g_side_grads acc' = GS"
proof -
  let ?fsv = "map tval fsi" and ?gsv = "map tval gsi"
  let ?acc0 = "\<lparr> acc_ys = ys, acc_grad_ys = grad_ys, f_var_grads = [], g_var_grads = [],
               f_side_grads = [], g_side_grads = [] \<rparr>"
  have pre: "\<forall>i\<in>set [0 ..< n]. i < length (rev S) \<and> i < length (rev F) \<and> i < length (rev G)
              \<and> i < length (rev (f_vars grp)) \<and> i < length (rev (g_vars grp))
              \<and> differentiable (rev F ! i) \<and> differentiable (rev G ! i)"
    using lens glen diff by (auto simp: rev_nth)
  from layers_loop_result [OF pre, of ?acc0 ?fsv ?gsv] ys
  obtain acc' FG GG FS GS where r:
    "layers_loop [0 ..< n] (rev S) (rev F) (rev G) (rev (f_vars grp)) (rev (g_vars grp))
        ?fsv ?gsv ?acc0 = Inr acc'"
    "length (acc_grad_ys acc') = 2"
    "f_var_grads acc' = FG" "g_var_grads acc' = GG"
    "f_side_grads acc' = FS" "g_side_grads acc' = GS"
    "list_all2 (\<lambda>i gr. f_var_grads_of (rev F ! i) (rev S ! i @ ''/f'') ?fsv (rev (f_vars grp) ! i) gr) [0 ..< n] FG"
    "list_all2 (\<lambda>i gr. g_var_grads_of (rev G ! i) (rev S ! i @ ''/g'') ?gsv (rev (g_vars grp) ! i) gr) [0 ..< n] GG"
    "list_all2 (\<lambda>i gr. f_side_grads_of (rev F ! i) (rev S ! i @ ''/f'') ?fsv gr) [0 ..< n] FS"
    "list_all2 (\<lambda>i gr. g_side_grads_of (rev G ! i) (rev S ! i @ ''/g'') ?gsv gr) [0 ..< n] GS"
    by auto
  from r(2) obtain gx1 gx2 where gx: "acc_grad_ys acc' = [gx1, gx2]"
    using length_2E by blast
  have lFG: "length FG = n" and lGG: "length GG = n" and lFS: "length FS = n" and lGS: "length GS = n"
    using r(7-10) by (auto dest: list_all2_lengthD)
  have FGr: "\<forall>k<n. f_var_grads_of (F ! k) (S ! k @ ''/f'') ?fsv
                      (map snd (members CHR ''f'' k (enumerate 0 vs))) (rev FG ! k)"
  proof (intro allI impI)
    fix k assume k: "k < n"
    let ?p = "n - Suc k"
    have p: "?p < n" using k by simp
    from r(7) p have "f_var_grads_of (rev F ! ?p) (rev S ! ?p @ ''/f'') ?fsv (rev (f_vars grp) ! ?p) (FG ! ?p)"
      by (auto simp: list_all2_conv_all_nth)
    moreover have "rev F ! ?p = F ! k" "rev S ! ?p = S ! k" "rev (f_vars grp) ! ?p = f_vars grp ! k"
      using k lens glen rev_nth_flip [of k F] rev_nth_flip [of k S] rev_nth_flip [of k "f_vars grp"]
      by simp_all
    moreover have "rev FG ! k = FG ! ?p" using k lFG by (simp add: rev_nth)
    ultimately show "f_var_grads_of (F ! k) (S ! k @ ''/f'') ?fsv
                      (map snd (members CHR ''f'' k (enumerate 0 vs))) (rev FG ! k)"
      using gcont k by simp
  qed
  have GGr: "\<forall>k<n. g_var_grads_of (G ! k) (S ! k @ ''/g'') ?gsv
                      (map snd (members CHR ''g'' k (enumerate 0 vs))) (rev GG ! k)"
  proof (intro allI impI)
    fix k assume k: "k < n"
    let ?p = "n - Suc k"
    have p: "?p < n" using k by simp
    from r(8) p have "g_var_grads_of (rev G ! ?p) (rev S ! ?p @ ''/g'') ?gsv (rev (g_vars grp) ! ?p) (GG ! ?p)"
      by (auto simp: list_all2_conv_all_nth)
    moreover have "rev G ! ?p = G ! k" "rev S ! ?p = S ! k" "rev (g_vars grp) ! ?p = g_vars grp ! k"
      using k lens glen rev_nth_flip [of k G] rev_nth_flip [of k S] rev_nth_flip [of k "g_vars grp"]
      by simp_all
    moreover have "rev GG ! k = GG ! ?p" using k lGG by (simp add: rev_nth)
    ultimately show "g_var_grads_of (G ! k) (S ! k @ ''/g'') ?gsv
                      (map snd (members CHR ''g'' k (enumerate 0 vs))) (rev GG ! k)"
      using gcont k by simp
  qed
  let ?pairs = "var_grad_pairs (f_vars_idxs grp) (rev FG) (g_vars_idxs grp) (rev GG)"
  have fi: "\<forall>k<n. f_vars_idxs grp ! k = map fst (members CHR ''f'' k (enumerate 0 vs))"
    and gi: "\<forall>k<n. g_vars_idxs grp ! k = map fst (members CHR ''g'' k (enumerate 0 vs))"
    using gcont by auto
  have "\<forall>p\<in>set ?pairs. \<exists>k. fst p = Some k \<and> k < length (replicate (length vs) (None :: 'a option))"
    using var_grad_pairs_in_range [OF glen(3,4) fi gi, of "rev FG" "rev GG"] by simp
  from scatter_total [OF this] obtain gv where gv: "scatter ?pairs (replicate (length vs) None) = Inr gv"
    by blast
  have lgv: "length gv = length vs" using scatter_length [OF gv] by simp
  have ord: "\<forall>i<length vs. \<forall>ref L c. var_owner (vs ! i) = Some (ref, L, c) \<and> L < n \<longrightarrow>
            param_grad_of F G S ?fsv ?gsv L c ref (gv ! i)"
  proof (intro allI impI)
    fix i ref L c
    assume i: "i < length vs" and o: "var_owner (vs ! i) = Some (ref, L, c) \<and> L < n"
    show "param_grad_of F G S ?fsv ?gsv L c ref (gv ! i)"
      by (rule routed_param_grad [OF glen(3,4) _ _ fi gi FGr GGr gv i])
         (use o lFG lGG in simp_all)
  qed
  have "\<forall>r\<in>set FS. length r = length ?fsv"
    by (rule list_all2_rows [OF r(9)]) (rule f_side_grads_of_length)
  then have rowsF: "\<forall>r\<in>set FS. length r = length fsi" by simp
  have "\<forall>r\<in>set GS. length r = length ?gsv"
    by (rule list_all2_rows [OF r(10)]) (rule g_side_grads_of_length)
  then have rowsG: "\<forall>r\<in>set GS. length r = length gsi" by simp
  have neF: "FS \<noteq> []" and neG: "GS \<noteq> []" using lFS lGS n by auto
  have laF: "length (acc_grads FS) = length fsi" using acc_grads_nth(1) [OF neF rowsF] .
  have laG: "length (acc_grads GS) = length gsi" using acc_grads_nth(1) [OF neG rowsG] .
  have s1: "scatter (zip (map Some [0 ..< length fsi]) (acc_grads FS))
              (replicate (length fsi + length gsi) None) =
            Inr (acc_grads FS @ replicate (length gsi) None)"
    using scatter_block [of "replicate (length fsi) None" "acc_grads FS" "[]" "replicate (length gsi) None"] laF
    by (simp add: replicate_add)
  have s2: "scatter (zip (map Some [length fsi ..< length fsi + length gsi]) (acc_grads GS))
              (acc_grads FS @ replicate (length gsi) None) =
            Inr (acc_grads FS @ acc_grads GS)"
    using scatter_block [of "replicate (length gsi) None" "acc_grads GS" "acc_grads FS" "[]"] laF laG
    by simp
  have res: "backward_and_route n (rev S) (rev F) (rev G) grp fsi gsi
         (map Some [0 ..< length fsi]) (map Some [length fsi ..< length fsi + length gsi])
         (length fsi + length gsi) (length vs) ys grad_ys
        = Inr ([Some gx1, Some gx2] @ acc_grads FS @ acc_grads GS, gv)"
    unfolding backward_and_route_def
    by (simp add: r(1) r(3-6) Let_def gv s1 s2 gx)
  have sF: "list_all2 (\<lambda>L gr. f_side_grads_of (F ! L) (S ! L @ ''/f'') ?fsv gr) (rev [0 ..< n]) FS"
    unfolding list_all2_conv_all_nth
  proof (intro conjI allI impI)
    show "length (rev [0 ..< n]) = length FS" using lFS by simp
  next
    fix p assume "p < length (rev [0 ..< n])"
    then have p: "p < n" by simp
    from r(9) p have "f_side_grads_of (rev F ! p) (rev S ! p @ ''/f'') ?fsv (FS ! p)"
      by (simp add: list_all2_conv_all_nth)
    moreover have "rev [0 ..< n] ! p = n - Suc p" using p by (simp add: rev_nth)
    moreover have "rev F ! p = F ! (n - Suc p)" "rev S ! p = S ! (n - Suc p)"
      using p lens by (simp_all add: rev_nth)
    ultimately show "f_side_grads_of (F ! (rev [0 ..< n] ! p)) (S ! (rev [0 ..< n] ! p) @ ''/f'')
                       ?fsv (FS ! p)" by simp
  qed
  have sG: "list_all2 (\<lambda>L gr. g_side_grads_of (G ! L) (S ! L @ ''/g'') ?gsv gr) (rev [0 ..< n]) GS"
    unfolding list_all2_conv_all_nth
  proof (intro conjI allI impI)
    show "length (rev [0 ..< n]) = length GS" using lGS by simp
  next
    fix p assume "p < length (rev [0 ..< n])"
    then have p: "p < n" by simp
    from r(10) p have "g_side_grads_of (rev G ! p) (rev S ! p @ ''/g'') ?gsv (GS ! p)"
      by (simp add: list_all2_conv_all_nth)
    moreover have "rev [0 ..< n] ! p = n - Suc p" using p by (simp add: rev_nth)
    moreover have "rev G ! p = G ! (n - Suc p)" "rev S ! p = S ! (n - Suc p)"
      using p lens by (simp_all add: rev_nth)
    ultimately show "g_side_grads_of (G ! (rev [0 ..< n] ! p)) (S ! (rev [0 ..< n] ! p) @ ''/g'')
                       ?gsv (GS ! p)" by simp
  qed
  show ?thesis
    apply (rule exI [where x = gx1], rule exI [where x = gx2])
    apply (rule exI [where x = FS], rule exI [where x = GS], rule exI [where x = gv])
    apply (rule exI [where x = acc'])
    apply (intro conjI)
    apply (rule res, rule lgv, rule laF, rule laG, rule lFS, rule lGS, rule rowsF, rule rowsG,
           rule sF, rule sG, rule ord, rule r(1), rule r(5), rule r(6))
    done
qed

lemma well_formed_vars:
  assumes "well_formed_call cl st inputs variables ys grad_ys"
  shows "\<forall>p\<in>set (enumerate 0 variables).
           \<exists>ref L c. var_owner (snd p) = Some (ref, L, c) \<and> L < nat (cl_num_layers cl)"
proof
  fix p assume "p \<in> set (enumerate 0 variables)"
  then have "fst p < length variables" "variables ! fst p = snd p"
    by (auto simp: in_set_enumerate_eq)
  then have "snd p \<in> set variables" by (metis nth_mem)
  with assms show "\<exists>ref L c. var_owner (snd p) = Some (ref, L, c) \<and> L < nat (cl_num_layers cl)"
    by (auto simp: well_formed_call_def split: option.splits)
qed

lemma custom_grad_fn_result:
  fixes ys :: "('a::ab_group_add) list"
  assumes wf: "well_formed_call cl st inputs variables ys grad_ys"
  shows "\<exists>gx1 gx2 FS GS gv acc' fv gvs.
      custom_grad_fn cl inputs variables ys grad_ys st =
        (st\<lparr> layer_scopes := rev (layer_scopes st),
              fn_lists := reverse_at (cl_g cl) (reverse_at (cl_f cl) (fn_lists st)) \<rparr>,
         Inr ([Some gx1, Some gx2] @ acc_grads FS @ acc_grads GS, gv))
      \<and> length gv = length variables
      \<and> length (acc_grads FS) = length (cl_f_side_input cl)
      \<and> length (acc_grads GS) = length (cl_g_side_input cl)
      \<and> length FS = nat (cl_num_layers cl) \<and> length GS = nat (cl_num_layers cl)
      \<and> (\<forall>r\<in>set FS. length r = length (cl_f_side_input cl))
      \<and> (\<forall>r\<in>set GS. length r = length (cl_g_side_input cl))
      \<and> list_all2 (\<lambda>L gr. f_side_grads_of (fn_lists st (cl_f cl) ! L)
                              (layer_scopes st ! L @ ''/f'') (map tval (cl_f_side_input cl)) gr)
           (rev [0 ..< nat (cl_num_layers cl)]) FS
      \<and> list_all2 (\<lambda>L gr. g_side_grads_of (fn_lists st (cl_g cl) ! L)
                              (layer_scopes st ! L @ ''/g'') (map tval (cl_g_side_input cl)) gr)
           (rev [0 ..< nat (cl_num_layers cl)]) GS
      \<and> (\<forall>i<length variables. \<forall>ref L c.
            var_owner (variables ! i) = Some (ref, L, c) \<and> L < nat (cl_num_layers cl) \<longrightarrow>
            param_grad_of (fn_lists st (cl_f cl)) (fn_lists st (cl_g cl)) (layer_scopes st)
              (map tval (cl_f_side_input cl)) (map tval (cl_g_side_input cl)) L c ref (gv ! i))
      \<and> layers_loop [0 ..< nat (cl_num_layers cl)] (rev (layer_scopes st))
            (rev (fn_lists st (cl_f cl))) (rev (fn_lists st (cl_g cl))) fv gvs
            (map tval (cl_f_side_input cl)) (map tval (cl_g_side_input cl))
            \<lparr> acc_ys = ys, acc_grad_ys = grad_ys, f_var_grads = [], g_var_grads = [],
              f_side_grads = [], g_side_grads = [] \<rparr> = Inr acc'
      \<and> f_side_grads acc' = FS \<and> g_side_grads acc' = GS"
proof -
  let ?n = "nat (cl_num_layers cl)"
  let ?fsi = "cl_f_side_input cl" and ?gsi = "cl_g_side_input cl"
  let ?F = "fn_lists st (cl_f cl)" and ?G = "fn_lists st (cl_g cl)" and ?S = "layer_scopes st"
  let ?st' = "st\<lparr> layer_scopes := rev (layer_scopes st),
              fn_lists := reverse_at (cl_g cl) (reverse_at (cl_f cl) (fn_lists st)) \<rparr>"
  from wf have n: "0 < ?n" and dr: "drop 2 inputs = ?fsi @ ?gsi"
    and dist: "distinct (?fsi @ ?gsi)"
    and lens: "length ?S = ?n" "length ?F = ?n" "length ?G = ?n"
    and ne: "cl_f cl \<noteq> cl_g cl"
    and diff: "\<forall>fn\<in>set ?F \<union> set ?G. differentiable fn"
    and ys: "length ys = 2" "length grad_ys = 2"
    by (auto simp: well_formed_call_def)
  have si: "side_idxs_loop ?fsi ?gsi (enumerate 0 (drop 2 inputs))
              (replicate (length ?fsi) None) (replicate (length ?gsi) None) =
            Inr (map Some [0 ..< length ?fsi],
                 map Some [length ?fsi ..< length ?fsi + length ?gsi])"
    unfolding dr by (rule side_idxs_loop_result [OF dist])
  let ?grp0 = "\<lparr> f_vars = replicate ?n [], g_vars = replicate ?n [],
                 f_vars_idxs = replicate ?n [], g_vars_idxs = replicate ?n [] \<rparr>
               :: 'a var_groups"
  from vars_loop_groups [OF well_formed_vars [OF wf], of ?grp0]
  obtain grp where grp: "vars_loop (enumerate 0 variables) ?grp0 = Inr grp"
    "length (f_vars grp) = ?n" "length (g_vars grp) = ?n"
    "length (f_vars_idxs grp) = ?n" "length (g_vars_idxs grp) = ?n"
    "\<forall>k<?n. f_vars grp ! k = map snd (members CHR ''f'' k (enumerate 0 variables))
          \<and> f_vars_idxs grp ! k = map fst (members CHR ''f'' k (enumerate 0 variables))
          \<and> g_vars grp ! k = map snd (members CHR ''g'' k (enumerate 0 variables))
          \<and> g_vars_idxs grp ! k = map fst (members CHR ''g'' k (enumerate 0 variables))"
    by auto
  have fl: "fn_lists ?st' (cl_f cl) = rev ?F" "fn_lists ?st' (cl_g cl) = rev ?G"
    using ne by (simp_all add: reverse_at_def)
  have eq: "custom_grad_fn cl inputs variables ys grad_ys st =
              (?st', backward_and_route ?n (rev ?S) (rev ?F) (rev ?G) grp ?fsi ?gsi
                 (map Some [0 ..< length ?fsi])
                 (map Some [length ?fsi ..< length ?fsi + length ?gsi])
                 (length ?fsi + length ?gsi) (length variables) ys grad_ys)"
    unfolding custom_grad_fn_def Let_def using si grp(1) fl dr by simp
  from backward_and_route_result [OF n grp(2-6) lens diff ys, of ?fsi ?gsi]
  show ?thesis
    unfolding eq
    apply (elim exE conjE)
    apply (intro exI conjI)
    apply (erule arg_cong [where f = "Pair ?st'"])
    apply assumption+
    done
qed

subsection \<open>\<open>custom_grad_fn\<close>: counts and order of the gradients\<close>

lemma f_side_grads_of_nth:
  "f_side_grads_of (fl ! L) (scopes ! L @ ''/f'') fsv gr \<Longrightarrow> j < length fsv \<Longrightarrow>
     f_side_contrib fl scopes fsv j L (gr ! j)"
  unfolding f_side_grads_of_def f_side_contrib_def by (elim exE) (simp, blast)

lemma g_side_grads_of_nth:
  "g_side_grads_of (gl ! L) (scopes ! L @ ''/g'') gsv gr \<Longrightarrow> j < length gsv \<Longrightarrow>
     g_side_contrib gl scopes gsv j L (gr ! j)"
  unfolding g_side_grads_of_def g_side_contrib_def by (elim exE) (simp, blast)

lemma nth_after_two: "([a, b] @ xs @ ys) ! (2 + j) = (xs @ ys) ! j"
  by (simp add: numeral_2_eq_2)





lemma sample_differentiable: "differentiable double_fn" "differentiable zero_times_input"
  by (simp_all add: differentiable_def double_fn_def zero_times_input_def)

subsection \<open>\<open>_acc_grads\<close> over the layers: shared side inputs\<close>

lemma acc_one_sum:
  "acc_one gs = (if \<forall>g\<in>set gs. g = None then None
                 else Some (\<Sum>g\<leftarrow>gs. case g of None \<Rightarrow> 0 | Some v \<Rightarrow> v))"
proof -
  have a: "sum_list (map the (filter (\<lambda>g. g \<noteq> None) gs)) =
           (\<Sum>g\<leftarrow>gs. case g of None \<Rightarrow> 0 | Some v \<Rightarrow> v)"
    by (induction gs) (auto split: option.splits)
  have b: "(filter (\<lambda>g. g \<noteq> None) gs = []) = (\<forall>g\<in>set gs. g = None)"
    by (induction gs) auto
  show ?thesis
    unfolding acc_one_def Let_def using a b by auto
qed

lemma acc_one_all_present: "xs \<noteq> [] \<Longrightarrow> acc_one (map Some xs) = Some (sum_list xs)"
  by (simp add: acc_one_def Let_def filter_map comp_def)

lemma nth_checked_InrD: "nth_checked xs i = Inr v \<Longrightarrow> i < length xs \<and> v = xs ! i"
  by (auto simp: nth_checked_def split: if_splits)

lemma rev_layer_backward_g_side:
  assumes "rev_layer_backward sc [y1, y2] [gy1, gy2] f g fv fsi gv gsi = Inr r"
  shows "snd (g_ret r) = map (\<lambda>k. d_side g (sc @ ''/g'') y1 (side_arg gsi) k gy2)
                              [0 ..< length gsi]"
  using assms
  by (auto simp: rev_layer_backward_def Let_def gradients_wrt_def acc_grads_pair outs_slices
      split: option.splits)

lemma rev_layer_backward_no_vars:
  assumes "rev_layer_backward sc ys gys f g fv fsi gv gsi = Inr r"
  shows "\<exists>r'. rev_layer_backward sc ys gys f g [] fsi [] gsi = Inr r'
            \<and> xs_rec r' = xs_rec r \<and> grad_xs r' = grad_xs r"
  using assms
  by (auto simp: rev_layer_backward_def Let_def split: list.splits option.splits)

lemma layers_loop_g_side_seeds:
  assumes "layers_loop idxs scopes fl gl fv gv fsi [sv] acc = Inr acc'"
    and "\<forall>g\<in>set gl. \<forall>sc y v seed. d_side g sc y (Some [v]) 0 seed = Some seed"
    and "length (acc_ys acc) = 2" and "length (acc_grad_ys acc) = 2"
  shows "g_side_grads acc' =
           g_side_grads acc @
           map (\<lambda>s. [Some s])
             (layer_seeds idxs scopes fl gl fsi [sv] (acc_ys acc) (acc_grad_ys acc))
       \<and> length (layer_seeds idxs scopes fl gl fsi [sv] (acc_ys acc) (acc_grad_ys acc)) =
           length idxs"
  using assms
proof (induction idxs arbitrary: acc)
  case Nil
  then show ?case by simp
next
  case (Cons i rest)
  from Cons.prems(3) obtain y1 y2 where ys: "acc_ys acc = [y1, y2]"
    using length_2E by blast
  from Cons.prems(4) obtain gy1 gy2 where gys: "acc_grad_ys acc = [gy1, gy2]"
    using length_2E by blast
  from Cons.prems(1) obtain scope f g fvi gvi r where st:
    "nth_checked scopes i = Inr scope" "nth_checked fl i = Inr f" "nth_checked gl i = Inr g"
    "nth_checked fv i = Inr fvi" "nth_checked gv i = Inr gvi"
    "rev_layer_backward scope [y1, y2] [gy1, gy2] f g fvi fsi gvi [sv] = Inr r"
    "layers_loop rest scopes fl gl fv gv fsi [sv]
       \<lparr> acc_ys = [fst (xs_rec r), snd (xs_rec r)],
         acc_grad_ys = [fst (grad_xs r), snd (grad_xs r)],
         f_var_grads = f_var_grads acc @ [fst (f_ret r)],
         g_var_grads = g_var_grads acc @ [fst (g_ret r)],
         f_side_grads = f_side_grads acc @ [snd (f_ret r)],
         g_side_grads = g_side_grads acc @ [snd (g_ret r)] \<rparr> = Inr acc'"
    by (auto simp: ys gys split: sum.splits)
  let ?acc1 = "\<lparr> acc_ys = [fst (xs_rec r), snd (xs_rec r)],
         acc_grad_ys = [fst (grad_xs r), snd (grad_xs r)],
         f_var_grads = f_var_grads acc @ [fst (f_ret r)],
         g_var_grads = g_var_grads acc @ [fst (g_ret r)],
         f_side_grads = f_side_grads acc @ [snd (f_ret r)],
         g_side_grads = g_side_grads acc @ [snd (g_ret r)] \<rparr>"
  have sc: "scope = scopes ! i" "f = fl ! i" "g = gl ! i" and gi: "i < length gl"
    using st(1-3) by (auto dest: nth_checked_InrD)
  have gmem: "g \<in> set gl" using sc(3) gi by simp
  have row: "snd (g_ret r) = [Some gy2]"
    using rev_layer_backward_g_side [OF st(6)] Cons.prems(2) gmem
    by (simp add: side_arg_def)
  from rev_layer_backward_no_vars [OF st(6)]
  obtain r' where r': "rev_layer_backward scope [y1, y2] [gy1, gy2] f g [] fsi [] [sv] = Inr r'"
    "xs_rec r' = xs_rec r" "grad_xs r' = grad_xs r" by blast
  have seeds: "layer_seeds (i # rest) scopes fl gl fsi [sv] (acc_ys acc) (acc_grad_ys acc) =
                 gy2 # layer_seeds rest scopes fl gl fsi [sv] (acc_ys ?acc1) (acc_grad_ys ?acc1)"
    using r' sc by (simp add: ys gys)
  from Cons.IH [OF st(7) Cons.prems(2)]
  have ih: "g_side_grads acc' =
           g_side_grads ?acc1 @
           map (\<lambda>s. [Some s])
             (layer_seeds rest scopes fl gl fsi [sv] (acc_ys ?acc1) (acc_grad_ys ?acc1))"
    "length (layer_seeds rest scopes fl gl fsi [sv] (acc_ys ?acc1) (acc_grad_ys ?acc1)) =
           length rest"
    by simp_all
  show ?case
    unfolding seeds using ih row by simp
qed

text \<open>
  C4, as the code has it. For a well-formed call, the gradient returned for a shared side
  input of either role is the accumulation over the layers of the per-layer contributions:
  their sum, a missing (\<open>None\<close>) contribution counting as zero, when at least one layer
  contributes, and \<open>None\<close> when none does. When the layers share one \<open>g\<close> side input
  \<open>s\<close> and every \<open>g\<close> hands the seed through to \<open>s\<close> (as \<open>g(y1, s) = s\<close> does), the
  gradient returned for \<open>s\<close> is the sum of the \<open>gy2\<close> seeds of the layers, one for each
  layer. A well-formed call includes that the engine reports a gradient tensor of each
  \<open>g\<close> with respect to \<open>y1\<close>.
\<close>

theorem side_input_gradients_accumulate:
  fixes ys :: "('a::ab_group_add) list"
  assumes wf: "well_formed_call cl st inputs variables ys grad_ys"
  shows "\<exists>st' gi gv.
      custom_grad_fn cl inputs variables ys grad_ys st = (st', Inr (gi, gv))
      \<and> (\<forall>j<length (cl_f_side_input cl). \<exists>contribs.
            list_all2 (f_side_contrib (fn_lists st (cl_f cl)) (layer_scopes st)
                         (map tval (cl_f_side_input cl)) j)
              (rev [0 ..< nat (cl_num_layers cl)]) contribs
            \<and> gi ! (2 + j) =
                (if \<forall>c\<in>set contribs. c = None then None
                 else Some (\<Sum>c\<leftarrow>contribs. case c of None \<Rightarrow> 0 | Some v \<Rightarrow> v)))
      \<and> (\<forall>j<length (cl_g_side_input cl). \<exists>contribs.
            list_all2 (g_side_contrib (fn_lists st (cl_g cl)) (layer_scopes st)
                         (map tval (cl_g_side_input cl)) j)
              (rev [0 ..< nat (cl_num_layers cl)]) contribs
            \<and> gi ! (2 + length (cl_f_side_input cl) + j) =
                (if \<forall>c\<in>set contribs. c = None then None
                 else Some (\<Sum>c\<leftarrow>contribs. case c of None \<Rightarrow> 0 | Some v \<Rightarrow> v)))
      \<and> (length (cl_g_side_input cl) = 1
           \<and> (\<forall>g\<in>set (fn_lists st (cl_g cl)). \<forall>sc y v seed.
                  d_side g sc y (Some [v]) 0 seed = Some seed) \<longrightarrow>
           gi ! (2 + length (cl_f_side_input cl)) =
             Some (sum_list (layer_seeds [0 ..< nat (cl_num_layers cl)] (rev (layer_scopes st))
                     (rev (fn_lists st (cl_f cl))) (rev (fn_lists st (cl_g cl)))
                     (map tval (cl_f_side_input cl)) (map tval (cl_g_side_input cl)) ys grad_ys))
           \<and> length (layer_seeds [0 ..< nat (cl_num_layers cl)] (rev (layer_scopes st))
                     (rev (fn_lists st (cl_f cl))) (rev (fn_lists st (cl_g cl)))
                     (map tval (cl_f_side_input cl)) (map tval (cl_g_side_input cl)) ys grad_ys)
               = nat (cl_num_layers cl))"
proof -
  let ?n = "nat (cl_num_layers cl)"
  let ?fsi = "cl_f_side_input cl" and ?gsi = "cl_g_side_input cl"
  let ?F = "fn_lists st (cl_f cl)" and ?G = "fn_lists st (cl_g cl)" and ?S = "layer_scopes st"
  let ?acc0 = "\<lparr> acc_ys = ys, acc_grad_ys = grad_ys, f_var_grads = [], g_var_grads = [],
                f_side_grads = [], g_side_grads = [] \<rparr>"
  let ?seeds = "layer_seeds [0 ..< ?n] (rev ?S) (rev ?F) (rev ?G) (map tval ?fsi) (map tval ?gsi)
                  ys grad_ys"
  from custom_grad_fn_result [OF wf]
  obtain gx1 gx2 FS GS gv acc' fv gvs where r:
    "custom_grad_fn cl inputs variables ys grad_ys st =
        (st\<lparr> layer_scopes := rev (layer_scopes st),
              fn_lists := reverse_at (cl_g cl) (reverse_at (cl_f cl) (fn_lists st)) \<rparr>,
         Inr ([Some gx1, Some gx2] @ acc_grads FS @ acc_grads GS, gv))"
    and laF: "length (acc_grads FS) = length ?fsi" and laG: "length (acc_grads GS) = length ?gsi"
    and lFS: "length FS = ?n" and lGS: "length GS = ?n"
    and rowsF: "\<forall>r\<in>set FS. length r = length ?fsi" and rowsG: "\<forall>r\<in>set GS. length r = length ?gsi"
    and sF: "list_all2 (\<lambda>L gr. f_side_grads_of (?F ! L) (?S ! L @ ''/f'') (map tval ?fsi) gr)
               (rev [0 ..< ?n]) FS"
    and sG: "list_all2 (\<lambda>L gr. g_side_grads_of (?G ! L) (?S ! L @ ''/g'') (map tval ?gsi) gr)
               (rev [0 ..< ?n]) GS"
    and loop: "layers_loop [0 ..< ?n] (rev ?S) (rev ?F) (rev ?G) fv gvs (map tval ?fsi)
                 (map tval ?gsi) ?acc0 = Inr acc'"
    and gs: "g_side_grads acc' = GS"
    by blast
  let ?gi = "[Some gx1, Some gx2] @ acc_grads FS @ acc_grads GS"
  from wf have n: "0 < ?n" and ly: "length ys = 2" "length grad_ys = 2"
    by (simp_all add: well_formed_call_def)
  have neF: "FS \<noteq> []" and neG: "GS \<noteq> []" using lFS lGS n by auto
  have c4: "\<forall>j<length ?fsi. \<exists>contribs.
            list_all2 (f_side_contrib ?F ?S (map tval ?fsi) j) (rev [0 ..< ?n]) contribs
            \<and> ?gi ! (2 + j) =
                (if \<forall>c\<in>set contribs. c = None then None
                 else Some (\<Sum>c\<leftarrow>contribs. case c of None \<Rightarrow> 0 | Some v \<Rightarrow> v))"
  proof (intro allI impI)
    fix j assume j: "j < length ?fsi"
    have "?gi ! (2 + j) = acc_grads FS ! j"
      using j laF by (simp only: nth_after_two) (simp add: nth_append)
    also have "\<dots> = acc_one (map (\<lambda>r. r ! j) FS)"
      using acc_grads_nth(2) [OF neF rowsF j] .
    finally have a: "?gi ! (2 + j) = acc_one (map (\<lambda>r. r ! j) FS)" .
    have "list_all2 (\<lambda>L gr. f_side_contrib ?F ?S (map tval ?fsi) j L (gr ! j)) (rev [0 ..< ?n]) FS"
      using sF j by (auto intro!: f_side_grads_of_nth elim!: list_all2_mono)
    then have "list_all2 (f_side_contrib ?F ?S (map tval ?fsi) j) (rev [0 ..< ?n]) (map (\<lambda>r. r ! j) FS)"
      by (simp add: list_all2_map2)
    with a [unfolded acc_one_sum] show "\<exists>contribs.
            list_all2 (f_side_contrib ?F ?S (map tval ?fsi) j) (rev [0 ..< ?n]) contribs
            \<and> ?gi ! (2 + j) =
                (if \<forall>c\<in>set contribs. c = None then None
                 else Some (\<Sum>c\<leftarrow>contribs. case c of None \<Rightarrow> 0 | Some v \<Rightarrow> v))" by blast
  qed
  have c5: "\<forall>j<length ?gsi. \<exists>contribs.
            list_all2 (g_side_contrib ?G ?S (map tval ?gsi) j) (rev [0 ..< ?n]) contribs
            \<and> ?gi ! (2 + length ?fsi + j) =
                (if \<forall>c\<in>set contribs. c = None then None
                 else Some (\<Sum>c\<leftarrow>contribs. case c of None \<Rightarrow> 0 | Some v \<Rightarrow> v))"
  proof (intro allI impI)
    fix j assume j: "j < length ?gsi"
    have "?gi ! (2 + (length ?fsi + j)) = (acc_grads FS @ acc_grads GS) ! (length ?fsi + j)"
      by (simp only: nth_after_two)
    also have "\<dots> = acc_grads GS ! j"
      using laF by (simp add: nth_append)
    also have "\<dots> = acc_one (map (\<lambda>r. r ! j) GS)"
      using acc_grads_nth(2) [OF neG rowsG j] .
    finally have a: "?gi ! (2 + length ?fsi + j) = acc_one (map (\<lambda>r. r ! j) GS)"
      by (simp add: add.assoc)
    have "list_all2 (\<lambda>L gr. g_side_contrib ?G ?S (map tval ?gsi) j L (gr ! j)) (rev [0 ..< ?n]) GS"
      using sG j by (auto intro!: g_side_grads_of_nth elim!: list_all2_mono)
    then have "list_all2 (g_side_contrib ?G ?S (map tval ?gsi) j) (rev [0 ..< ?n]) (map (\<lambda>r. r ! j) GS)"
      by (simp add: list_all2_map2)
    with a [unfolded acc_one_sum] show "\<exists>contribs.
            list_all2 (g_side_contrib ?G ?S (map tval ?gsi) j) (rev [0 ..< ?n]) contribs
            \<and> ?gi ! (2 + length ?fsi + j) =
                (if \<forall>c\<in>set contribs. c = None then None
                 else Some (\<Sum>c\<leftarrow>contribs. case c of None \<Rightarrow> 0 | Some v \<Rightarrow> v))" by blast
  qed
  have c6: "length ?gsi = 1
           \<and> (\<forall>g\<in>set ?G. \<forall>sc y v seed. d_side g sc y (Some [v]) 0 seed = Some seed) \<longrightarrow>
           ?gi ! (2 + length ?fsi) = Some (sum_list ?seeds) \<and> length ?seeds = ?n"
  proof (intro impI, elim conjE)
    assume one: "length ?gsi = 1"
      and pass: "\<forall>g\<in>set ?G. \<forall>sc y v seed. d_side g sc y (Some [v]) 0 seed = Some seed"
    from one obtain s where s: "?gsi = [s]" by (cases ?gsi) auto
    have pass': "\<forall>g\<in>set (rev ?G). \<forall>sc y v seed. d_side g sc y (Some [v]) 0 seed = Some seed"
      using pass by simp
    from layers_loop_g_side_seeds [OF loop [unfolded s, simplified] pass'] ly
    have sd: "GS = map (\<lambda>s. [Some s]) ?seeds" and ls: "length ?seeds = ?n"
      using gs s by simp_all
    have ne: "?seeds \<noteq> []" using ls n by auto
    have "?gi ! (2 + (length ?fsi + 0)) = (acc_grads FS @ acc_grads GS) ! (length ?fsi + 0)"
      by (simp only: nth_after_two)
    also have "\<dots> = acc_grads GS ! 0"
      using laF by (simp add: nth_append)
    also have "\<dots> = acc_one (map (\<lambda>r. r ! 0) GS)"
      using acc_grads_nth(2) [OF neG rowsG, of 0] one by simp
    also have "map (\<lambda>r. r ! 0) GS = map Some ?seeds"
      unfolding sd by simp
    also have "acc_one (map Some ?seeds) = Some (sum_list ?seeds)"
      using ne by (rule acc_one_all_present)
    finally have "?gi ! (2 + length ?fsi) = Some (sum_list ?seeds)" by simp
    with ls show "?gi ! (2 + length ?fsi) = Some (sum_list ?seeds) \<and> length ?seeds = ?n"
      by simp
  qed
  show ?thesis
    apply (rule exI, rule exI [where x = ?gi], rule exI [where x = gv])
    apply (intro conjI)
    apply (rule r, rule c4, rule c5, rule c6)
    done
qed

lemma passthrough_differentiable: "differentiable side_passthrough_connected"
  by (simp add: differentiable_def side_passthrough_connected_def)

lemma wf_three_layers:
  "well_formed_call three_layer_closure (three_layer_state side_passthrough_connected)
     three_layer_inputs [] [9, 21] [3, 4]"
  by (simp add: well_formed_call_def three_layer_closure_def three_layer_state_def
      three_layer_inputs_def sample_differentiable passthrough_differentiable)

theorem side_input_gradients_accumulate_witness:
  "well_formed_call three_layer_closure (three_layer_state side_passthrough_connected)
     three_layer_inputs [] [9, 21] [3, 4]
   \<and> (\<exists>st' gi gv.
      custom_grad_fn three_layer_closure three_layer_inputs [] [9, 21] [3, 4]
        (three_layer_state side_passthrough_connected) = (st', Inr (gi, gv))
      \<and> (\<forall>j<length (cl_f_side_input three_layer_closure). \<exists>contribs.
            list_all2 (f_side_contrib (fn_lists (three_layer_state side_passthrough_connected) (cl_f three_layer_closure)) (layer_scopes (three_layer_state side_passthrough_connected))
                         (map tval (cl_f_side_input three_layer_closure)) j)
              (rev [0 ..< nat (cl_num_layers three_layer_closure)]) contribs
            \<and> gi ! (2 + j) =
                (if \<forall>c\<in>set contribs. c = None then None
                 else Some (\<Sum>c\<leftarrow>contribs. case c of None \<Rightarrow> 0 | Some v \<Rightarrow> v)))
      \<and> (\<forall>j<length (cl_g_side_input three_layer_closure). \<exists>contribs.
            list_all2 (g_side_contrib (fn_lists (three_layer_state side_passthrough_connected) (cl_g three_layer_closure)) (layer_scopes (three_layer_state side_passthrough_connected))
                         (map tval (cl_g_side_input three_layer_closure)) j)
              (rev [0 ..< nat (cl_num_layers three_layer_closure)]) contribs
            \<and> gi ! (2 + length (cl_f_side_input three_layer_closure) + j) =
                (if \<forall>c\<in>set contribs. c = None then None
                 else Some (\<Sum>c\<leftarrow>contribs. case c of None \<Rightarrow> 0 | Some v \<Rightarrow> v)))
      \<and> (length (cl_g_side_input three_layer_closure) = 1
           \<and> (\<forall>g\<in>set (fn_lists (three_layer_state side_passthrough_connected) (cl_g three_layer_closure)). \<forall>sc y v seed.
                  d_side g sc y (Some [v]) 0 seed = Some seed) \<longrightarrow>
           gi ! (2 + length (cl_f_side_input three_layer_closure)) =
             Some (sum_list (layer_seeds [0 ..< nat (cl_num_layers three_layer_closure)] (rev (layer_scopes (three_layer_state side_passthrough_connected)))
                     (rev (fn_lists (three_layer_state side_passthrough_connected) (cl_f three_layer_closure))) (rev (fn_lists (three_layer_state side_passthrough_connected) (cl_g three_layer_closure)))
                     (map tval (cl_f_side_input three_layer_closure)) (map tval (cl_g_side_input three_layer_closure)) [9, 21] [3, 4]))
           \<and> length (layer_seeds [0 ..< nat (cl_num_layers three_layer_closure)] (rev (layer_scopes (three_layer_state side_passthrough_connected)))
                     (rev (fn_lists (three_layer_state side_passthrough_connected) (cl_f three_layer_closure))) (rev (fn_lists (three_layer_state side_passthrough_connected) (cl_g three_layer_closure)))
                     (map tval (cl_f_side_input three_layer_closure)) (map tval (cl_g_side_input three_layer_closure)) [9, 21] [3, 4])
               = nat (cl_num_layers three_layer_closure)))"
  using wf_three_layers side_input_gradients_accumulate [OF wf_three_layers] by blast

lemma upt_0_3: "[0 ..< 3] = [0, 1, 2]"
  by (simp add: numeral_3_eq_3 upt_conv_Cons)

lemma replicate_3: "replicate 3 x = [x, x, x]"
  by (simp add: numeral_3_eq_3)

theorem unconnected_side_passthrough_counterexample:
  "snd (custom_grad_fn three_layer_closure three_layer_inputs [] [9, 21] [3, 4]
          (three_layer_state side_passthrough)) = Inl NoneOperandError"
  by (simp add: custom_grad_fn_def three_layer_closure_def three_layer_state_def
      three_layer_inputs_def enumerate_eq_zip Let_def backward_and_route_def upt_0_3
      nth_checked_def reverse_at_def rev_layer_backward_def side_arg_def
      side_passthrough_def double_fn_def replicate_3 side_b_def)

text \<open>
  The three-layer block of the example, evaluated: the seeds that the three layers put on their
  second half are 4, 10 and 16, and the gradient returned for the one \<open>g\<close> side input is
  their sum.
\<close>

lemma three_layer_seeds:
  "layer_seeds [0 ..< 3]
     (rev (layer_scopes (three_layer_state side_passthrough_connected)))
     (rev (fn_lists (three_layer_state side_passthrough_connected) 0))
     (rev (fn_lists (three_layer_state side_passthrough_connected) 1))
     [] [20] [9, 21] [3, 4] = [4, 10, 16]"
  by (simp add: upt_0_3 three_layer_state_def rev_layer_backward_def side_arg_def Let_def
      side_passthrough_connected_def double_fn_def gradients_wrt_def acc_grads_def
      zip_star_has_nil slice_def)

lemma three_layer_example:
  "snd (custom_grad_fn three_layer_closure three_layer_inputs [] [9, 21] [3, 4]
          (three_layer_state side_passthrough_connected)) =
     Inr ([Some 3, Some 22, Some 30], [])"
  by (simp add: custom_grad_fn_def three_layer_closure_def three_layer_state_def
      three_layer_inputs_def enumerate_eq_zip Let_def backward_and_route_def upt_0_3
      nth_checked_def reverse_at_def rev_layer_backward_def side_arg_def
      side_passthrough_connected_def double_fn_def replicate_3 side_b_def sample_input_def
      gradients_wrt_def acc_grads_def zip_star_has_nil zip_star_step slice_def
      var_grad_pairs_def acc_one_def)

subsection \<open>\<open>custom_grad_fn\<close>: the gradients it returns, position by position\<close>

lemma state_at_Some_mono:
  "state_at n S F G fsv gsv s0 \<noteq> None \<Longrightarrow> k \<le> n \<Longrightarrow> state_at k S F G fsv gsv s0 \<noteq> None"
proof (induction n)
  case 0
  then show ?case by simp
next
  case (Suc n)
  show ?case
  proof (cases "k = Suc n")
    case True
    with Suc.prems show ?thesis by simp
  next
    case False
    with Suc.prems have kn: "k \<le> n" by simp
    from Suc.prems(1) have "state_at n S F G fsv gsv s0 \<noteq> None"
      by (auto split: option.splits)
    from Suc.IH [OF this kn] show ?thesis .
  qed
qed

lemma state_at_None_mono:
  "state_at k S F G fsv gsv s0 = None \<Longrightarrow> k \<le> n \<Longrightarrow> state_at n S F G fsv gsv s0 = None"
  using state_at_Some_mono [of n S F G fsv gsv s0 k] by blast

lemma rev_layer_backward_exact:
  "rev_layer_backward sc [y1, y2] [gy1, gy2] f g fv fsv gv gsv =
     (case layer_backward_step sc f g fsv gsv ((y1, y2), (gy1, gy2)) of
        None \<Rightarrow> Inl NoneOperandError
      | Some s' \<Rightarrow>
          Inr \<lparr> xs_rec = fst s', grad_xs = snd s',
                f_ret = (map (f_grad_wrt_var sc f g fsv gsv ((y1, y2), (gy1, gy2))) fv,
                         map (f_grad_wrt_side sc f g fsv gsv ((y1, y2), (gy1, gy2)))
                             [0 ..< length fsv]),
                g_ret = (map (g_grad_wrt_var sc g gsv ((y1, y2), (gy1, gy2))) gv,
                         map (g_grad_wrt_side sc g gsv ((y1, y2), (gy1, gy2)))
                             [0 ..< length gsv]) \<rparr>)"
proof (cases "d_input g (sc @ ''/g'') y1 (side_arg gsv) gy2")
  case None
  then show ?thesis
    by (simp add: rev_layer_backward_def layer_backward_step_def Let_def)
next
  case (Some gg)
  note gg = Some
  let ?x2 = "y2 - call g (sc @ ''/g'') y1 (side_arg gsv)"
  show ?thesis
  proof (cases "d_input f (sc @ ''/f'') ?x2 (side_arg fsv) gy1")
    case None
    then show ?thesis
      by (simp add: rev_layer_backward_def layer_backward_step_def Let_def gg)
  next
    case (Some d1)
    note d1 = Some
    show ?thesis
    proof (cases "d_input f (sc @ ''/f'') ?x2 (side_arg fsv) gg")
      case None
      then show ?thesis
        by (simp add: rev_layer_backward_def layer_backward_step_def Let_def gg d1)
    next
      case (Some d2)
      then show ?thesis
        by (simp add: rev_layer_backward_def layer_backward_step_def Let_def gg d1
            gradients_wrt_def acc_grads_pair outs_slices f_grad_wrt_var_def
            f_grad_wrt_side_def g_grad_wrt_var_def g_grad_wrt_side_def)
    qed
  qed
qed


lemma layers_loop_exact:
  assumes len: "n \<le> length S" "n \<le> length F" "n \<le> length G" "n \<le> length fv"
    "n \<le> length gv"
  shows "k \<le> n \<Longrightarrow> state_at k S F G fsv gsv s0 = Some sk \<Longrightarrow>
     layers_loop [k ..< n] S F G fv gv fsv gsv (loop_acc_at k S F G fv gv fsv gsv s0 sk) =
       (case state_at n S F G fsv gsv s0 of
          None \<Rightarrow> Inl NoneOperandError
        | Some sn \<Rightarrow> Inr (loop_acc_at n S F G fv gv fsv gsv s0 sn))"
proof (induction "n - k" arbitrary: k sk)
  case 0
  then have "k = n" by simp
  with 0 show ?case by simp
next
  case (Suc m)
  then have kn: "k < n" by simp
  have up: "[k ..< n] = k # [Suc k ..< n]" using kn by (simp add: upt_conv_Cons)
  obtain y1 y2 gy1 gy2 where sk: "sk = ((y1, y2), (gy1, gy2))"
    by (metis surj_pair)
  have st: "state_at (Suc k) S F G fsv gsv s0 =
              layer_backward_step (S ! k) (F ! k) (G ! k) fsv gsv sk"
    using Suc.prems(2) by simp
  have idx: "k < length S" "k < length F" "k < length G" "k < length fv" "k < length gv"
    using kn len by simp_all
  show ?case
  proof (cases "layer_backward_step (S ! k) (F ! k) (G ! k) fsv gsv sk")
    case None
    then have "state_at (Suc k) S F G fsv gsv s0 = None" using st by simp
    then have "state_at n S F G fsv gsv s0 = None"
      by (rule state_at_None_mono) (use kn in simp)
    moreover have "layers_loop [k ..< n] S F G fv gv fsv gsv
                     (loop_acc_at k S F G fv gv fsv gsv s0 sk) = Inl NoneOperandError"
      unfolding up using idx None [unfolded sk]
      by (simp add: nth_checked_def loop_acc_at_def sk rev_layer_backward_exact)
    ultimately show ?thesis by simp
  next
    case (Some s')
    have step: "layers_loop [k ..< n] S F G fv gv fsv gsv
                  (loop_acc_at k S F G fv gv fsv gsv s0 sk) =
                layers_loop [Suc k ..< n] S F G fv gv fsv gsv
                  (loop_acc_at (Suc k) S F G fv gv fsv gsv s0 s')"
      unfolding up using idx Some [unfolded sk] Suc.prems(2) [unfolded sk]
      by (simp add: nth_checked_def loop_acc_at_def sk rev_layer_backward_exact)
    have m: "m = n - Suc k" using Suc.hyps(2) by simp
    have sk': "state_at (Suc k) S F G fsv gsv s0 = Some s'" using st Some by simp
    from Suc.hyps(1) [OF m _ sk'] kn
    show ?thesis unfolding step by simp
  qed
qed


lemma routed_param_grad_exact:
  fixes gv :: "('a::ab_group_add) option list"
  assumes len: "length fi = n" "length gi = n" "length FGr = n" "length GGr = n"
    and fi: "\<forall>k<n. fi ! k = map fst (members CHR ''f'' k (enumerate 0 vs))"
    and gi: "\<forall>k<n. gi ! k = map fst (members CHR ''g'' k (enumerate 0 vs))"
    and FG: "\<forall>k<n. FGr ! k = map (hf k) (map snd (members CHR ''f'' k (enumerate 0 vs)))"
    and GG: "\<forall>k<n. GGr ! k = map (hg k) (map snd (members CHR ''g'' k (enumerate 0 vs)))"
    and sc: "scatter (var_grad_pairs fi FGr gi GGr) (replicate (length vs) None) = Inr gv"
    and i: "i < length vs" and o: "var_owner (vs ! i) = Some (ref, L, c)" and L: "L < n"
  shows "gv ! i = (if c = CHR ''f'' then hf L ref else hg L ref)"
proof -
  let ?ps = "enumerate 0 vs"
  let ?pairs = "var_grad_pairs fi FGr gi GGr"
  have lenF: "\<And>k. k < n \<Longrightarrow> length (FGr ! k) = length (members CHR ''f'' k ?ps)"
    using FG by simp
  have lenG: "\<And>k. k < n \<Longrightarrow> length (GGr ! k) = length (members CHR ''g'' k ?ps)"
    using GG by simp
  have mem: "(i, ref) \<in> set (members c L ?ps)"
    using i o by (simp add: members_elem)
  then obtain j where j: "j < length (members c L ?ps)" "members c L ?ps ! j = (i, ref)"
    by (auto simp: in_set_conv_nth)
  have cfg: "c = CHR ''f'' \<or> c = CHR ''g''" using var_owner_role [OF o] .
  have inpairs: "Some i \<in> fst ` set ?pairs"
  proof -
    from cfg show ?thesis
    proof
      assume c: "c = CHR ''f''"
      have "(Some (fi ! L ! j), FGr ! L ! j) \<in> set ?pairs"
        using len L j(1) fi lenF [OF L] c by (intro var_grad_pairs_f_mem) auto
      moreover have "fi ! L ! j = i" using fi L j c by simp
      ultimately show ?thesis by force
    next
      assume c: "c = CHR ''g''"
      have "(Some (gi ! L ! j), GGr ! L ! j) \<in> set ?pairs"
        using len L j(1) gi lenG [OF L] c by (intro var_grad_pairs_g_mem) auto
      moreover have "gi ! L ! j = i" using gi L j c by simp
      ultimately show ?thesis by force
    qed
  qed
  from scatter_written [OF sc inpairs]
  obtain v where v: "(Some i, v) \<in> set ?pairs" "gv ! i = v" by blast
  from var_grad_pairs_elem [OF v(1)] show ?thesis
  proof
    assume "\<exists>L' j'. L' < length fi \<and> L' < length FGr \<and> j' < length (fi ! L') \<and> j' < length (FGr ! L')
              \<and> Some i = Some (fi ! L' ! j') \<and> v = FGr ! L' ! j'"
    then obtain L' j' where e: "L' < n" "j' < length (fi ! L')" "i = fi ! L' ! j'" "v = FGr ! L' ! j'"
      using len by auto
    have j': "j' < length (members CHR ''f'' L' ?ps)" using e(1,2) fi by simp
    have ie: "i = fst (members CHR ''f'' L' ?ps ! j')" using e(1,3) fi j' by simp
    from members_nth [OF j'] ie
    have "var_owner (vs ! i) = Some (snd (members CHR ''f'' L' ?ps ! j'), L', CHR ''f'')" by simp
    with o have eq: "ref = snd (members CHR ''f'' L' ?ps ! j')" "L' = L" "c = CHR ''f''" by auto
    from FG e(1) have "FGr ! L' = map (hf L') (map snd (members CHR ''f'' L' ?ps))" by blast
    then have "v = hf L ref" using e(4) j' eq by simp
    then show ?thesis using eq(3) v(2) by simp
  next
    assume "\<exists>L' j'. L' < length gi \<and> L' < length GGr \<and> j' < length (gi ! L') \<and> j' < length (GGr ! L')
              \<and> Some i = Some (gi ! L' ! j') \<and> v = GGr ! L' ! j'"
    then obtain L' j' where e: "L' < n" "j' < length (gi ! L')" "i = gi ! L' ! j'" "v = GGr ! L' ! j'"
      using len by auto
    have j': "j' < length (members CHR ''g'' L' ?ps)" using e(1,2) gi by simp
    have ie: "i = fst (members CHR ''g'' L' ?ps ! j')" using e(1,3) gi j' by simp
    from members_nth [OF j'] ie
    have "var_owner (vs ! i) = Some (snd (members CHR ''g'' L' ?ps ! j'), L', CHR ''g'')" by simp
    with o have eq: "ref = snd (members CHR ''g'' L' ?ps ! j')" "L' = L" "c = CHR ''g''" by auto
    from GG e(1) have "GGr ! L' = map (hg L') (map snd (members CHR ''g'' L' ?ps))" by blast
    then have "v = hg L ref" using e(4) j' eq by simp
    then show ?thesis using eq(3) v(2) by simp
  qed
qed

lemma acc_grads_rows:
  assumes n: "0 < n"
  shows "acc_grads (map (\<lambda>k. map (h k) [0 ..< m]) [0 ..< n]) =
           map (\<lambda>j. acc_one (map (\<lambda>k. h k j) [0 ..< n])) [0 ..< m]"
proof -
  let ?rows = "map (\<lambda>k. map (h k) [0 ..< m]) [0 ..< n]"
  have ne: "?rows \<noteq> []" using n by simp
  have rl: "\<forall>r\<in>set ?rows. length r = m" by auto
  show ?thesis
  proof (rule nth_equalityI)
    show "length (acc_grads ?rows) = length (map (\<lambda>j. acc_one (map (\<lambda>k. h k j) [0 ..< n])) [0 ..< m])"
      using acc_grads_nth(1) [OF ne rl] by simp
  next
    fix j assume "j < length (acc_grads ?rows)"
    then have j: "j < m" using acc_grads_nth(1) [OF ne rl] by simp
    have "acc_grads ?rows ! j = acc_one (map (\<lambda>r. r ! j) ?rows)"
      using acc_grads_nth(2) [OF ne rl j] .
    also have "map (\<lambda>r. r ! j) ?rows = map (\<lambda>k. h k j) [0 ..< n]"
      using j by simp
    finally show "acc_grads ?rows ! j = map (\<lambda>j. acc_one (map (\<lambda>k. h k j) [0 ..< n])) [0 ..< m] ! j"
      using j by simp
  qed
qed


lemma backward_and_route_exact:
  fixes y1 :: "'a::ab_group_add"
  assumes n: "0 < n"
    and glen: "length (f_vars grp) = n" "length (g_vars grp) = n"
              "length (f_vars_idxs grp) = n" "length (g_vars_idxs grp) = n"
    and gcont: "\<forall>k<n. f_vars grp ! k = map snd (members CHR ''f'' k (enumerate 0 vs))
              \<and> f_vars_idxs grp ! k = map fst (members CHR ''f'' k (enumerate 0 vs))
              \<and> g_vars grp ! k = map snd (members CHR ''g'' k (enumerate 0 vs))
              \<and> g_vars_idxs grp ! k = map fst (members CHR ''g'' k (enumerate 0 vs))"
    and res: "\<forall>i<length vs. \<exists>ref L c. var_owner (vs ! i) = Some (ref, L, c) \<and> L < n"
    and lens: "length S = n" "length F = n" "length G = n"
  shows "backward_and_route n S F G grp fsi gsi
           (map Some [0 ..< length fsi]) (map Some [length fsi ..< length fsi + length gsi])
           (length fsi + length gsi) (length vs) [y1, y2] [gy1, gy2] =
     (case state_at n S F G (map tval fsi) (map tval gsi) ((y1, y2), (gy1, gy2)) of
        None \<Rightarrow> Inl NoneOperandError
      | Some sn \<Rightarrow>
          Inr ([Some (fst (snd sn)), Some (snd (snd sn))]
               @ map (owed_f_side_grad n S F G (map tval fsi) (map tval gsi)
                        ((y1, y2), (gy1, gy2))) [0 ..< length fsi]
               @ map (owed_g_side_grad n S F G (map tval fsi) (map tval gsi)
                        ((y1, y2), (gy1, gy2))) [0 ..< length gsi],
               map (owed_param_grad n S F G (map tval fsi) (map tval gsi)
                      ((y1, y2), (gy1, gy2))) vs))"
proof -
  let ?fsv = "map tval fsi" and ?gsv = "map tval gsi"
  let ?s0 = "((y1, y2), (gy1, gy2))"
  let ?fv = "rev (f_vars grp)" and ?gv = "rev (g_vars grp)"
  let ?st = "\<lambda>k. state_at k S F G ?fsv ?gsv ?s0"
  have acc0: "\<lparr> acc_ys = [y1, y2], acc_grad_ys = [gy1, gy2], f_var_grads = [], g_var_grads = [],
                f_side_grads = [], g_side_grads = [] \<rparr> =
              loop_acc_at 0 S F G ?fv ?gv ?fsv ?gsv ?s0 ?s0"
    by (simp add: loop_acc_at_def)
  have loop: "layers_loop [0 ..< n] S F G ?fv ?gv ?fsv ?gsv
                (loop_acc_at 0 S F G ?fv ?gv ?fsv ?gsv ?s0 ?s0) =
              (case ?st n of
                 None \<Rightarrow> Inl NoneOperandError
               | Some sn \<Rightarrow> Inr (loop_acc_at n S F G ?fv ?gv ?fsv ?gsv ?s0 sn))"
    by (rule layers_loop_exact) (simp_all add: lens glen)
  show ?thesis
  proof (cases "?st n")
    case None
    then show ?thesis unfolding backward_and_route_def acc0 loop by simp
  next
    case (Some sn)
    have sk: "\<And>k. k < n \<Longrightarrow> ?st k \<noteq> None"
      using state_at_Some_mono [of n S F G ?fsv ?gsv ?s0] Some by simp
    let ?acc = "loop_acc_at n S F G ?fv ?gv ?fsv ?gsv ?s0 sn"
    let ?hfs = "\<lambda>k j. case ?st k of None \<Rightarrow> None
                        | Some s \<Rightarrow> f_grad_wrt_side (S ! k) (F ! k) (G ! k) ?fsv ?gsv s j"
    let ?hgs = "\<lambda>k j. case ?st k of None \<Rightarrow> None
                        | Some s \<Rightarrow> g_grad_wrt_side (S ! k) (G ! k) ?gsv s j"
    have rowF: "\<And>k. k < n \<Longrightarrow>
        (case ?st k of None \<Rightarrow> []
         | Some s \<Rightarrow> map (f_grad_wrt_side (S ! k) (F ! k) (G ! k) ?fsv ?gsv s) [0 ..< length ?fsv]) =
        map (?hfs k) [0 ..< length fsi]"
    proof -
      fix k assume "k < n"
      from sk [OF this] obtain s where "?st k = Some s" by blast
      then show "(case ?st k of None \<Rightarrow> []
         | Some s \<Rightarrow> map (f_grad_wrt_side (S ! k) (F ! k) (G ! k) ?fsv ?gsv s) [0 ..< length ?fsv]) =
        map (?hfs k) [0 ..< length fsi]" by simp
    qed
    have rowG: "\<And>k. k < n \<Longrightarrow>
        (case ?st k of None \<Rightarrow> []
         | Some s \<Rightarrow> map (g_grad_wrt_side (S ! k) (G ! k) ?gsv s) [0 ..< length ?gsv]) =
        map (?hgs k) [0 ..< length gsi]"
    proof -
      fix k assume "k < n"
      from sk [OF this] obtain s where "?st k = Some s" by blast
      then show "(case ?st k of None \<Rightarrow> []
         | Some s \<Rightarrow> map (g_grad_wrt_side (S ! k) (G ! k) ?gsv s) [0 ..< length ?gsv]) =
        map (?hgs k) [0 ..< length gsi]" by simp
    qed
    have FS: "f_side_grads ?acc = map (\<lambda>k. map (?hfs k) [0 ..< length fsi]) [0 ..< n]"
    proof -
      have "f_side_grads ?acc =
              map (\<lambda>k. case ?st k of None \<Rightarrow> []
                   | Some s \<Rightarrow> map (f_grad_wrt_side (S ! k) (F ! k) (G ! k) ?fsv ?gsv s)
                                [0 ..< length ?fsv]) [0 ..< n]"
        by (simp only: loop_acc_at_def loop_acc.simps)
      also have "\<dots> = map (\<lambda>k. map (?hfs k) [0 ..< length fsi]) [0 ..< n]"
        by (rule map_cong [OF refl], rule rowF, simp)
      finally show ?thesis .
    qed
    have GS: "g_side_grads ?acc = map (\<lambda>k. map (?hgs k) [0 ..< length gsi]) [0 ..< n]"
    proof -
      have "g_side_grads ?acc =
              map (\<lambda>k. case ?st k of None \<Rightarrow> []
                   | Some s \<Rightarrow> map (g_grad_wrt_side (S ! k) (G ! k) ?gsv s)
                                [0 ..< length ?gsv]) [0 ..< n]"
        by (simp only: loop_acc_at_def loop_acc.simps)
      also have "\<dots> = map (\<lambda>k. map (?hgs k) [0 ..< length gsi]) [0 ..< n]"
        by (rule map_cong [OF refl], rule rowG, simp)
      finally show ?thesis .
    qed
    have aF: "acc_grads (f_side_grads ?acc) =
                map (owed_f_side_grad n S F G ?fsv ?gsv ?s0) [0 ..< length fsi]"
      unfolding FS acc_grads_rows [OF n] owed_f_side_grad_def ..
    have aG: "acc_grads (g_side_grads ?acc) =
                map (owed_g_side_grad n S F G ?fsv ?gsv ?s0) [0 ..< length gsi]"
      unfolding GS acc_grads_rows [OF n] owed_g_side_grad_def ..
    let ?AF = "map (owed_f_side_grad n S F G ?fsv ?gsv ?s0) [0 ..< length fsi]"
    let ?AG = "map (owed_g_side_grad n S F G ?fsv ?gsv ?s0) [0 ..< length gsi]"
    have s1: "scatter (zip (map Some [0 ..< length fsi]) ?AF)
                (replicate (length fsi + length gsi) None) =
              Inr (?AF @ replicate (length gsi) None)"
      using scatter_block [of "replicate (length fsi) None" ?AF "[]" "replicate (length gsi) None"]
      by (simp add: replicate_add)
    have s2: "scatter (zip (map Some [length fsi ..< length fsi + length gsi]) ?AG)
                (?AF @ replicate (length gsi) None) = Inr (?AF @ ?AG)"
      using scatter_block [of "replicate (length gsi) None" ?AG ?AF "[]"] by simp
    let ?hf = "\<lambda>L ref. case ?st (n - 1 - L) of None \<Rightarrow> None
                 | Some s \<Rightarrow> f_grad_wrt_var (S ! (n - 1 - L)) (F ! (n - 1 - L)) (G ! (n - 1 - L))
                              ?fsv ?gsv s ref"
    let ?hg = "\<lambda>L ref. case ?st (n - 1 - L) of None \<Rightarrow> None
                 | Some s \<Rightarrow> g_grad_wrt_var (S ! (n - 1 - L)) (G ! (n - 1 - L)) ?gsv s ref"
    let ?FG = "f_var_grads ?acc" and ?GG = "g_var_grads ?acc"
    have lFG: "length ?FG = n" and lGG: "length ?GG = n"
      by (simp_all add: loop_acc_at_def)
    have FGr: "\<forall>L<n. rev ?FG ! L = map (?hf L) (map snd (members CHR ''f'' L (enumerate 0 vs)))"
    proof (intro allI impI)
      fix L assume L: "L < n"
      let ?k = "n - 1 - L"
      have k: "?k < n" using L by simp
      from sk [OF k] obtain s where s: "?st ?k = Some s" by auto
      have "rev ?FG ! L = ?FG ! ?k" using L lFG by (simp add: rev_nth)
      also have "\<dots> = map (f_grad_wrt_var (S ! ?k) (F ! ?k) (G ! ?k) ?fsv ?gsv s) (?fv ! ?k)"
        using k s by (simp add: loop_acc_at_def)
      also have "?fv ! ?k = f_vars grp ! L" using L glen by (simp add: rev_nth)
      also have "\<dots> = map snd (members CHR ''f'' L (enumerate 0 vs))" using gcont L by simp
      finally show "rev ?FG ! L = map (?hf L) (map snd (members CHR ''f'' L (enumerate 0 vs)))"
        using s by simp
    qed
    have GGr: "\<forall>L<n. rev ?GG ! L = map (?hg L) (map snd (members CHR ''g'' L (enumerate 0 vs)))"
    proof (intro allI impI)
      fix L assume L: "L < n"
      let ?k = "n - 1 - L"
      have k: "?k < n" using L by simp
      from sk [OF k] obtain s where s: "?st ?k = Some s" by auto
      have "rev ?GG ! L = ?GG ! ?k" using L lGG by (simp add: rev_nth)
      also have "\<dots> = map (g_grad_wrt_var (S ! ?k) (G ! ?k) ?gsv s) (?gv ! ?k)"
        using k s by (simp add: loop_acc_at_def)
      also have "?gv ! ?k = g_vars grp ! L" using L glen by (simp add: rev_nth)
      also have "\<dots> = map snd (members CHR ''g'' L (enumerate 0 vs))" using gcont L by simp
      finally show "rev ?GG ! L = map (?hg L) (map snd (members CHR ''g'' L (enumerate 0 vs)))"
        using s by simp
    qed
    let ?pairs = "var_grad_pairs (f_vars_idxs grp) (rev ?FG) (g_vars_idxs grp) (rev ?GG)"
    have fi: "\<forall>k<n. f_vars_idxs grp ! k = map fst (members CHR ''f'' k (enumerate 0 vs))"
      and gi: "\<forall>k<n. g_vars_idxs grp ! k = map fst (members CHR ''g'' k (enumerate 0 vs))"
      using gcont by auto
    have "\<forall>p\<in>set ?pairs. \<exists>k. fst p = Some k \<and> k < length (replicate (length vs) (None :: 'a option))"
      using var_grad_pairs_in_range [OF glen(3,4) fi gi, of "rev ?FG" "rev ?GG"] by simp
    from scatter_total [OF this]
    obtain gv where gv: "scatter ?pairs (replicate (length vs) None) = Inr gv" by blast
    have lgv: "length gv = length vs" using scatter_length [OF gv] by simp
    have gveq: "gv = map (owed_param_grad n S F G ?fsv ?gsv ?s0) vs"
    proof (rule nth_equalityI)
      show "length gv = length (map (owed_param_grad n S F G ?fsv ?gsv ?s0) vs)"
        using lgv by simp
    next
      fix i assume "i < length gv"
      then have i: "i < length vs" using lgv by simp
      from res i obtain ref L c where o: "var_owner (vs ! i) = Some (ref, L, c)" and L: "L < n"
        by blast
      have "gv ! i = (if c = CHR ''f'' then ?hf L ref else ?hg L ref)"
        by (rule routed_param_grad_exact [OF glen(3,4) _ _ fi gi FGr GGr gv i o L])
           (simp_all add: lFG lGG)
      also have "\<dots> = owed_param_grad n S F G ?fsv ?gsv ?s0 (vs ! i)"
        unfolding owed_param_grad_def o by (simp add: Let_def split: option.splits)
      finally show "gv ! i = map (owed_param_grad n S F G ?fsv ?gsv ?s0) vs ! i"
        using i by simp
    qed
    have gys: "acc_grad_ys ?acc = [fst (snd sn), snd (snd sn)]"
      by (simp add: loop_acc_at_def)
    show ?thesis
      unfolding backward_and_route_def acc0 loop
      by (simp add: Some Let_def aF aG s1 s2 gv gys gveq)
  qed
qed


lemma reverse_at_length: "length (reverse_at a store b) = length (store b)"
  by (simp add: reverse_at_def)

lemma attributable_vars:
  assumes "attributable_call cl st inputs variables"
  shows "\<forall>p\<in>set (enumerate 0 variables).
           \<exists>ref L c. var_owner (snd p) = Some (ref, L, c) \<and> L < nat (cl_num_layers cl)"
proof
  fix p assume "p \<in> set (enumerate 0 variables)"
  then have "fst p < length variables" "variables ! fst p = snd p"
    by (auto simp: in_set_enumerate_eq)
  then have "snd p \<in> set variables" by (metis nth_mem)
  with assms show "\<exists>ref L c. var_owner (snd p) = Some (ref, L, c) \<and> L < nat (cl_num_layers cl)"
    by (auto simp: attributable_call_def split: option.splits)
qed

lemma custom_grad_fn_exact:
  fixes y1 :: "'a::ab_group_add"
  assumes wf: "attributable_call cl st inputs variables"
  shows "custom_grad_fn cl inputs variables [y1, y2] [gy1, gy2] st =
     (after_reversal cl st,
      case state_at (nat (cl_num_layers cl)) (layer_scopes (after_reversal cl st))
             (fn_lists (after_reversal cl st) (cl_f cl)) (fn_lists (after_reversal cl st) (cl_g cl))
             (map tval (cl_f_side_input cl)) (map tval (cl_g_side_input cl))
             ((y1, y2), (gy1, gy2)) of
        None \<Rightarrow> Inl NoneOperandError
      | Some sn \<Rightarrow>
          Inr ([Some (fst (snd sn)), Some (snd (snd sn))]
               @ map (owed_f_side_grad (nat (cl_num_layers cl)) (layer_scopes (after_reversal cl st))
                        (fn_lists (after_reversal cl st) (cl_f cl))
                        (fn_lists (after_reversal cl st) (cl_g cl))
                        (map tval (cl_f_side_input cl)) (map tval (cl_g_side_input cl))
                        ((y1, y2), (gy1, gy2))) [0 ..< length (cl_f_side_input cl)]
               @ map (owed_g_side_grad (nat (cl_num_layers cl)) (layer_scopes (after_reversal cl st))
                        (fn_lists (after_reversal cl st) (cl_f cl))
                        (fn_lists (after_reversal cl st) (cl_g cl))
                        (map tval (cl_f_side_input cl)) (map tval (cl_g_side_input cl))
                        ((y1, y2), (gy1, gy2))) [0 ..< length (cl_g_side_input cl)],
               map (owed_param_grad (nat (cl_num_layers cl)) (layer_scopes (after_reversal cl st))
                      (fn_lists (after_reversal cl st) (cl_f cl))
                      (fn_lists (after_reversal cl st) (cl_g cl))
                      (map tval (cl_f_side_input cl)) (map tval (cl_g_side_input cl))
                      ((y1, y2), (gy1, gy2))) variables))"
proof -
  let ?n = "nat (cl_num_layers cl)"
  let ?fsi = "cl_f_side_input cl" and ?gsi = "cl_g_side_input cl"
  let ?st' = "after_reversal cl st"
  let ?S = "layer_scopes ?st'" and ?F = "fn_lists ?st' (cl_f cl)" and ?G = "fn_lists ?st' (cl_g cl)"
  from wf have n: "0 < ?n" and dr: "drop 2 inputs = ?fsi @ ?gsi"
    and dist: "distinct (?fsi @ ?gsi)"
    and lens0: "length (layer_scopes st) = ?n" "length (fn_lists st (cl_f cl)) = ?n"
               "length (fn_lists st (cl_g cl)) = ?n"
    by (auto simp: attributable_call_def)
  have lens: "length ?S = ?n" "length ?F = ?n" "length ?G = ?n"
    using lens0 by (simp_all add: after_reversal_def reverse_at_def)
  have si: "side_idxs_loop ?fsi ?gsi (enumerate 0 (drop 2 inputs))
              (replicate (length ?fsi) None) (replicate (length ?gsi) None) =
            Inr (map Some [0 ..< length ?fsi],
                 map Some [length ?fsi ..< length ?fsi + length ?gsi])"
    unfolding dr by (rule side_idxs_loop_result [OF dist])
  let ?grp0 = "\<lparr> f_vars = replicate ?n [], g_vars = replicate ?n [],
                 f_vars_idxs = replicate ?n [], g_vars_idxs = replicate ?n [] \<rparr>
               :: 'a var_groups"
  from vars_loop_groups [OF attributable_vars [OF wf], of ?grp0]
  obtain grp where grp: "vars_loop (enumerate 0 variables) ?grp0 = Inr grp"
    "length (f_vars grp) = ?n" "length (g_vars grp) = ?n"
    "length (f_vars_idxs grp) = ?n" "length (g_vars_idxs grp) = ?n"
    "\<forall>k<?n. f_vars grp ! k = map snd (members CHR ''f'' k (enumerate 0 variables))
          \<and> f_vars_idxs grp ! k = map fst (members CHR ''f'' k (enumerate 0 variables))
          \<and> g_vars grp ! k = map snd (members CHR ''g'' k (enumerate 0 variables))
          \<and> g_vars_idxs grp ! k = map fst (members CHR ''g'' k (enumerate 0 variables))"
    by auto
  have res: "\<forall>i<length variables. \<exists>ref L c. var_owner (variables ! i) = Some (ref, L, c) \<and> L < ?n"
  proof (intro allI impI)
    fix i assume "i < length variables"
    then have "variables ! i \<in> set variables" by simp
    with wf show "\<exists>ref L c. var_owner (variables ! i) = Some (ref, L, c) \<and> L < ?n"
      by (auto simp: attributable_call_def split: option.splits)
  qed
  have eq: "custom_grad_fn cl inputs variables [y1, y2] [gy1, gy2] st =
              (?st', backward_and_route ?n ?S ?F ?G grp ?fsi ?gsi
                 (map Some [0 ..< length ?fsi])
                 (map Some [length ?fsi ..< length ?fsi + length ?gsi])
                 (length ?fsi + length ?gsi) (length variables) [y1, y2] [gy1, gy2])"
    unfolding custom_grad_fn_def Let_def after_reversal_def using si grp(1) dr by simp
  show ?thesis
    unfolding eq backward_and_route_exact [OF n grp(2-6) res lens] ..
qed











subsection \<open>A block of one layer with constant zero functions\<close>

lemma after_reversal_sets:
  "set (fn_lists (after_reversal cl st) (cl_f cl)) = set (fn_lists st (cl_f cl))"
  "set (fn_lists (after_reversal cl st) (cl_g cl)) = set (fn_lists st (cl_g cl))"
  by (simp_all add: after_reversal_def reverse_at_def)

text \<open>
  C3, as the code has it. For a block of one layer whose functions are constant zero and
  for which the engine reports the gradients with respect to their inputs as zero tensors,
  the forward pass returns \<open>(x1, x2)\<close>, and for every pair of output gradients the
  gradient function of the block returns \<open>gy1\<close> at position 0 and \<open>gy2\<close> at position 1
  of its input gradients, with the counts of C1.
\<close>

theorem zero_coupling_single_layer:
  fixes x1 :: "'a::ab_group_add"
  assumes wf: "attributable_call cl st inputs variables"
    and one: "cl_num_layers cl = 1"
    and zero: "\<forall>fn\<in>set (fn_lists st (cl_f cl)) \<union> set (fn_lists st (cl_g cl)).
                 (\<forall>sc x s. call fn sc x s = 0) \<and> (\<forall>sc x s seed. d_input fn sc x s seed = Some 0)"
  shows "rev_block_forward x1 x2 (fn_lists st (cl_f cl)) (fn_lists st (cl_g cl))
           (cl_num_layers cl) fsv gsv scopes gate_outputs bs =
           Inr (scopes @ [bs @ ''/revlayer_'' @ show_nat 0], (x1, x2))
       \<and> (\<exists>gi gv. custom_grad_fn cl inputs variables [y1, y2] [gy1, gy2] st =
                      (after_reversal cl st, Inr (gi, gv))
              \<and> gi ! 0 = Some gy1 \<and> gi ! 1 = Some gy2
              \<and> length gi = 2 + length (cl_f_side_input cl) + length (cl_g_side_input cl)
              \<and> length gv = length variables)"
proof
  let ?F = "fn_lists st (cl_f cl)" and ?G = "fn_lists st (cl_g cl)"
  from wf one have lF: "length ?F = 1" and lG: "length ?G = 1"
    by (simp_all add: attributable_call_def)
  have "?F ! 0 \<in> set ?F" "?G ! 0 \<in> set ?G" using lF lG by simp_all
  with zero have c: "\<And>sc x s. call (?F ! 0) sc x s = 0" "\<And>sc x s. call (?G ! 0) sc x s = 0"
    by auto
  show "rev_block_forward x1 x2 ?F ?G (cl_num_layers cl) fsv gsv scopes gate_outputs bs =
          Inr (scopes @ [bs @ ''/revlayer_'' @ show_nat 0], (x1, x2))"
    using lF lG
    by (simp add: rev_block_forward_def one nth_checked_def rev_layer_forward_def c Let_def)
next
  let ?st' = "after_reversal cl st"
  let ?F = "fn_lists ?st' (cl_f cl)" and ?G = "fn_lists ?st' (cl_g cl)"
  from wf one have lF: "length ?F = 1" and lG: "length ?G = 1"
    by (simp_all add: attributable_call_def after_reversal_def reverse_at_def)
  have "?F ! 0 \<in> set ?F" "?G ! 0 \<in> set ?G" using lF lG by simp_all
  then have m: "?F ! 0 \<in> set (fn_lists st (cl_f cl))" "?G ! 0 \<in> set (fn_lists st (cl_g cl))"
    by (simp_all only: after_reversal_sets)
  from m zero
  have c: "\<And>sc x s. call (?F ! 0) sc x s = 0" "\<And>sc x s. call (?G ! 0) sc x s = 0"
    and d: "\<And>sc x s seed. d_input (?F ! 0) sc x s seed = Some 0"
           "\<And>sc x s seed. d_input (?G ! 0) sc x s seed = Some 0"
    by auto
  have st: "state_at (nat (cl_num_layers cl)) (layer_scopes ?st') ?F ?G
              (map tval (cl_f_side_input cl)) (map tval (cl_g_side_input cl))
              ((y1, y2), (gy1, gy2)) = Some ((y1, y2), (gy1, gy2))"
    by (simp add: one layer_backward_step_def Let_def c d)
  show "\<exists>gi gv. custom_grad_fn cl inputs variables [y1, y2] [gy1, gy2] st = (?st', Inr (gi, gv))
              \<and> gi ! 0 = Some gy1 \<and> gi ! 1 = Some gy2
              \<and> length gi = 2 + length (cl_f_side_input cl) + length (cl_g_side_input cl)
              \<and> length gv = length variables"
    unfolding custom_grad_fn_exact [OF wf] st option.case
    by (rule exI, rule exI, rule conjI, rule refl) simp
qed

lemma one_layer_attributable:
  "attributable_call one_layer_closure (one_layer_state fn) [sample_input, sample_input] []"
  by (simp add: attributable_call_def one_layer_closure_def one_layer_state_def)

theorem zero_coupling_single_layer_witness:
  "attributable_call one_layer_closure (one_layer_state zero_times_input)
     [sample_input, sample_input] []
   \<and> cl_num_layers one_layer_closure = 1
   \<and> fn_lists (one_layer_state zero_times_input) (cl_f one_layer_closure) = [zero_times_input]
   \<and> fn_lists (one_layer_state zero_times_input) (cl_g one_layer_closure) = [zero_times_input]
   \<and> (\<forall>sc x s. call zero_times_input sc x s = (0::int))
   \<and> (\<forall>sc x s seed. d_input zero_times_input sc x s seed = Some (0::int))
   \<and> rev_block_forward 5 7 (fn_lists (one_layer_state zero_times_input) (cl_f one_layer_closure))
        (fn_lists (one_layer_state zero_times_input) (cl_g one_layer_closure))
        (cl_num_layers one_layer_closure) [] [] [] True ''revblock'' =
        Inr ([] @ [''revblock'' @ ''/revlayer_'' @ show_nat 0], (5, 7))
   \<and> (\<exists>gi gv. custom_grad_fn one_layer_closure [sample_input, sample_input] [] [5, 7] [3, 4]
                  (one_layer_state zero_times_input) =
                 (after_reversal one_layer_closure (one_layer_state zero_times_input),
                  Inr (gi, gv))
          \<and> gi ! 0 = Some 3 \<and> gi ! 1 = Some 4
          \<and> length gi = 2 + length (cl_f_side_input one_layer_closure)
                          + length (cl_g_side_input one_layer_closure)
          \<and> length gv = length ([] :: int tensor list))"
proof -
  have one: "cl_num_layers one_layer_closure = 1" by (simp add: one_layer_closure_def)
  have zero: "\<forall>fn\<in>set (fn_lists (one_layer_state zero_times_input) (cl_f one_layer_closure))
            \<union> set (fn_lists (one_layer_state zero_times_input) (cl_g one_layer_closure)).
         (\<forall>sc x s. call fn sc x s = 0) \<and> (\<forall>sc x s seed. d_input fn sc x s seed = Some 0)"
    by (simp add: one_layer_state_def one_layer_closure_def zero_times_input_def)
  have lists: "fn_lists (one_layer_state zero_times_input) (cl_f one_layer_closure) =
                 [zero_times_input]"
    "fn_lists (one_layer_state zero_times_input) (cl_g one_layer_closure) = [zero_times_input]"
    by (simp_all add: one_layer_state_def one_layer_closure_def)
  have z: "\<forall>sc x s. call zero_times_input sc x s = (0::int)"
    "\<forall>sc x s seed. d_input zero_times_input sc x s seed = Some (0::int)"
    by (simp_all add: zero_times_input_def)
  show ?thesis
    using one_layer_attributable [of zero_times_input] one lists z
      zero_coupling_single_layer [OF one_layer_attributable one zero, where ?x1.0 = 5
        and ?x2.0 = 7 and fsv = "[]" and gsv = "[]" and scopes = "[]" and gate_outputs = True
        and bs = "''revblock''" and ?y1.0 = 5 and ?y2.0 = 7 and ?gy1.0 = 3 and ?gy2.0 = 4]
    by blast
qed

text \<open>
  The block built by \<open>rev_block\<close> from one constant zero function for each role, one
  layer, and the gradient function it installs, run on the output gradients 3 and 4: with
  functions connected to their inputs it returns them; with functions that are not, it
  raises.
\<close>

lemma zero_block_gradients:
  "installed_gradients
     (rev_block sample_input sample_input (OneFn zero_times_input) (OneFn zero_times_input) 1
        None None True ''revblock'' sample_out_node 7 (\<lambda>r. []) 0) [3, 4] =
   Some (Inr [Some 3, Some 4, None, None])"
  by (simp add: installed_gradients_def rev_block_def normalize_fn_def Let_def
      fn_with_custom_grad_impl_def forward_def rev_block_forward_def nth_checked_def
      rev_layer_forward_def side_arg_def zero_times_input_def block_variables_def
      show_nat_0 sample_input_def fn_custom_grad_fn_def slice_def sample_out_node_def
      custom_grad_fn_def enumerate_eq_zip backward_and_route_def reverse_at_def
      rev_layer_backward_def gradients_wrt_def acc_grads_def zip_star_has_nil
      var_grad_pairs_def)

theorem zero_coupling_none_gradient_counterexample:
  "installed_gradients
     (rev_block sample_input sample_input (OneFn zero_constant) (OneFn zero_constant) 1
        None None True ''revblock'' sample_out_node 7 (\<lambda>r. []) 0) [3, 4] =
   Some (Inl NoneOperandError)"
  by (simp add: installed_gradients_def rev_block_def normalize_fn_def Let_def
      fn_with_custom_grad_impl_def forward_def rev_block_forward_def nth_checked_def
      rev_layer_forward_def side_arg_def zero_constant_def block_variables_def
      show_nat_0 sample_input_def fn_custom_grad_fn_def slice_def sample_out_node_def
      custom_grad_fn_def enumerate_eq_zip backward_and_route_def reverse_at_def
      rev_layer_backward_def)

subsection \<open>One layer: the round trip\<close>


text \<open>The round trip evaluated on a sample layer, for which the backward pass returns.\<close>

lemma round_trip_example:
  "rev_layer_forward ''L'' (1, 2) scale_fn shift_fn [10] [20] True = (15, 18)"
  "rev_layer_reconstruct ''L'' [15, 18] scale_fn shift_fn [10] [20] = Inr (1, 2)"
  "map_sum id xs_rec (rev_layer_backward ''L'' [15, 18] [3, 4] scale_fn shift_fn [] [10] [] [20])
     = Inr (1, 2)"
  by (simp_all add: rev_layer_forward_def rev_layer_reconstruct_def rev_layer_backward_exact
      layer_backward_step_def scale_fn_def shift_fn_def side_arg_def Let_def)

end
